theory Spec2Isabelle
  imports Complex_Main
begin

section \<open>Arrays, the heap and Python exceptions\<close>

text \<open>
  The module \<open>ristretto/ballistic/randlapack/comps/deterministic.py\<close> composes implicit
  linear operators from NumPy arrays and hands them to an iterative solver of SciPy.
  Floating-point numbers are idealised as reals. A one-dimensional array is a list of
  reals living at an address of the heap, because the code writes into such arrays in place
  (\<open>np.copyto\<close>, \<open>out=work\<close>, \<open>overwrite_b=True\<close>). The two-dimensional arrays \<open>A\<close>,
  \<open>R\<close> and \<open>N\<close> are never written by the module, so they are plain values: the number of
  columns together with the list of rows.
\<close>

type_synonym vec = "real list"

type_synonym addr = nat

datatype matrix = Matrix (ncols: nat) (rowsOf: "vec list")

definition nrows :: "matrix \<Rightarrow> nat" where
  "nrows M = length (rowsOf M)"

definition shape :: "matrix \<Rightarrow> nat \<times> nat" where
  "shape M = (nrows M, ncols M)"

definition rectangular :: "matrix \<Rightarrow> bool" where
  "rectangular M = list_all (\<lambda>r. length r = ncols M) (rowsOf M)"

definition entry :: "matrix \<Rightarrow> nat \<Rightarrow> nat \<Rightarrow> real" where
  "entry M i j = rowsOf M ! i ! j"

text \<open>
  The exceptions that the calls of the module can raise: NumPy and SciPy raise
  \<open>ValueError\<close> for operands whose shapes do not fit, \<open>scipy.linalg.solve_triangular\<close>
  raises \<open>LinAlgError\<close> for a zero on the diagonal, and the external solver may raise
  anything else.
\<close>

datatype error = ValueError | LinAlgError | OtherError

record heap =
  cells :: "addr \<Rightarrow> vec"
  next_addr :: addr

type_synonym 'a py = "heap \<Rightarrow> (error + 'a) \<times> heap"

definition ret :: "'a \<Rightarrow> 'a py" where
  "ret a h = (Inr a, h)"

text \<open>Sequencing of two statements: an exception of the first one skips the second one,
  and the heap keeps what was written before the exception.\<close>

definition py_bind :: "'a py \<Rightarrow> ('a \<Rightarrow> 'b py) \<Rightarrow> 'b py" where
  "py_bind m f h = (case m h of (Inl e, h') \<Rightarrow> (Inl e, h') | (Inr a, h') \<Rightarrow> f a h')"

definition alloc :: "vec \<Rightarrow> addr py" where
  "alloc v h = (Inr (next_addr h),
                h\<lparr>cells := (cells h)(next_addr h := v), next_addr := Suc (next_addr h)\<rparr>)"

definition store :: "addr \<Rightarrow> vec \<Rightarrow> heap \<Rightarrow> heap" where
  "store a v h = h\<lparr>cells := (cells h)(a := v)\<rparr>"

section \<open>Linear algebra on lists\<close>

definition dot :: "vec \<Rightarrow> vec \<Rightarrow> real" where
  "dot u v = sum_list (map2 (*) u v)"

definition mat_vec :: "matrix \<Rightarrow> vec \<Rightarrow> vec" where
  "mat_vec M v = map (\<lambda>r. dot r v) (rowsOf M)"

text \<open>\<open>A.T\<close>: the entry \<open>(j, i)\<close> of the transpose is the entry \<open>(i, j)\<close> of \<open>A\<close>.\<close>

definition T :: "matrix \<Rightarrow> matrix" where
  "T M = Matrix (nrows M) (map (\<lambda>j. map (\<lambda>r. r ! j) (rowsOf M)) [0..<ncols M])"

text \<open>
  Back substitution for an upper-triangular system, as LAPACK's \<open>trtrs\<close> does it for
  \<open>uplo = U\<close>: the last unknown first, and only the entries on and above the diagonal are
  read. The recursion goes over the trailing submatrix: the first row gives the first unknown
  once the others are known.
\<close>

fun back_subst :: "vec list \<Rightarrow> vec \<Rightarrow> vec" where
  "back_subst (r # rs) (b # bs) =
     (let xs = back_subst (map tl rs) bs in (b - dot (tl r) xs) / hd r # xs)"
| "back_subst _ _ = []"

text \<open>
  Forward substitution for a lower-triangular system: the first unknown first, then its
  column is moved to the right-hand side. Only the entries on and below the diagonal are
  read.
\<close>

fun forward_subst :: "vec list \<Rightarrow> vec \<Rightarrow> vec" where
  "forward_subst (r # rs) (b # bs) =
     (let x = b / hd r
      in x # forward_subst (map tl rs) (map2 (\<lambda>row c. c - hd row * x) rs bs))"
| "forward_subst _ _ = []"

definition zero_on_diagonal :: "matrix \<Rightarrow> bool" where
  "zero_on_diagonal M = list_ex (\<lambda>i. entry M i i = 0) [0..<nrows M]"

definition upper_triangular :: "matrix \<Rightarrow> bool" where
  "upper_triangular M =
     list_all (\<lambda>i. list_all (\<lambda>j. entry M i j = 0) [0..<i]) [0..<nrows M]"

section \<open>The calls into NumPy and SciPy\<close>

text \<open>\<open>np.zeros(k)\<close>: a new array of \<open>k\<close> zeros.\<close>

definition np_zeros :: "nat \<Rightarrow> addr py" where
  "np_zeros k = alloc (replicate k 0)"

text \<open>\<open>np.copyto(dst, src)\<close>: \<open>src\<close> is broadcast to the shape of \<open>dst\<close>, so a source of
  one element fills the destination; any other length that differs is a \<open>ValueError\<close>.\<close>

definition np_copyto :: "addr \<Rightarrow> addr \<Rightarrow> unit py" where
  "np_copyto dst src h =
     (let s = cells h src; d = cells h dst
      in if length s = length d then (Inr (), store dst s h)
         else if length s = 1 then (Inr (), store dst (replicate (length d) (hd s)) h)
         else (Inl ValueError, h))"

text \<open>\<open>np.dot(M, vec, out=work)\<close>: the product is written into \<open>work\<close>, which must have
  the shape of the product.\<close>

definition np_dot_out :: "matrix \<Rightarrow> addr \<Rightarrow> addr \<Rightarrow> addr py" where
  "np_dot_out M src out h =
     (if ncols M \<noteq> length (cells h src) then (Inl ValueError, h)
      else if nrows M \<noteq> length (cells h out) then (Inl ValueError, h)
      else (Inr out, store out (mat_vec M (cells h src)) h))"

text \<open>\<open>M @ vec\<close>: the product in a new array.\<close>

definition matmul :: "matrix \<Rightarrow> addr \<Rightarrow> addr py" where
  "matmul M src h =
     (if ncols M \<noteq> length (cells h src) then (Inl ValueError, h)
      else alloc (mat_vec M (cells h src)) h)"

text \<open>
  \<open>scipy.linalg.solve_triangular(a, b, trans, lower=False)\<close> on values. SciPy raises
  \<open>ValueError\<close> when \<open>a\<close> is not square or \<open>b\<close> has another length, and \<open>LinAlgError\<close>
  when LAPACK reports a zero on the diagonal (the check comes before any substitution).
  The module always passes \<open>lower=False\<close>, so that argument is not modelled. With
  \<open>trans='T'\<close> the system \<open>a\<^sup>T x = b\<close> is solved; the upper triangle of \<open>a\<close> is the lower
  triangle of its transpose. The reals have no NaN and no infinity, so \<open>check_finite\<close>
  makes no difference.
\<close>

datatype trans = NoTrans | Trans

definition solve_triangular_val :: "matrix \<Rightarrow> vec \<Rightarrow> trans \<Rightarrow> error + vec" where
  "solve_triangular_val a b tr =
     (if nrows a \<noteq> ncols a then Inl ValueError
      else if nrows a \<noteq> length b then Inl ValueError
      else if zero_on_diagonal a then Inl LinAlgError
      else Inr (case tr of NoTrans \<Rightarrow> back_subst (rowsOf a) b
                         | Trans \<Rightarrow> forward_subst (rowsOf (T a)) b))"

text \<open>
  The call on the heap. With \<open>overwrite_b=True\<close> the solution is written into the array
  \<open>b\<close> itself (a contiguous one-dimensional array of doubles goes to LAPACK as it is);
  otherwise a new array holds it and \<open>b\<close> keeps its contents. An exception leaves \<open>b\<close> as it
  was.
\<close>

definition solve_triangular :: "matrix \<Rightarrow> addr \<Rightarrow> trans \<Rightarrow> bool \<Rightarrow> addr py" where
  "solve_triangular a b tr overwrite_b h =
     (case solve_triangular_val a (cells h b) tr of
        Inl e \<Rightarrow> (Inl e, h)
      | Inr x \<Rightarrow> if overwrite_b then (Inr b, store b x h) else alloc x h)"

text \<open>
  \<open>scipy.sparse.linalg.LinearOperator(shape, matvec, rmatvec)\<close>. The methods \<open>matvec\<close> and
  \<open>rmatvec\<close> of the object are the two closures behind a check: the argument must have the
  length that the declared shape asks for, else \<open>ValueError\<close> (dimension mismatch), and the
  value is reshaped to the declared length, which raises \<open>ValueError\<close> when it has another
  size and gives the same array otherwise. The module passes no \<open>dtype\<close>, so the constructor
  finds it out by applying \<open>matvec\<close> once to a new array of \<open>shape[1]\<close> zeros; an exception of
  that application is an exception of the constructor.
\<close>

record linear_operator =
  op_shape :: "nat \<times> nat"
  matvec :: "addr \<Rightarrow> addr py"
  rmatvec :: "addr \<Rightarrow> addr py"

definition reshape :: "nat \<Rightarrow> addr \<Rightarrow> addr py" where
  "reshape k y h = (if length (cells h y) = k then (Inr y, h) else (Inl ValueError, h))"

definition operator_matvec :: "nat \<times> nat \<Rightarrow> (addr \<Rightarrow> addr py) \<Rightarrow> addr \<Rightarrow> addr py" where
  "operator_matvec s mv x h =
     (if length (cells h x) \<noteq> snd s then (Inl ValueError, h)
      else py_bind (mv x) (reshape (fst s)) h)"

definition operator_rmatvec :: "nat \<times> nat \<Rightarrow> (addr \<Rightarrow> addr py) \<Rightarrow> addr \<Rightarrow> addr py" where
  "operator_rmatvec s rmv x h =
     (if length (cells h x) \<noteq> fst s then (Inl ValueError, h)
      else py_bind (rmv x) (reshape (snd s)) h)"

definition LinearOperator ::
  "nat \<times> nat \<Rightarrow> (addr \<Rightarrow> addr py) \<Rightarrow> (addr \<Rightarrow> addr py) \<Rightarrow> linear_operator py" where
  "LinearOperator s mv rmv =
     py_bind (np_zeros (snd s)) (\<lambda>zeros.
     py_bind (operator_matvec s mv zeros) (\<lambda>_.
     ret \<lparr>op_shape = s, matvec = operator_matvec s mv, rmatvec = operator_rmatvec s rmv\<rparr>))"

text \<open>
  The iterative solvers \<open>scipy.sparse.linalg.lsqr\<close> and \<open>scipy.sparse.linalg.cg\<close> are outside
  the module. A solver is any function of the operator, the right-hand side, the two
  tolerances, the iteration limit and the optional initial guess; it may apply the operator,
  change the heap and raise. Its result is the tuple of the solution array and the remaining
  fields, whose type is left open.
\<close>

type_synonym 'd solver =
  "linear_operator \<Rightarrow> addr \<Rightarrow> real \<Rightarrow> real \<Rightarrow> int \<Rightarrow> addr option \<Rightarrow> (addr \<times> 'd) py"

section \<open>The module\<close>

text \<open>
  Each function of the module is one definition, statement by statement. A nested function
  (\<open>mv\<close>, \<open>rmv\<close>) is a definition of its own that takes the variables it captures (\<open>A\<close>,
  \<open>R\<close> or \<open>N\<close>, and the address of each scratch buffer) before its argument \<open>vec\<close>. A
  value that the source discards is bound to \<open>_\<close>.
\<close>

subsection \<open>\<open>a_times_inv_r\<close>\<close>

text \<open>In \<open>mv\<close> the result of \<open>solve_triangular\<close> is discarded: the solution is in \<open>work\<close>,
  which was given with \<open>overwrite_b=True\<close>. In \<open>rmv\<close> the solve returns a new array.\<close>

definition a_times_inv_r_mv :: "matrix \<Rightarrow> matrix \<Rightarrow> addr \<Rightarrow> addr \<Rightarrow> addr py" where
  "a_times_inv_r_mv A R work vec =
     py_bind (np_copyto work vec) (\<lambda>_.
     py_bind (solve_triangular R work NoTrans True) (\<lambda>_.
     matmul A work))"

definition a_times_inv_r_rmv :: "matrix \<Rightarrow> matrix \<Rightarrow> addr \<Rightarrow> addr \<Rightarrow> addr py" where
  "a_times_inv_r_rmv A R work vec =
     py_bind (np_dot_out (T A) vec work) (\<lambda>_.
     solve_triangular R work Trans False)"

definition a_times_inv_r :: "matrix \<Rightarrow> matrix \<Rightarrow> linear_operator py" where
  "a_times_inv_r A R =
     py_bind (np_zeros (ncols A)) (\<lambda>work.
     LinearOperator (shape A) (a_times_inv_r_mv A R work) (a_times_inv_r_rmv A R work))"

subsection \<open>\<open>upper_tri_precond_lsqr\<close>\<close>

text \<open>The solver is the first argument of the model; the source calls \<open>sparla.lsqr\<close> with
  \<open>atol=tol\<close>, \<open>btol=tol\<close>, \<open>iter_lim=iter_lim\<close> and, when \<open>x0\<close> is not \<open>None\<close>, \<open>x0=y0\<close>.
  \<open>(R @ x0).ravel()\<close> is the product itself, which is one-dimensional already.\<close>

definition upper_tri_precond_lsqr ::
  "'d solver \<Rightarrow> matrix \<Rightarrow> addr \<Rightarrow> matrix \<Rightarrow> real \<Rightarrow> int \<Rightarrow> addr option \<Rightarrow> (addr \<times> 'd) py" where
  "upper_tri_precond_lsqr lsqr A b R tol iter_lim x0 =
     py_bind (a_times_inv_r A R) (\<lambda>A_precond.
     py_bind (case x0 of
                Some x \<Rightarrow> py_bind (matmul R x) (\<lambda>y0.
                            lsqr A_precond b tol tol iter_lim (Some y0))
              | None \<Rightarrow> lsqr A_precond b tol tol iter_lim None) (\<lambda>result.
     py_bind (solve_triangular R (fst result) NoTrans True) (\<lambda>_.
     ret result)))"

subsection \<open>\<open>pinv_precond_lsqr\<close>\<close>

text \<open>The last statement builds a new tuple from the new array \<open>N @ result[0]\<close> and the
  fields \<open>result[1:]\<close>.\<close>

definition pinv_precond_lsqr_mv :: "matrix \<Rightarrow> matrix \<Rightarrow> addr \<Rightarrow> addr \<Rightarrow> addr py" where
  "pinv_precond_lsqr_mv A N work vec =
     py_bind (np_dot_out N vec work) (\<lambda>_.
     matmul A work)"

definition pinv_precond_lsqr_rmv :: "matrix \<Rightarrow> matrix \<Rightarrow> addr \<Rightarrow> addr \<Rightarrow> addr py" where
  "pinv_precond_lsqr_rmv A N work vec =
     py_bind (np_dot_out (T A) vec work) (\<lambda>_.
     matmul (T N) work)"

definition pinv_precond_lsqr ::
  "'d solver \<Rightarrow> matrix \<Rightarrow> addr \<Rightarrow> matrix \<Rightarrow> real \<Rightarrow> int \<Rightarrow> (addr \<times> 'd) py" where
  "pinv_precond_lsqr lsqr A b N tol iter_lim =
     py_bind (np_zeros (ncols A)) (\<lambda>work.
     py_bind (LinearOperator (nrows A, ncols N)
                (pinv_precond_lsqr_mv A N work) (pinv_precond_lsqr_rmv A N work)) (\<lambda>A_precond.
     py_bind (lsqr A_precond b tol tol iter_lim None) (\<lambda>result.
     py_bind (matmul N (fst result)) (\<lambda>x.
     ret (x, snd result)))))"

subsection \<open>\<open>lr_precond_gram\<close>\<close>

definition lr_precond_gram_mv :: "matrix \<Rightarrow> matrix \<Rightarrow> addr \<Rightarrow> addr \<Rightarrow> addr \<Rightarrow> addr py" where
  "lr_precond_gram_mv A R work1 work2 vec =
     py_bind (np_copyto work1 vec) (\<lambda>_.
     py_bind (solve_triangular R work1 NoTrans True) (\<lambda>_.
     py_bind (np_dot_out A work1 work2) (\<lambda>_.
     py_bind (np_dot_out (T A) work2 work1) (\<lambda>_.
     solve_triangular R work1 Trans False))))"

definition lr_precond_gram :: "matrix \<Rightarrow> matrix \<Rightarrow> linear_operator py" where
  "lr_precond_gram A R =
     py_bind (np_zeros (ncols A)) (\<lambda>work1.
     py_bind (np_zeros (nrows A)) (\<lambda>work2.
     LinearOperator (ncols A, ncols A)
       (lr_precond_gram_mv A R work1 work2) (lr_precond_gram_mv A R work1 work2)))"

subsection \<open>\<open>upper_tri_precond_cg\<close>\<close>

text \<open>The source calls \<open>sparla.cg\<close> with the same keyword arguments as \<open>sparla.lsqr\<close> above;
  the model passes them to the solver in the same order.\<close>

definition upper_tri_precond_cg ::
  "'d solver \<Rightarrow> matrix \<Rightarrow> addr \<Rightarrow> matrix \<Rightarrow> real \<Rightarrow> int \<Rightarrow> addr option \<Rightarrow> (addr \<times> 'd) py" where
  "upper_tri_precond_cg cg A b R tol iter_lim x0 =
     py_bind (lr_precond_gram A R) (\<lambda>AtA_precond.
     py_bind (solve_triangular R b Trans False) (\<lambda>b_precond.
     py_bind (case x0 of
                Some x \<Rightarrow> py_bind (matmul R x) (\<lambda>y0.
                            cg AtA_precond b_precond tol tol iter_lim (Some y0))
              | None \<Rightarrow> cg AtA_precond b_precond tol tol iter_lim None) (\<lambda>result.
     py_bind (solve_triangular R (fst result) NoTrans True) (\<lambda>_.
     ret result))))"

section \<open>Concrete heaps\<close>

text \<open>A heap that holds the given arrays at the addresses \<open>0, 1, \<dots>\<close> and nothing
  else; the examples below start from such heaps.\<close>

definition heap_of :: "vec list \<Rightarrow> heap" where
  "heap_of vs = \<lparr>cells = (\<lambda>a. if a < length vs then vs ! a else []), next_addr = length vs\<rparr>"

section \<open>Notions used in the statements\<close>

text \<open>A call returns normally, and its value is a new array that holds \<open>x\<close>.\<close>

definition returns_new :: "addr py \<Rightarrow> heap \<Rightarrow> vec \<Rightarrow> bool" where
  "returns_new c h x \<longleftrightarrow>
     fst (c h) = Inr (next_addr h) \<and> cells (snd (c h)) (next_addr h) = x"

text \<open>\<open>w\<close> solves \<open>M w = b\<close> and no other vector does: \<open>w = M\<inverse> b\<close>.\<close>

definition the_solution :: "matrix \<Rightarrow> vec \<Rightarrow> vec \<Rightarrow> bool" where
  "the_solution M b w \<longleftrightarrow> {x. length x = ncols M \<and> mat_vec M x = b} = {w}"

text \<open>The last two statements of \<open>upper_tri_precond_lsqr\<close> and \<open>upper_tri_precond_cg\<close>:
  the triangular solve in place on the solution array of the solver's result, and the return
  of that result.\<close>

definition back_transform :: "matrix \<Rightarrow> addr \<times> 'd \<Rightarrow> (addr \<times> 'd) py" where
  "back_transform R =
     (\<lambda>result. py_bind (solve_triangular R (fst result) NoTrans True) (\<lambda>_. ret result))"

text \<open>Frames. Of the arrays that exist in \<open>h\<close>, only those at the addresses \<open>ws\<close> may
  have other contents in \<open>h'\<close>: as a relation with a set of addresses, used in the proofs, and
  as an equation between the lists of the contents of all other arrays.\<close>

definition preserves :: "addr set \<Rightarrow> heap \<Rightarrow> heap \<Rightarrow> bool" where
  "preserves ws h h' \<longleftrightarrow>
     next_addr h \<le> next_addr h' \<and> (\<forall>a<next_addr h. a \<notin> ws \<longrightarrow> cells h' a = cells h a)"

definition others_unchanged :: "addr list \<Rightarrow> heap \<Rightarrow> heap \<Rightarrow> bool" where
  "others_unchanged ws h h' \<longleftrightarrow>
     map (cells h') (filter (\<lambda>a. a \<notin> set ws) [0..<next_addr h])
       = map (cells h) (filter (\<lambda>a. a \<notin> set ws) [0..<next_addr h])"

text \<open>Every array that exists in \<open>h\<close> has the same size in \<open>h'\<close>.\<close>

definition keeps_sizes :: "heap \<Rightarrow> heap \<Rightarrow> bool" where
  "keeps_sizes h h' \<longleftrightarrow>
     next_addr h \<le> next_addr h' \<and>
     (\<forall>a<next_addr h. length (cells h' a) = length (cells h a))"

text \<open>A small instance: the matrix \<open>A\<close> of the worked example of the specification, an
  upper-triangular preconditioner, and a heap with a vector of length 2 at address 0 and
  the right-hand side \<open>b\<close> of length 3 at address 1.\<close>

definition ex_A :: matrix where
  "ex_A = Matrix 2 [[1, 0], [0, 1], [1, 1]]"

definition ex_R :: matrix where
  "ex_R = Matrix 2 [[2, 1], [0, 4]]"


definition ex_R_small :: matrix where
  "ex_R_small = Matrix 1 [[1]]"

definition ex_heap :: heap where
  "ex_heap = heap_of [[2, 4], [1, 1, 2]]"

text \<open>A stand-in for the external solver, used at concrete inputs: it applies the adjoint
  of the operator once to the right-hand side and returns that vector with a stop code and
  an iteration count.\<close>

definition ex_lsqr :: "(nat \<times> nat) solver" where
  "ex_lsqr op b atol btol iter_lim x0 = py_bind (rmatvec op b) (\<lambda>y. ret (y, (1, 1)))"

text \<open>
  The first steps of SciPy's \<open>lsqr\<close>. With no initial guess and a right-hand side of norm
  zero it returns at once: the solution is a new array of \<open>n\<close> zeros, for \<open>n\<close> the number of
  columns of the operator, and the other fields are those of a run without iterations. The
  operator is not applied and the length of \<open>b\<close> is not looked at. What \<open>lsqr\<close> does in every
  other case is left open: it is the argument \<open>rest\<close>.
\<close>

definition lsqr_zero_rhs :: "'d \<Rightarrow> 'd solver \<Rightarrow> 'd solver" where
  "lsqr_zero_rhs d0 rest op b atol btol iter_lim x0 h =
     (if x0 = None \<and> list_all (\<lambda>e. e = 0) (cells h b)
      then py_bind (np_zeros (snd (op_shape op))) (\<lambda>x. ret (x, d0)) h
      else rest op b atol btol iter_lim x0 h)"

section \<open>Triangular substitution solves the system\<close>

lemma dot_Nil [simp]: "dot [] v = 0" "dot u [] = 0"
  by (simp_all add: dot_def)

lemma dot_Cons [simp]: "dot (a # u) (b # v) = a * b + dot u v"
  by (simp add: dot_def)

lemma length_back_subst: "length (back_subst rs bs) = min (length rs) (length bs)"
  by (induction rs bs rule: back_subst.induct) (simp_all add: Let_def)

lemma length_forward_subst: "length (forward_subst rs bs) = min (length rs) (length bs)"
  by (induction rs bs rule: forward_subst.induct) (simp_all add: Let_def)

lemma dot_zeros: "\<forall>e\<in>set u. e = 0 \<Longrightarrow> dot u v = 0"
proof (induction u arbitrary: v)
  case Nil
  show ?case by simp
next
  case (Cons a u)
  then show ?case by (cases v) simp_all
qed

lemma dot_zero_head:
  assumes "r \<noteq> []" and "hd r = 0"
  shows "dot r (x # xs) = dot (tl r) xs"
  using assms by (cases r) simp_all

lemma dot_split_head:
  assumes "r \<noteq> []"
  shows "dot r (x # xs) = hd r * x + dot (tl r) xs"
  using assms by (cases r) simp_all

text \<open>The trailing submatrix of a square matrix given by its rows.\<close>

lemma trailing_nth:
  assumes "\<forall>r\<in>set rs. length r = Suc n" and "i < length rs" and "j < n"
  shows "map tl rs ! i ! j = (q # rs) ! Suc i ! Suc j"
proof -
  have "length (rs ! i) = Suc n" using assms by simp
  then show ?thesis using assms by (simp add: nth_tl)
qed

lemma back_subst_solves:
  assumes "length rs = n" and "\<forall>r\<in>set rs. length r = n" and "length bs = n"
    and "\<forall>i<n. rs ! i ! i \<noteq> 0" and "\<forall>i<n. \<forall>j<i. rs ! i ! j = 0"
  shows "map (\<lambda>r. dot r (back_subst rs bs)) rs = bs"
  using assms
proof (induction n arbitrary: rs bs)
  case 0
  then show ?case by simp
next
  case (Suc n)
  from Suc.prems obtain r rs' where rs: "rs = r # rs'" and lrs': "length rs' = n"
    by (cases rs) auto
  from Suc.prems obtain b bs' where bs: "bs = b # bs'" and lbs': "length bs' = n"
    by (cases bs) auto
  from Suc.prems rs obtain a r' where r: "r = a # r'" and lr': "length r' = n"
    by (cases r) auto
  have rows': "\<forall>q\<in>set rs'. length q = Suc n" using Suc.prems rs by simp
  let ?sub = "map tl rs'"
  let ?xs = "back_subst ?sub bs'"
  have a0: "a \<noteq> 0" using Suc.prems(4) rs r by force
  have sub_len: "length ?sub = n" using lrs' by simp
  have sub_rows: "\<forall>q\<in>set ?sub. length q = n" using rows' by simp
  have sub_diag: "\<forall>i<n. ?sub ! i ! i \<noteq> 0"
  proof (intro allI impI)
    fix i assume i: "i < n"
    have "?sub ! i ! i = rs ! Suc i ! Suc i"
      using trailing_nth [OF rows', of i i r] i lrs' rs by simp
    then show "?sub ! i ! i \<noteq> 0" using Suc.prems(4) i by simp
  qed
  have sub_upper: "\<forall>i<n. \<forall>j<i. ?sub ! i ! j = 0"
  proof (intro allI impI)
    fix i j assume i: "i < n" and j: "j < i"
    have "?sub ! i ! j = rs ! Suc i ! Suc j"
      using trailing_nth [OF rows', of i j r] i j lrs' rs by simp
    then show "?sub ! i ! j = 0" using Suc.prems(5) i j by simp
  qed
  have IH: "map (\<lambda>q. dot q ?xs) ?sub = bs'"
    by (rule Suc.IH [OF sub_len sub_rows lbs' sub_diag sub_upper])
  have heads: "\<forall>q\<in>set rs'. q \<noteq> [] \<and> hd q = 0"
  proof
    fix q assume "q \<in> set rs'"
    then obtain k where k: "k < n" and q: "q = rs' ! k"
      using lrs' by (auto simp: in_set_conv_nth)
    have lq: "length q = Suc n" using rows' \<open>q \<in> set rs'\<close> by simp
    have "rs ! Suc k ! 0 = 0" using Suc.prems(5) k by simp
    then have "q ! 0 = 0" using rs q by simp
    then show "q \<noteq> [] \<and> hd q = 0" using lq by (cases q) auto
  qed
  let ?x = "(b - dot r' ?xs) / a"
  have rest: "map (\<lambda>q. dot q (?x # ?xs)) rs' = map (\<lambda>q. dot q ?xs) ?sub"
    using heads by (simp add: dot_zero_head)
  have first: "dot r (?x # ?xs) = b" using a0 r by simp
  have tail: "map (\<lambda>q. dot q (?x # ?xs)) rs' = bs'"
    using rest IH by (rule trans)
  have sol: "back_subst rs bs = ?x # ?xs" using rs bs r by (simp add: Let_def)
  show ?case unfolding sol using first tail rs bs by simp
qed

lemma back_subst_unique:
  assumes "length rs = n" and "\<forall>r\<in>set rs. length r = n" and "length w = n"
    and "\<forall>i<n. rs ! i ! i \<noteq> 0" and "\<forall>i<n. \<forall>j<i. rs ! i ! j = 0"
  shows "back_subst rs (map (\<lambda>r. dot r w) rs) = w"
  using assms
proof (induction n arbitrary: rs w)
  case 0
  then show ?case by simp
next
  case (Suc n)
  from Suc.prems obtain r rs' where rs: "rs = r # rs'" and lrs': "length rs' = n"
    by (cases rs) auto
  from Suc.prems obtain x xs where w: "w = x # xs" and lxs: "length xs = n"
    by (cases w) auto
  from Suc.prems rs obtain a r' where r: "r = a # r'" and lr': "length r' = n"
    by (cases r) auto
  have rows': "\<forall>q\<in>set rs'. length q = Suc n" using Suc.prems rs by simp
  let ?sub = "map tl rs'"
  have a0: "a \<noteq> 0" using Suc.prems(4) rs r by force
  have sub_len: "length ?sub = n" using lrs' by simp
  have sub_rows: "\<forall>q\<in>set ?sub. length q = n" using rows' by simp
  have sub_diag: "\<forall>i<n. ?sub ! i ! i \<noteq> 0"
  proof (intro allI impI)
    fix i assume i: "i < n"
    have "?sub ! i ! i = rs ! Suc i ! Suc i"
      using trailing_nth [OF rows', of i i r] i lrs' rs by simp
    then show "?sub ! i ! i \<noteq> 0" using Suc.prems(4) i by simp
  qed
  have sub_upper: "\<forall>i<n. \<forall>j<i. ?sub ! i ! j = 0"
  proof (intro allI impI)
    fix i j assume i: "i < n" and j: "j < i"
    have "?sub ! i ! j = rs ! Suc i ! Suc j"
      using trailing_nth [OF rows', of i j r] i j lrs' rs by simp
    then show "?sub ! i ! j = 0" using Suc.prems(5) i j by simp
  qed
  have IH: "back_subst ?sub (map (\<lambda>q. dot q xs) ?sub) = xs"
    by (rule Suc.IH [OF sub_len sub_rows lxs sub_diag sub_upper])
  have heads: "\<forall>q\<in>set rs'. q \<noteq> [] \<and> hd q = 0"
  proof
    fix q assume "q \<in> set rs'"
    then obtain k where k: "k < n" and q: "q = rs' ! k"
      using lrs' by (auto simp: in_set_conv_nth)
    have lq: "length q = Suc n" using rows' \<open>q \<in> set rs'\<close> by simp
    have "rs ! Suc k ! 0 = 0" using Suc.prems(5) k by simp
    then have "q ! 0 = 0" using rs q by simp
    then show "q \<noteq> [] \<and> hd q = 0" using lq by (cases q) auto
  qed
  have rest: "map (\<lambda>q. dot q (x # xs)) rs' = map (\<lambda>q. dot q xs) ?sub"
    using heads by (simp add: dot_zero_head)
  have tail: "back_subst ?sub (map (\<lambda>q. dot q (x # xs)) rs') = xs"
    unfolding rest by (rule IH)
  have "back_subst rs (map (\<lambda>q. dot q w) rs) =
          (dot r (x # xs) - dot r' xs) / a # xs"
    unfolding rs w using tail r by (simp add: Let_def)
  then show ?case using a0 r w by simp
qed

lemma forward_rest:
  assumes "length ls = length bs" and "\<forall>q\<in>set ls. q \<noteq> []"
    and "map (\<lambda>q. dot q xs) (map tl ls) = map2 (\<lambda>row c. c - hd row * x) ls bs"
  shows "map (\<lambda>q. dot q (x # xs)) ls = bs"
  using assms
proof (induction ls bs rule: list_induct2)
  case Nil
  show ?case by simp
next
  case (Cons q ls b bs)
  then show ?case by (simp add: dot_split_head)
qed

lemma forward_rest_conv:
  assumes "\<forall>q\<in>set ls. q \<noteq> []"
  shows "map2 (\<lambda>row c. c - hd row * x) ls (map (\<lambda>q. dot q (x # xs)) ls)
           = map (\<lambda>q. dot q xs) (map tl ls)"
  using assms by (induction ls) (simp_all add: dot_split_head)

lemma first_row_zeros:
  assumes "length r' = n" and "\<forall>j. 0 < j \<and> j < Suc n \<longrightarrow> (a # r') ! j = 0"
  shows "\<forall>e\<in>set r'. e = 0"
proof
  fix e assume "e \<in> set r'"
  then obtain k where "k < n" and "e = r' ! k"
    using assms(1) by (auto simp: in_set_conv_nth)
  then show "e = 0" using assms(2) [rule_format, of "Suc k"] by simp
qed

lemma forward_subst_solves:
  assumes "length ls = n" and "\<forall>r\<in>set ls. length r = n" and "length bs = n"
    and "\<forall>i<n. ls ! i ! i \<noteq> 0" and "\<forall>i<n. \<forall>j<n. i < j \<longrightarrow> ls ! i ! j = 0"
  shows "map (\<lambda>r. dot r (forward_subst ls bs)) ls = bs"
  using assms
proof (induction n arbitrary: ls bs)
  case 0
  then show ?case by simp
next
  case (Suc n)
  from Suc.prems obtain r ls' where ls: "ls = r # ls'" and lls': "length ls' = n"
    by (cases ls) auto
  from Suc.prems obtain b bs' where bs: "bs = b # bs'" and lbs': "length bs' = n"
    by (cases bs) auto
  from Suc.prems ls obtain a r' where r: "r = a # r'" and lr': "length r' = n"
    by (cases r) auto
  have rows': "\<forall>q\<in>set ls'. length q = Suc n" using Suc.prems ls by simp
  let ?sub = "map tl ls'"
  let ?x = "b / a"
  let ?cs = "map2 (\<lambda>row c. c - hd row * ?x) ls' bs'"
  let ?xs = "forward_subst ?sub ?cs"
  have a0: "a \<noteq> 0" using Suc.prems(4) ls r by force
  have sub_len: "length ?sub = n" using lls' by simp
  have sub_rows: "\<forall>q\<in>set ?sub. length q = n" using rows' by simp
  have cs_len: "length ?cs = n" using lls' lbs' by simp
  have sub_diag: "\<forall>i<n. ?sub ! i ! i \<noteq> 0"
  proof (intro allI impI)
    fix i assume i: "i < n"
    have "?sub ! i ! i = ls ! Suc i ! Suc i"
      using trailing_nth [OF rows', of i i r] i lls' ls by simp
    then show "?sub ! i ! i \<noteq> 0" using Suc.prems(4) i by simp
  qed
  have sub_lower: "\<forall>i<n. \<forall>j<n. i < j \<longrightarrow> ?sub ! i ! j = 0"
  proof (intro allI impI)
    fix i j assume i: "i < n" and j: "j < n" and ij: "i < j"
    have "?sub ! i ! j = ls ! Suc i ! Suc j"
      using trailing_nth [OF rows', of i j r] i j lls' ls by simp
    then show "?sub ! i ! j = 0" using Suc.prems(5) i j ij by simp
  qed
  have IH: "map (\<lambda>q. dot q ?xs) ?sub = ?cs"
    by (rule Suc.IH [OF sub_len sub_rows cs_len sub_diag sub_lower])
  have nonempty: "\<forall>q\<in>set ls'. q \<noteq> []" using rows' by auto
  have tail: "map (\<lambda>q. dot q (?x # ?xs)) ls' = bs'"
    using forward_rest [OF _ nonempty IH] lls' lbs' by simp
  have "\<forall>j. 0 < j \<and> j < Suc n \<longrightarrow> (a # r') ! j = 0"
    using Suc.prems(5) ls r by force
  then have "dot r' ?xs = 0"
    using first_row_zeros [OF lr'] dot_zeros by blast
  then have first: "dot r (?x # ?xs) = b" using a0 r by simp
  have sol: "forward_subst ls bs = ?x # ?xs" using ls bs r by (simp add: Let_def)
  show ?case unfolding sol using first tail ls bs by simp
qed

lemma forward_subst_unique:
  assumes "length ls = n" and "\<forall>r\<in>set ls. length r = n" and "length w = n"
    and "\<forall>i<n. ls ! i ! i \<noteq> 0" and "\<forall>i<n. \<forall>j<n. i < j \<longrightarrow> ls ! i ! j = 0"
  shows "forward_subst ls (map (\<lambda>r. dot r w) ls) = w"
  using assms
proof (induction n arbitrary: ls w)
  case 0
  then show ?case by simp
next
  case (Suc n)
  from Suc.prems obtain r ls' where ls: "ls = r # ls'" and lls': "length ls' = n"
    by (cases ls) auto
  from Suc.prems obtain x xs where w: "w = x # xs" and lxs: "length xs = n"
    by (cases w) auto
  from Suc.prems ls obtain a r' where r: "r = a # r'" and lr': "length r' = n"
    by (cases r) auto
  have rows': "\<forall>q\<in>set ls'. length q = Suc n" using Suc.prems ls by simp
  let ?sub = "map tl ls'"
  have a0: "a \<noteq> 0" using Suc.prems(4) ls r by force
  have sub_len: "length ?sub = n" using lls' by simp
  have sub_rows: "\<forall>q\<in>set ?sub. length q = n" using rows' by simp
  have sub_diag: "\<forall>i<n. ?sub ! i ! i \<noteq> 0"
  proof (intro allI impI)
    fix i assume i: "i < n"
    have "?sub ! i ! i = ls ! Suc i ! Suc i"
      using trailing_nth [OF rows', of i i r] i lls' ls by simp
    then show "?sub ! i ! i \<noteq> 0" using Suc.prems(4) i by simp
  qed
  have sub_lower: "\<forall>i<n. \<forall>j<n. i < j \<longrightarrow> ?sub ! i ! j = 0"
  proof (intro allI impI)
    fix i j assume i: "i < n" and j: "j < n" and ij: "i < j"
    have "?sub ! i ! j = ls ! Suc i ! Suc j"
      using trailing_nth [OF rows', of i j r] i j lls' ls by simp
    then show "?sub ! i ! j = 0" using Suc.prems(5) i j ij by simp
  qed
  have IH: "forward_subst ?sub (map (\<lambda>q. dot q xs) ?sub) = xs"
    by (rule Suc.IH [OF sub_len sub_rows lxs sub_diag sub_lower])
  have nonempty: "\<forall>q\<in>set ls'. q \<noteq> []" using rows' by auto
  have "\<forall>j. 0 < j \<and> j < Suc n \<longrightarrow> (a # r') ! j = 0"
    using Suc.prems(5) ls r by force
  then have "dot r' xs = 0"
    using first_row_zeros [OF lr'] dot_zeros by blast
  then have first: "dot r (x # xs) / a = x" using a0 r by simp
  have "forward_subst ls (map (\<lambda>q. dot q w) ls) =
          dot r (x # xs) / a #
          forward_subst ?sub
            (map2 (\<lambda>row c. c - hd row * (dot r (x # xs) / a)) ls'
               (map (\<lambda>q. dot q (x # xs)) ls'))"
    unfolding ls w using r by (simp add: Let_def)
  also have "\<dots> = x # forward_subst ?sub (map (\<lambda>q. dot q xs) ?sub)"
    unfolding first forward_rest_conv [OF nonempty] ..
  finally show ?case using IH w by simp
qed

section \<open>Matrices: transpose, solution sets and the adjoint identity\<close>

lemma rectangular_iff: "rectangular M \<longleftrightarrow> (\<forall>r\<in>set (rowsOf M). length r = ncols M)"
  by (simp add: rectangular_def list_all_iff)

lemma upper_triangular_iff:
  "upper_triangular M \<longleftrightarrow> (\<forall>i<nrows M. \<forall>j<i. entry M i j = 0)"
  by (simp add: upper_triangular_def list_all_iff Ball_def)

lemma zero_on_diagonal_iff: "zero_on_diagonal M \<longleftrightarrow> (\<exists>i<nrows M. entry M i i = 0)"
  by (simp add: zero_on_diagonal_def list_ex_iff Bex_def)

lemma nrows_T [simp]: "nrows (T M) = ncols M"
  by (simp add: T_def nrows_def)

lemma ncols_T [simp]: "ncols (T M) = nrows M"
  by (simp add: T_def)

lemma rectangular_T [simp]: "rectangular (T M)"
  by (simp add: rectangular_iff T_def nrows_def)

lemma entry_T: "i < ncols M \<Longrightarrow> j < nrows M \<Longrightarrow> entry (T M) i j = entry M j i"
  by (simp add: entry_def T_def nrows_def)

lemma length_mat_vec [simp]: "length (mat_vec M v) = nrows M"
  by (simp add: mat_vec_def nrows_def)

lemma back_subst_solution_set:
  assumes "rectangular R" and "shape R = (m, m)" and "upper_triangular R"
    and "\<not> zero_on_diagonal R" and "length b = m"
  shows "{x. length x = m \<and> mat_vec R x = b} = {back_subst (rowsOf R) b}"
proof -
  have len: "length (rowsOf R) = m"
    using assms(2) by (simp add: shape_def nrows_def)
  have rows: "\<forall>r\<in>set (rowsOf R). length r = m"
    using assms(1,2) by (simp add: shape_def rectangular_iff)
  have diag: "\<forall>i<m. rowsOf R ! i ! i \<noteq> 0"
    using assms(4) len by (simp add: zero_on_diagonal_iff entry_def nrows_def)
  have upper: "\<forall>i<m. \<forall>j<i. rowsOf R ! i ! j = 0"
    using assms(3) len by (simp add: upper_triangular_iff entry_def nrows_def)
  have sol: "mat_vec R (back_subst (rowsOf R) b) = b"
    unfolding mat_vec_def by (rule back_subst_solves [OF len rows assms(5) diag upper])
  have lsol: "length (back_subst (rowsOf R) b) = m"
    unfolding length_back_subst len assms(5) by simp
  show ?thesis
  proof (intro equalityI subsetI)
    fix x assume "x \<in> {x. length x = m \<and> mat_vec R x = b}"
    then have lx: "length x = m" and mx: "mat_vec R x = b" by blast+
    have "back_subst (rowsOf R) (mat_vec R x) = x"
      unfolding mat_vec_def by (rule back_subst_unique [OF len rows lx diag upper])
    then have "back_subst (rowsOf R) b = x" unfolding mx .
    then show "x \<in> {back_subst (rowsOf R) b}" by blast
  next
    fix x assume "x \<in> {back_subst (rowsOf R) b}"
    then have "x = back_subst (rowsOf R) b" by blast
    then show "x \<in> {x. length x = m \<and> mat_vec R x = b}"
      using sol lsol by blast
  qed
qed

lemma forward_subst_solution_set:
  assumes "rectangular R" and "shape R = (m, m)" and "upper_triangular R"
    and "\<not> zero_on_diagonal R" and "length b = m"
  shows "{x. length x = m \<and> mat_vec (T R) x = b} = {forward_subst (rowsOf (T R)) b}"
proof -
  have nr: "nrows R = m" and nc: "ncols R = m"
    using assms(2) by (simp_all add: shape_def)
  have len: "length (rowsOf (T R)) = m"
    using nrows_T [of R] nc by (simp add: nrows_def)
  have rows: "\<forall>r\<in>set (rowsOf (T R)). length r = m"
    using rectangular_T [of R] nr by (simp add: rectangular_iff)
  have diag: "\<forall>i<m. rowsOf (T R) ! i ! i \<noteq> 0"
  proof (intro allI impI)
    fix i assume i: "i < m"
    have "entry (T R) i i = entry R i i" using i nr nc by (simp add: entry_T)
    moreover have "entry R i i \<noteq> 0"
      using assms(4) i nr by (simp add: zero_on_diagonal_iff)
    ultimately show "rowsOf (T R) ! i ! i \<noteq> 0" by (simp add: entry_def)
  qed
  have lower: "\<forall>i<m. \<forall>j<m. i < j \<longrightarrow> rowsOf (T R) ! i ! j = 0"
  proof (intro allI impI)
    fix i j assume i: "i < m" and j: "j < m" and ij: "i < j"
    have "entry (T R) i j = entry R j i" using i j nr nc by (simp add: entry_T)
    moreover have "entry R j i = 0"
      using assms(3) j ij nr by (simp add: upper_triangular_iff)
    ultimately show "rowsOf (T R) ! i ! j = 0" by (simp add: entry_def)
  qed
  have sol: "mat_vec (T R) (forward_subst (rowsOf (T R)) b) = b"
    unfolding mat_vec_def by (rule forward_subst_solves [OF len rows assms(5) diag lower])
  have lsol: "length (forward_subst (rowsOf (T R)) b) = m"
    unfolding length_forward_subst len assms(5) by simp
  show ?thesis
  proof (intro equalityI subsetI)
    fix x assume "x \<in> {x. length x = m \<and> mat_vec (T R) x = b}"
    then have lx: "length x = m" and mx: "mat_vec (T R) x = b" by blast+
    have "forward_subst (rowsOf (T R)) (mat_vec (T R) x) = x"
      unfolding mat_vec_def by (rule forward_subst_unique [OF len rows lx diag lower])
    then have "forward_subst (rowsOf (T R)) b = x" unfolding mx .
    then show "x \<in> {forward_subst (rowsOf (T R)) b}" by blast
  next
    fix x assume "x \<in> {forward_subst (rowsOf (T R)) b}"
    then have "x = forward_subst (rowsOf (T R)) b" by blast
    then show "x \<in> {x. length x = m \<and> mat_vec (T R) x = b}"
      using sol lsol by blast
  qed
qed

text \<open>The inner product as a sum over the indices.\<close>

lemma dot_sum:
  assumes "length u = length v"
  shows "dot u v = (\<Sum>i<length u. u ! i * v ! i)"
  using assms
proof (induction u v rule: list_induct2)
  case Nil
  show ?case by simp
next
  case (Cons a u b v)
  then show ?case by (simp add: sum.lessThan_Suc_shift del: sum.lessThan_Suc)
qed

lemma dot_commute:
  assumes "length u = length v"
  shows "dot u v = dot v u"
  using assms by (induction u v rule: list_induct2) simp_all

lemma mat_vec_nth:
  assumes "i < nrows M"
  shows "mat_vec M v ! i = dot (rowsOf M ! i) v"
  using assms by (simp add: mat_vec_def nrows_def)

lemma adjoint_identity:
  assumes "rectangular M" and "length x = nrows M" and "length y = ncols M"
  shows "dot (mat_vec (T M) x) y = dot x (mat_vec M y)"
proof -
  let ?n = "nrows M" and ?m = "ncols M"
  have row_len: "length (rowsOf M ! i) = ?m" if "i < ?n" for i
    using assms(1) that by (simp add: rectangular_iff nrows_def)
  have trow_len: "length (rowsOf (T M) ! j) = ?n" if "j < ?m" for j
    using that by (simp add: T_def nrows_def)
  have "dot (mat_vec (T M) x) y = (\<Sum>j<?m. dot (rowsOf (T M) ! j) x * y ! j)"
    using assms(3) by (simp add: dot_sum mat_vec_nth)
  also have "\<dots> = (\<Sum>j<?m. (\<Sum>i<?n. entry M i j * x ! i) * y ! j)"
  proof (rule sum.cong [OF refl])
    fix j assume "j \<in> {..<?m}"
    then have j: "j < ?m" by simp
    have "dot (rowsOf (T M) ! j) x = (\<Sum>i<?n. rowsOf (T M) ! j ! i * x ! i)"
      using trow_len [OF j] assms(2) by (simp add: dot_sum)
    also have "\<dots> = (\<Sum>i<?n. entry M i j * x ! i)"
      using entry_T [OF j] by (simp add: entry_def)
    finally show "dot (rowsOf (T M) ! j) x * y ! j = (\<Sum>i<?n. entry M i j * x ! i) * y ! j"
      by simp
  qed
  also have "\<dots> = (\<Sum>j<?m. \<Sum>i<?n. x ! i * (entry M i j * y ! j))"
  proof (rule sum.cong [OF refl])
    fix j
    have "(\<Sum>i<?n. entry M i j * x ! i) * y ! j = (\<Sum>i<?n. entry M i j * x ! i * y ! j)"
      by (rule sum_distrib_right)
    also have "\<dots> = (\<Sum>i<?n. x ! i * (entry M i j * y ! j))"
      by (rule sum.cong [OF refl]) simp
    finally show "(\<Sum>i<?n. entry M i j * x ! i) * y ! j
                    = (\<Sum>i<?n. x ! i * (entry M i j * y ! j))" .
  qed
  also have "\<dots> = (\<Sum>i<?n. \<Sum>j<?m. x ! i * (entry M i j * y ! j))"
    by (rule sum.swap)
  also have "\<dots> = (\<Sum>i<?n. x ! i * (\<Sum>j<?m. entry M i j * y ! j))"
    by (simp only: sum_distrib_left)
  also have "\<dots> = (\<Sum>i<?n. x ! i * dot (rowsOf M ! i) y)"
  proof (rule sum.cong [OF refl])
    fix i assume "i \<in> {..<?n}"
    then have i: "i < ?n" by simp
    have "dot (rowsOf M ! i) y = (\<Sum>j<?m. entry M i j * y ! j)"
      using row_len [OF i] assms(3) by (simp add: dot_sum entry_def)
    then show "x ! i * (\<Sum>j<?m. entry M i j * y ! j) = x ! i * dot (rowsOf M ! i) y"
      by simp
  qed
  also have "\<dots> = dot x (mat_vec M y)"
    using assms(2) by (simp add: dot_sum mat_vec_nth)
  finally show ?thesis .
qed

section \<open>Running the calls\<close>

lemmas ex_defs = ex_A_def ex_R_def ex_heap_def heap_of_def

lemmas shape_defs = shape_def nrows_def rectangular_def upper_triangular_def zero_on_diagonal_def entry_def

lemma solve_triangular_val_ok:
  assumes "shape a = (m, m)" and "length b = m" and "\<not> zero_on_diagonal a"
  shows "solve_triangular_val a b tr =
           Inr (case tr of NoTrans \<Rightarrow> back_subst (rowsOf a) b
                         | Trans \<Rightarrow> forward_subst (rowsOf (T a)) b)"
  using assms by (simp add: solve_triangular_val_def shape_def)

lemma length_back_subst_square:
  assumes "shape a = (m, m)" and "length b = m"
  shows "length (back_subst (rowsOf a) b) = m"
  using assms by (simp add: length_back_subst shape_def nrows_def)

lemma length_forward_subst_square:
  assumes "shape a = (m, m)" and "length b = m"
  shows "length (forward_subst (rowsOf (T a)) b) = m"
proof -
  have "length (rowsOf (T a)) = m"
    using nrows_T [of a] assms(1) by (simp add: nrows_def shape_def)
  then show ?thesis using assms(2) by (simp add: length_forward_subst)
qed

lemma next_addr_store [simp]: "next_addr (store a v h) = next_addr h"
  by (simp add: store_def)

lemma cells_store_same [simp]: "cells (store a v h) a = v"
  by (simp add: store_def)

lemma cells_store_other [simp]: "b \<noteq> a \<Longrightarrow> cells (store a v h) b = cells h b"
  by (simp add: store_def)

lemma alloc_eq: "alloc x h = (Inr (next_addr h), snd (alloc x h))"
  by (simp add: alloc_def)

lemma cells_alloc_new [simp]: "cells (snd (alloc x h)) (next_addr h) = x"
  by (simp add: alloc_def)

lemma cells_alloc_old [simp]: "a < next_addr h \<Longrightarrow> cells (snd (alloc x h)) a = cells h a"
  by (simp add: alloc_def)

lemma next_addr_alloc [simp]: "next_addr (snd (alloc x h)) = Suc (next_addr h)"
  by (simp add: alloc_def)

lemma cells_alloc_frame:
  "map (cells (snd (alloc x h))) [0..<next_addr h] = map (cells h) [0..<next_addr h]"
  by (simp add: alloc_def)

lemma py_bind_run:
  assumes "m h = (Inr a, h1)"
  shows "py_bind m f h = f a h1"
  using assms by (simp add: py_bind_def)

lemma py_bind_raise:
  assumes "m h = (Inl e, h1)"
  shows "py_bind m f h = (Inl e, h1)"
  using assms by (simp add: py_bind_def)

lemma py_bind_assoc: "py_bind (py_bind m f) g = py_bind m (\<lambda>a. py_bind (f a) g)"
  by (rule ext) (simp add: py_bind_def split: prod.splits sum.splits)

lemma py_bind_Inr:
  assumes "py_bind m f h = (Inr r, h')"
  shows "\<exists>a h1. m h = (Inr a, h1) \<and> f a h1 = (Inr r, h')"
  using assms by (auto simp: py_bind_def split: prod.splits sum.splits)


lemma matmul_run:
  assumes "ncols M = length (cells h a)"
  shows "matmul M a h = alloc (mat_vec M (cells h a)) h"
  using assms by (simp add: matmul_def)

lemma matmul_Inr:
  assumes "matmul M a h = (Inr r, h')"
  shows "r = next_addr h \<and> h' = snd (alloc (mat_vec M (cells h a)) h)"
  using assms by (auto simp: matmul_def alloc_def split: if_splits)

lemma matmul_shape:
  assumes "length (cells h a) \<noteq> ncols M"
  shows "matmul M a h = (Inl ValueError, h)"
  using assms by (auto simp: matmul_def)

lemma solve_triangular_val_Inr:
  assumes "solve_triangular_val R y tr = Inr x"
  shows "shape R = (length y, length y) \<and> \<not> zero_on_diagonal R \<and>
         x = (case tr of NoTrans \<Rightarrow> back_subst (rowsOf R) y
                       | Trans \<Rightarrow> forward_subst (rowsOf (T R)) y)"
  using assms by (auto simp: solve_triangular_val_def shape_def split: if_splits)

lemma solve_triangular_overwrite_Inr:
  assumes "solve_triangular R a tr True h = (Inr r, h')"
  shows "\<exists>x. solve_triangular_val R (cells h a) tr = Inr x \<and> h' = store a x h \<and> r = a"
  using assms by (auto simp: solve_triangular_def split: sum.splits)

lemma solve_triangular_fresh_run:
  assumes "solve_triangular_val R (cells h a) tr = Inr x"
  shows "solve_triangular R a tr False h = (Inr (next_addr h), snd (alloc x h))"
  using assms by (simp add: solve_triangular_def alloc_def)

lemma solve_triangular_fresh_result:
  assumes "solve_triangular R a tr False h = (r, h3)"
  shows "isl r \<or> (\<exists>x. r = Inr (next_addr h) \<and> h3 = snd (alloc x h))"
  using assms by (auto simp: solve_triangular_def alloc_def split: sum.splits)

lemma solve_triangular_val_singular:
  assumes "shape R = (m, m)" and "zero_on_diagonal R" and "length y = m"
  shows "solve_triangular_val R y tr = Inl LinAlgError"
  using assms by (simp add: solve_triangular_val_def shape_def)

lemma solve_triangular_val_singular_isl:
  assumes "zero_on_diagonal R"
  shows "isl (solve_triangular_val R y tr)"
  using assms by (simp add: solve_triangular_val_def)

lemma solve_triangular_singular:
  assumes "shape R = (m, m)" and "zero_on_diagonal R" and "length (cells h y) = m"
  shows "solve_triangular R y tr ov h = (Inl LinAlgError, h)"
  using solve_triangular_val_singular [OF assms] by (simp add: solve_triangular_def)

lemma solve_triangular_val_shape:
  assumes "shape R \<noteq> (length y, length y)"
  shows "solve_triangular_val R y tr = Inl ValueError"
  using assms by (auto simp: solve_triangular_val_def shape_def)

lemma solve_triangular_shape:
  assumes "shape R \<noteq> (length (cells h y), length (cells h y))"
  shows "solve_triangular R y tr ov h = (Inl ValueError, h)"
  using solve_triangular_val_shape [OF assms] by (simp add: solve_triangular_def)

lemma np_copyto_result:
  assumes "np_copyto dst src h = (r, h1)"
  shows "r = Inl ValueError \<or> (r = Inr () \<and> length (cells h1 dst) = length (cells h dst))"
  using assms by (auto simp: np_copyto_def Let_def split: if_splits)

lemma np_dot_out_cases:
  "np_dot_out M src out h = (Inl ValueError, h) \<or>
   np_dot_out M src out h = (Inr out, store out (mat_vec M (cells h src)) h)"
  by (simp add: np_dot_out_def)

lemma back_subst_mat_vec:
  assumes "rectangular R" and "shape R = (m, m)" and "upper_triangular R"
    and "\<not> zero_on_diagonal R" and "length x = m"
  shows "back_subst (rowsOf R) (mat_vec R x) = x"
proof -
  have lb: "length (mat_vec R x) = m" using assms(2) by (simp add: shape_def)
  have "x \<in> {y. length y = m \<and> mat_vec R y = mat_vec R x}" using assms(5) by blast
  then have "x \<in> {back_subst (rowsOf R) (mat_vec R x)}"
    unfolding back_subst_solution_set [OF assms(1,2,3,4) lb] .
  then show ?thesis by simp
qed

lemma solution_back_subst:
  assumes "rectangular R" and "shape R = (m, m)" and "upper_triangular R"
    and "\<not> zero_on_diagonal R" and "length b = m"
  shows "mat_vec R (back_subst (rowsOf R) b) = b"
proof -
  have "back_subst (rowsOf R) b \<in> {y. length y = m \<and> mat_vec R y = b}"
    unfolding back_subst_solution_set [OF assms] by blast
  then show ?thesis by blast
qed

lemma solution_forward_subst:
  assumes "rectangular R" and "shape R = (m, m)" and "upper_triangular R"
    and "\<not> zero_on_diagonal R" and "length b = m"
  shows "mat_vec (T R) (forward_subst (rowsOf (T R)) b) = b"
proof -
  have "forward_subst (rowsOf (T R)) b \<in> {y. length y = m \<and> mat_vec (T R) y = b}"
    unfolding forward_subst_solution_set [OF assms] by blast
  then show ?thesis by blast
qed

lemma the_solution_back_subst:
  assumes "rectangular R" and "upper_triangular R"
    and "solve_triangular_val R y NoTrans = Inr x"
  shows "the_solution R y x"
proof -
  from solve_triangular_val_Inr [OF assms(3)]
  have sh: "shape R = (length y, length y)" and nz: "\<not> zero_on_diagonal R"
    and x: "x = back_subst (rowsOf R) y" by simp_all
  have nc: "ncols R = length y" using sh by (simp add: shape_def)
  show ?thesis
    unfolding the_solution_def nc x
    by (rule back_subst_solution_set [OF assms(1) sh assms(2) nz refl])
qed

lemma the_solution_forward_subst:
  assumes "rectangular R" and "upper_triangular R"
    and "solve_triangular_val R y Trans = Inr x"
  shows "the_solution (T R) y x"
proof -
  from solve_triangular_val_Inr [OF assms(3)]
  have sh: "shape R = (length y, length y)" and nz: "\<not> zero_on_diagonal R"
    and x: "x = forward_subst (rowsOf (T R)) y" by simp_all
  have nc: "ncols (T R) = length y" using sh by (simp add: shape_def)
  show ?thesis
    unfolding the_solution_def nc x
    by (rule forward_subst_solution_set [OF assms(1) sh assms(2) nz refl])
qed

lemma back_transform_Inr:
  assumes "py_bind (solve_triangular R (fst res) NoTrans True) (\<lambda>_. ret res) hs = (Inr result, h')"
  shows "result = res \<and>
         (\<exists>x. solve_triangular_val R (cells hs (fst res)) NoTrans = Inr x \<and>
              h' = store (fst res) x hs)"
proof -
  from py_bind_Inr [OF assms] obtain a h1 where
    s: "solve_triangular R (fst res) NoTrans True hs = (Inr a, h1)"
    and r: "ret res h1 = (Inr result, h')" by blast
  from r have "result = res" and "h' = h1" by (simp_all add: ret_def)
  then show ?thesis using solve_triangular_overwrite_Inr [OF s] by blast
qed



section \<open>What a call writes\<close>

lemma preserves_refl: "preserves ws h h"
  by (simp add: preserves_def)

lemma preserves_trans:
  assumes "preserves ws h h1" and "preserves ws h1 h2"
  shows "preserves ws h h2"
  using assms by (simp add: preserves_def)

lemma preserves_store: "a \<in> ws \<Longrightarrow> preserves ws h (store a v h)"
  by (auto simp: preserves_def store_def)

lemma preserves_alloc: "preserves ws h (snd (alloc x h))"
  by (simp add: preserves_def alloc_def)

lemma py_bind_preserves:
  assumes "preserves ws h (snd (m h))" and "\<And>a h1. preserves ws h1 (snd (f a h1))"
  shows "preserves ws h (snd (py_bind m f h))"
proof (cases "m h")
  case (Pair r h1)
  show ?thesis
  proof (cases r)
    case (Inl e)
    then show ?thesis using Pair assms(1) by (simp add: py_bind_def)
  next
    case (Inr a)
    have "preserves ws h h1" using assms(1) Pair by simp
    then have "preserves ws h (snd (f a h1))" using assms(2) by (rule preserves_trans)
    then show ?thesis using Pair Inr by (simp add: py_bind_def)
  qed
qed

lemma np_copyto_preserves: "dst \<in> ws \<Longrightarrow> preserves ws h (snd (np_copyto dst src h))"
  by (simp add: np_copyto_def Let_def preserves_store preserves_refl)

lemma np_dot_out_preserves: "out \<in> ws \<Longrightarrow> preserves ws h (snd (np_dot_out M src out h))"
  by (simp add: np_dot_out_def preserves_store preserves_refl)

lemma matmul_preserves: "preserves ws h (snd (matmul M src h))"
  by (simp add: matmul_def preserves_alloc preserves_refl)

lemma solve_triangular_preserves:
  "b \<in> ws \<Longrightarrow> preserves ws h (snd (solve_triangular a b tr ov h))"
  by (simp add: solve_triangular_def preserves_store preserves_alloc preserves_refl
      split: sum.splits)

lemma a_times_inv_r_mv_preserves:
  "preserves {work} h (snd (a_times_inv_r_mv A R work vec h))"
  unfolding a_times_inv_r_mv_def
  by (intro py_bind_preserves np_copyto_preserves solve_triangular_preserves matmul_preserves)
    simp_all

lemma a_times_inv_r_rmv_preserves:
  "preserves {work} h (snd (a_times_inv_r_rmv A R work vec h))"
  unfolding a_times_inv_r_rmv_def
  by (intro py_bind_preserves np_dot_out_preserves solve_triangular_preserves) simp_all

lemma lr_precond_gram_mv_preserves:
  "preserves {work1, work2} h (snd (lr_precond_gram_mv A R work1 work2 vec h))"
  unfolding lr_precond_gram_mv_def
  by (intro py_bind_preserves np_copyto_preserves np_dot_out_preserves
      solve_triangular_preserves) simp_all

lemma pinv_precond_lsqr_mv_preserves:
  "preserves {work} h (snd (pinv_precond_lsqr_mv A N work vec h))"
  unfolding pinv_precond_lsqr_mv_def
  by (intro py_bind_preserves np_dot_out_preserves matmul_preserves) simp_all

lemma pinv_precond_lsqr_rmv_preserves:
  "preserves {work} h (snd (pinv_precond_lsqr_rmv A N work vec h))"
  unfolding pinv_precond_lsqr_rmv_def
  by (intro py_bind_preserves np_dot_out_preserves matmul_preserves) simp_all

lemma preserves_cell:
  assumes "preserves ws h h'" and "a < next_addr h" and "a \<notin> ws"
  shows "cells h' a = cells h a"
  using assms by (simp add: preserves_def)

lemma preserves_others:
  assumes "preserves (set ws) h h'"
  shows "others_unchanged ws h h'"
  using assms by (simp add: preserves_def others_unchanged_def)

section \<open>Arrays keep their sizes\<close>

text \<open>
  The statements below ask that the scratch buffer of an operator still has the size it was
  allocated with. No call of the module changes the size of an array that exists: a write in
  place stores a vector of the length that was there.
\<close>

lemma keeps_sizes_refl: "keeps_sizes h h"
  by (simp add: keeps_sizes_def)

lemma keeps_sizes_trans:
  assumes "keeps_sizes h h1" and "keeps_sizes h1 h2"
  shows "keeps_sizes h h2"
  using assms by (simp add: keeps_sizes_def)

lemma keeps_sizes_store:
  assumes "length v = length (cells h a)"
  shows "keeps_sizes h (store a v h)"
  using assms by (simp add: keeps_sizes_def store_def)

lemma keeps_sizes_alloc: "keeps_sizes h (snd (alloc x h))"
  by (simp add: keeps_sizes_def alloc_def)

lemma py_bind_keeps_sizes:
  assumes "keeps_sizes h (snd (m h))" and "\<And>a h1. keeps_sizes h1 (snd (f a h1))"
  shows "keeps_sizes h (snd (py_bind m f h))"
proof (cases "m h")
  case (Pair r h1)
  show ?thesis
  proof (cases r)
    case (Inl e)
    then show ?thesis using Pair assms(1) by (simp add: py_bind_def)
  next
    case (Inr a)
    have "keeps_sizes h h1" using assms(1) Pair by simp
    then have "keeps_sizes h (snd (f a h1))" using assms(2) by (rule keeps_sizes_trans)
    then show ?thesis using Pair Inr by (simp add: py_bind_def)
  qed
qed

lemma np_copyto_keeps_sizes: "keeps_sizes h (snd (np_copyto dst src h))"
  by (simp add: np_copyto_def Let_def keeps_sizes_store keeps_sizes_refl)

lemma np_dot_out_keeps_sizes: "keeps_sizes h (snd (np_dot_out M src out h))"
  by (simp add: np_dot_out_def keeps_sizes_store keeps_sizes_refl)

lemma matmul_keeps_sizes: "keeps_sizes h (snd (matmul M src h))"
  by (simp add: matmul_def keeps_sizes_alloc keeps_sizes_refl)

lemma length_solve_triangular_val:
  assumes "solve_triangular_val a b tr = Inr x"
  shows "length x = length b"
proof -
  from solve_triangular_val_Inr [OF assms]
  have sh: "shape a = (length b, length b)"
    and x: "x = (case tr of NoTrans \<Rightarrow> back_subst (rowsOf a) b
                          | Trans \<Rightarrow> forward_subst (rowsOf (T a)) b)" by simp_all
  show ?thesis
  proof (cases tr)
    case NoTrans
    then show ?thesis using x length_back_subst_square [OF sh refl] by simp
  next
    case Trans
    then show ?thesis using x length_forward_subst_square [OF sh refl] by simp
  qed
qed

lemma solve_triangular_keeps_sizes: "keeps_sizes h (snd (solve_triangular a b tr ov h))"
proof (cases "solve_triangular_val a (cells h b) tr")
  case (Inl e)
  then show ?thesis by (simp add: solve_triangular_def keeps_sizes_refl)
next
  case (Inr x)
  from length_solve_triangular_val [OF this] have "length x = length (cells h b)" .
  then show ?thesis
    using Inr by (simp add: solve_triangular_def keeps_sizes_store keeps_sizes_alloc)
qed

lemma application_keeps_sizes:
  "keeps_sizes h (snd (a_times_inv_r_mv A R work vec h))"
  "keeps_sizes h (snd (a_times_inv_r_rmv A R work vec h))"
  "keeps_sizes h (snd (lr_precond_gram_mv A R work1 work2 vec h))"
  "keeps_sizes h (snd (pinv_precond_lsqr_mv A N work vec h))"
  "keeps_sizes h (snd (pinv_precond_lsqr_rmv A N work vec h))"
  unfolding a_times_inv_r_mv_def a_times_inv_r_rmv_def lr_precond_gram_mv_def
    pinv_precond_lsqr_mv_def pinv_precond_lsqr_rmv_def
  by (intro py_bind_keeps_sizes np_copyto_keeps_sizes np_dot_out_keeps_sizes
      matmul_keeps_sizes solve_triangular_keeps_sizes)+

section \<open>The closures\<close>

lemma a_times_inv_r_mv_run:
  assumes "shape R = (m, m)" and "\<not> zero_on_diagonal R" and "ncols A = m"
    and "length (cells h work) = m" and "length (cells h vec) = m"
  shows "a_times_inv_r_mv A R work vec h =
           alloc (mat_vec A (back_subst (rowsOf R) (cells h vec)))
             (store work (back_subst (rowsOf R) (cells h vec)) h)"
proof -
  let ?v = "cells h vec"
  let ?w = "back_subst (rowsOf R) ?v"
  have copy: "np_copyto work vec h = (Inr (), store work ?v h)"
    using assms(4,5) by (simp add: np_copyto_def Let_def)
  have solve: "solve_triangular R work NoTrans True (store work ?v h)
                 = (Inr work, store work ?w h)"
    using solve_triangular_val_ok [OF assms(1) assms(5) assms(2), of NoTrans]
    by (simp add: solve_triangular_def store_def)
  have mul: "matmul A work (store work ?w h) = alloc (mat_vec A ?w) (store work ?w h)"
    using length_back_subst_square [OF assms(1) assms(5)] assms(3)
    by (simp add: matmul_def store_def)
  show ?thesis
    by (simp add: a_times_inv_r_mv_def py_bind_def copy solve mul)
qed

lemma a_times_inv_r_rmv_run:
  assumes "shape R = (m, m)" and "\<not> zero_on_diagonal R" and "shape A = (n, m)"
    and "length (cells h work) = m" and "length (cells h vec) = n"
  shows "a_times_inv_r_rmv A R work vec h =
           alloc (forward_subst (rowsOf (T R)) (mat_vec (T A) (cells h vec)))
             (store work (mat_vec (T A) (cells h vec)) h)"
proof -
  let ?p = "mat_vec (T A) (cells h vec)"
  have lp: "length ?p = m" using assms(3) by (simp add: shape_def)
  have dot: "np_dot_out (T A) vec work h = (Inr work, store work ?p h)"
    using assms(3,4,5) by (simp add: np_dot_out_def shape_def)
  have solve: "solve_triangular R work Trans False (store work ?p h)
                 = alloc (forward_subst (rowsOf (T R)) ?p) (store work ?p h)"
    using solve_triangular_val_ok [OF assms(1) lp assms(2), of Trans]
    by (simp add: solve_triangular_def store_def)
  show ?thesis
    by (simp add: a_times_inv_r_rmv_def py_bind_def dot solve)
qed

lemma lr_precond_gram_mv_run:
  assumes "shape R = (m, m)" and "\<not> zero_on_diagonal R" and "shape A = (n, m)"
    and "length (cells h work1) = m" and "length (cells h work2) = n" and "work1 \<noteq> work2"
    and "length (cells h vec) = m"
  shows "lr_precond_gram_mv A R work1 work2 vec h =
           alloc (forward_subst (rowsOf (T R))
                    (mat_vec (T A) (mat_vec A (back_subst (rowsOf R) (cells h vec)))))
             (store work1 (mat_vec (T A) (mat_vec A (back_subst (rowsOf R) (cells h vec))))
               (store work2 (mat_vec A (back_subst (rowsOf R) (cells h vec)))
                 (store work1 (back_subst (rowsOf R) (cells h vec)) h)))"
proof -
  let ?v = "cells h vec"
  let ?w = "back_subst (rowsOf R) ?v"
  let ?q = "mat_vec A ?w"
  let ?p = "mat_vec (T A) ?q"
  let ?h1 = "store work1 ?w h"
  let ?h2 = "store work2 ?q ?h1"
  let ?h3 = "store work1 ?p ?h2"
  have nA: "nrows A = n" and mA: "ncols A = m" using assms(3) by (simp_all add: shape_def)
  have lw: "length ?w = m" by (rule length_back_subst_square [OF assms(1,7)])
  have lp: "length ?p = m" using mA by simp
  have copy: "np_copyto work1 vec h = (Inr (), store work1 ?v h)"
    using assms(4,7) by (simp add: np_copyto_def Let_def)
  have solve1: "solve_triangular R work1 NoTrans True (store work1 ?v h) = (Inr work1, ?h1)"
    using solve_triangular_val_ok [OF assms(1) assms(7) assms(2), of NoTrans]
    by (simp add: solve_triangular_def store_def)
  have dot1: "np_dot_out A work1 work2 ?h1 = (Inr work2, ?h2)"
    using lw mA nA assms(5,6) by (simp add: np_dot_out_def)
  have dot2: "np_dot_out (T A) work2 work1 ?h2 = (Inr work1, ?h3)"
    using lw mA nA assms(6) by (simp add: np_dot_out_def)
  have solve2: "solve_triangular R work1 Trans False ?h3
                  = alloc (forward_subst (rowsOf (T R)) ?p) ?h3"
    using solve_triangular_val_ok [OF assms(1) lp assms(2), of Trans]
    by (simp add: solve_triangular_def)
  show ?thesis
    by (simp add: lr_precond_gram_mv_def py_bind_def copy solve1 dot1 dot2 solve2)
qed

lemma returns_new_alloc:
  assumes "c h = alloc x (store a y h)"
  shows "returns_new c h x"
  using assms by (simp add: returns_new_def alloc_def store_def)

lemma returns_new_alloc3:
  assumes "c h = alloc x (store a1 y1 (store a2 y2 (store a3 y3 h)))"
  shows "returns_new c h x"
  using assms by (simp add: returns_new_def alloc_def store_def)

lemma gram_symmetric:
  assumes "rectangular A" and "rectangular R" and "shape A = (n, m)" and "shape R = (m, m)"
    and "upper_triangular R" and "\<not> zero_on_diagonal R"
    and "length u = m" and "length v = m"
  shows "dot (forward_subst (rowsOf (T R)) (mat_vec (T A) (mat_vec A (back_subst (rowsOf R) u)))) v
       = dot u (forward_subst (rowsOf (T R)) (mat_vec (T A) (mat_vec A (back_subst (rowsOf R) v))))"
proof -
  let ?wu = "back_subst (rowsOf R) u" and ?wv = "back_subst (rowsOf R) v"
  let ?gu = "mat_vec (T A) (mat_vec A ?wu)" and ?gv = "mat_vec (T A) (mat_vec A ?wv)"
  let ?p = "forward_subst (rowsOf (T R)) ?gu" and ?q = "forward_subst (rowsOf (T R)) ?gv"
  have nA: "nrows A = n" and mA: "ncols A = m" using assms(3) by (simp_all add: shape_def)
  have nR: "nrows R = m" and mR: "ncols R = m" using assms(4) by (simp_all add: shape_def)
  have lwu: "length ?wu = m" by (rule length_back_subst_square [OF assms(4,7)])
  have lwv: "length ?wv = m" by (rule length_back_subst_square [OF assms(4,8)])
  have lgu: "length ?gu = m" and lgv: "length ?gv = m" using mA by simp_all
  have lp: "length ?p = m" by (rule length_forward_subst_square [OF assms(4) lgu])
  have lq: "length ?q = m" by (rule length_forward_subst_square [OF assms(4) lgv])
  have Ru: "mat_vec R ?wu = u" by (rule solution_back_subst [OF assms(2,4,5,6,7)])
  have Rv: "mat_vec R ?wv = v" by (rule solution_back_subst [OF assms(2,4,5,6,8)])
  have Rp: "mat_vec (T R) ?p = ?gu" by (rule solution_forward_subst [OF assms(2,4,5,6) lgu])
  have Rq: "mat_vec (T R) ?q = ?gv" by (rule solution_forward_subst [OF assms(2,4,5,6) lgv])
  have adjR: "dot (mat_vec (T R) x) y = dot x (mat_vec R y)"
    if "length x = m" and "length y = m" for x y
    using adjoint_identity [OF assms(2), of x y] that nR mR by simp
  have adjA: "dot (mat_vec (T A) x) y = dot x (mat_vec A y)"
    if "length x = n" and "length y = m" for x y
    using adjoint_identity [OF assms(1), of x y] that nA mA by simp
  have lAu: "length (mat_vec A ?wu) = n" and lAv: "length (mat_vec A ?wv) = n"
    using nA by simp_all
  have "dot ?p v = dot ?p (mat_vec R ?wv)" unfolding Rv ..
  also have "\<dots> = dot (mat_vec (T R) ?p) ?wv" by (rule adjR [OF lp lwv, symmetric])
  also have "\<dots> = dot ?gu ?wv" unfolding Rp ..
  also have "\<dots> = dot (mat_vec A ?wu) (mat_vec A ?wv)" by (rule adjA [OF lAu lwv])
  finally have left: "dot ?p v = dot (mat_vec A ?wu) (mat_vec A ?wv)" .
  have "dot u ?q = dot (mat_vec R ?wu) ?q" unfolding Ru ..
  also have "\<dots> = dot ?q (mat_vec R ?wu)"
    by (rule dot_commute) (simp add: nR lq)
  also have "\<dots> = dot (mat_vec (T R) ?q) ?wu" by (rule adjR [OF lq lwu, symmetric])
  also have "\<dots> = dot ?gv ?wu" unfolding Rq ..
  also have "\<dots> = dot (mat_vec A ?wv) (mat_vec A ?wu)" by (rule adjA [OF lAv lwu])
  also have "\<dots> = dot (mat_vec A ?wu) (mat_vec A ?wv)"
    by (rule dot_commute) (simp add: nA)
  finally have right: "dot u ?q = dot (mat_vec A ?wu) (mat_vec A ?wv)" .
  show ?thesis using left right by simp
qed

lemma a_times_inv_r_mv_singular:
  assumes "shape R = (m, m)" and "zero_on_diagonal R"
    and "length (cells h work) = m" and "length (cells h v) = m"
  shows "fst (a_times_inv_r_mv A R work v h) = Inl LinAlgError"
proof -
  let ?h1 = "store work (cells h v) h"
  have copy: "np_copyto work v h = (Inr (), ?h1)"
    using assms(3,4) by (simp add: np_copyto_def Let_def)
  have l: "length (cells ?h1 work) = m" using assms(4) by simp
  have "a_times_inv_r_mv A R work v h
          = py_bind (solve_triangular R work NoTrans True) (\<lambda>_. matmul A work) ?h1"
    unfolding a_times_inv_r_mv_def
    by (rule py_bind_run [where m = "np_copyto work v" and h = h, OF copy])
  also have "\<dots> = (Inl LinAlgError, ?h1)"
    by (rule py_bind_raise [where m = "solve_triangular R work NoTrans True" and h = ?h1,
          OF solve_triangular_singular [OF assms(1,2) l]])
  finally show ?thesis by simp
qed



lemma a_times_inv_r_mv_shape:
  assumes "shape R \<noteq> (m, m)" and "length (cells h work) = m"
  shows "fst (a_times_inv_r_mv A R work vec h) = Inl ValueError"
proof -
  obtain r h1 where copy: "np_copyto work vec h = (r, h1)"
    by (cases "np_copyto work vec h") simp
  from np_copyto_result [OF copy] show ?thesis
  proof
    assume "r = Inl ValueError"
    then show ?thesis using copy by (simp add: a_times_inv_r_mv_def py_bind_def)
  next
    assume ok: "r = Inr () \<and> length (cells h1 work) = length (cells h work)"
    then have "shape R \<noteq> (length (cells h1 work), length (cells h1 work))"
      using assms by simp
    from solve_triangular_shape [OF this]
    have "solve_triangular R work NoTrans True h1 = (Inl ValueError, h1)" .
    then show ?thesis using copy ok by (simp add: a_times_inv_r_mv_def py_bind_def)
  qed
qed

lemma lr_precond_gram_mv_shape:
  assumes "shape R \<noteq> (m, m)" and "length (cells h work1) = m"
  shows "fst (lr_precond_gram_mv A R work1 work2 vec h) = Inl ValueError"
proof -
  obtain r h1 where copy: "np_copyto work1 vec h = (r, h1)"
    by (cases "np_copyto work1 vec h") simp
  from np_copyto_result [OF copy] show ?thesis
  proof
    assume "r = Inl ValueError"
    then show ?thesis using copy by (simp add: lr_precond_gram_mv_def py_bind_def)
  next
    assume ok: "r = Inr () \<and> length (cells h1 work1) = length (cells h work1)"
    then have "shape R \<noteq> (length (cells h1 work1), length (cells h1 work1))"
      using assms by simp
    from solve_triangular_shape [OF this]
    have "solve_triangular R work1 NoTrans True h1 = (Inl ValueError, h1)" .
    then show ?thesis using copy ok by (simp add: lr_precond_gram_mv_def py_bind_def)
  qed
qed

lemma a_times_inv_r_rmv_shape:
  assumes "shape R \<noteq> (m, m)" and "ncols A = m"
  shows "fst (a_times_inv_r_rmv A R work vec h) = Inl ValueError"
proof -
  let ?h1 = "store work (mat_vec (T A) (cells h vec)) h"
  from np_dot_out_cases [of "T A" vec work h] show ?thesis
  proof
    assume "np_dot_out (T A) vec work h = (Inl ValueError, h)"
    then show ?thesis by (simp add: a_times_inv_r_rmv_def py_bind_def)
  next
    assume d: "np_dot_out (T A) vec work h = (Inr work, ?h1)"
    have "shape R \<noteq> (length (cells ?h1 work), length (cells ?h1 work))"
      using assms by simp
    from solve_triangular_shape [OF this]
    have "solve_triangular R work Trans False ?h1 = (Inl ValueError, ?h1)" .
    then show ?thesis using d by (simp add: a_times_inv_r_rmv_def py_bind_def)
  qed
qed

lemma pinv_precond_lsqr_mv_shape:
  assumes "nrows N \<noteq> m" and "length (cells h work) = m"
  shows "fst (pinv_precond_lsqr_mv A N work vec h) = Inl ValueError"
  using assms by (simp add: pinv_precond_lsqr_mv_def py_bind_def np_dot_out_def)

lemma pinv_precond_lsqr_rmv_shape:
  assumes "nrows N \<noteq> m" and "ncols A = m"
  shows "fst (pinv_precond_lsqr_rmv A N work vec h) = Inl ValueError"
proof -
  let ?h1 = "store work (mat_vec (T A) (cells h vec)) h"
  from np_dot_out_cases [of "T A" vec work h] show ?thesis
  proof
    assume "np_dot_out (T A) vec work h = (Inl ValueError, h)"
    then show ?thesis by (simp add: pinv_precond_lsqr_rmv_def py_bind_def)
  next
    assume d: "np_dot_out (T A) vec work h = (Inr work, ?h1)"
    have "matmul (T N) work ?h1 = (Inl ValueError, ?h1)"
      using assms by (simp add: matmul_def)
    then show ?thesis using d by (simp add: pinv_precond_lsqr_rmv_def py_bind_def)
  qed
qed

section \<open>The operator object\<close>

lemma reshape_run:
  assumes "length (cells h y) = k"
  shows "reshape k y h = (Inr y, h)"
  using assms by (simp add: reshape_def)

lemma operator_matvec_run:
  assumes "length (cells h x) = snd s" and "mv x h = (Inr a, h1)"
    and "length (cells h1 a) = fst s"
  shows "operator_matvec s mv x h = (Inr a, h1)"
  using assms by (simp add: operator_matvec_def py_bind_def reshape_def)

lemma operator_rmatvec_run:
  assumes "length (cells h x) = fst s" and "rmv x h = (Inr a, h1)"
    and "length (cells h1 a) = snd s"
  shows "operator_rmatvec s rmv x h = (Inr a, h1)"
  using assms by (simp add: operator_rmatvec_def py_bind_def reshape_def)

lemma operator_matvec_raise:
  assumes "length (cells h x) = snd s" and "fst (mv x h) = Inl e"
  shows "fst (operator_matvec s mv x h) = Inl e"
  using assms by (cases "mv x h") (simp add: operator_matvec_def py_bind_def)

lemma operator_rmatvec_raise:
  assumes "length (cells h x) = fst s" and "fst (rmv x h) = Inl e"
  shows "fst (operator_rmatvec s rmv x h) = Inl e"
  using assms by (cases "rmv x h") (simp add: operator_rmatvec_def py_bind_def)

lemma operator_matvec_length:
  assumes "length (cells h x) \<noteq> snd s"
  shows "operator_matvec s mv x h = (Inl ValueError, h)"
  using assms by (simp add: operator_matvec_def)

lemma operator_rmatvec_length:
  assumes "length (cells h x) \<noteq> fst s"
  shows "operator_rmatvec s rmv x h = (Inl ValueError, h)"
  using assms by (simp add: operator_rmatvec_def)

lemma returns_new_operator_matvec:
  assumes "returns_new (mv x) h y" and "length (cells h x) = snd s" and "length y = fst s"
  shows "returns_new (operator_matvec s mv x) h y"
proof -
  obtain r h1 where run: "mv x h = (r, h1)" by (cases "mv x h") simp
  with assms(1) have r: "r = Inr (next_addr h)" and y: "cells h1 (next_addr h) = y"
    by (simp_all add: returns_new_def)
  have "operator_matvec s mv x h = (Inr (next_addr h), h1)"
    using assms(2,3) run r y by (simp add: operator_matvec_def py_bind_def reshape_def)
  then show ?thesis using y by (simp add: returns_new_def)
qed

lemma returns_new_operator_rmatvec:
  assumes "returns_new (rmv x) h y" and "length (cells h x) = fst s" and "length y = snd s"
  shows "returns_new (operator_rmatvec s rmv x) h y"
proof -
  obtain r h1 where run: "rmv x h = (r, h1)" by (cases "rmv x h") simp
  with assms(1) have r: "r = Inr (next_addr h)" and y: "cells h1 (next_addr h) = y"
    by (simp_all add: returns_new_def)
  have "operator_rmatvec s rmv x h = (Inr (next_addr h), h1)"
    using assms(2,3) run r y by (simp add: operator_rmatvec_def py_bind_def reshape_def)
  then show ?thesis using y by (simp add: returns_new_def)
qed

lemma reshape_preserves: "preserves ws h (snd (reshape k y h))"
  by (simp add: reshape_def preserves_refl)

lemma operator_matvec_preserves:
  assumes "\<And>h1. preserves ws h1 (snd (mv x h1))"
  shows "preserves ws h (snd (operator_matvec s mv x h))"
proof (cases "length (cells h x) \<noteq> snd s")
  case True
  then show ?thesis by (simp add: operator_matvec_def preserves_refl)
next
  case False
  have "preserves ws h (snd (py_bind (mv x) (reshape (fst s)) h))"
    by (rule py_bind_preserves) (rule assms, rule reshape_preserves)
  then show ?thesis using False by (simp add: operator_matvec_def)
qed

lemma operator_rmatvec_preserves:
  assumes "\<And>h1. preserves ws h1 (snd (rmv x h1))"
  shows "preserves ws h (snd (operator_rmatvec s rmv x h))"
proof (cases "length (cells h x) \<noteq> fst s")
  case True
  then show ?thesis by (simp add: operator_rmatvec_def preserves_refl)
next
  case False
  have "preserves ws h (snd (py_bind (rmv x) (reshape (snd s)) h))"
    by (rule py_bind_preserves) (rule assms, rule reshape_preserves)
  then show ?thesis using False by (simp add: operator_rmatvec_def)
qed

text \<open>The constructor: a new array of zeros, one application of \<open>matvec\<close> to it, the object.\<close>

lemma LinearOperator_unfold:
  "LinearOperator s mv rmv h =
     py_bind (operator_matvec s mv (next_addr h))
       (\<lambda>_. ret \<lparr>op_shape = s, matvec = operator_matvec s mv,
                  rmatvec = operator_rmatvec s rmv\<rparr>)
       (snd (alloc (replicate (snd s) 0) h))"
  by (simp add: LinearOperator_def np_zeros_def
      py_bind_run [where m = "alloc (replicate (snd s) 0)" and h = h, OF alloc_eq])

lemma LinearOperator_Inr:
  assumes "LinearOperator s mv rmv h = (Inr op, h1)"
  shows "op = \<lparr>op_shape = s, matvec = operator_matvec s mv, rmatvec = operator_rmatvec s rmv\<rparr>"
proof -
  from py_bind_Inr [OF assms [unfolded LinearOperator_unfold]] obtain a h2 where
    "ret \<lparr>op_shape = s, matvec = operator_matvec s mv, rmatvec = operator_rmatvec s rmv\<rparr> h2
       = (Inr op, h1)" by blast
  then show ?thesis by (simp add: ret_def)
qed

lemma LinearOperator_run:
  assumes "mv (next_addr h) (snd (alloc (replicate (snd s) 0) h)) = (Inr a, h1)"
    and "length (cells h1 a) = fst s"
  shows "LinearOperator s mv rmv h =
           (Inr \<lparr>op_shape = s, matvec = operator_matvec s mv,
                  rmatvec = operator_rmatvec s rmv\<rparr>, h1)"
proof -
  let ?h2 = "snd (alloc (replicate (snd s) 0) h)"
  have "length (cells ?h2 (next_addr h)) = snd s" by simp
  then have "operator_matvec s mv (next_addr h) ?h2 = (Inr a, h1)"
    using assms by (simp add: operator_matvec_def py_bind_def reshape_def)
  then show ?thesis
    unfolding LinearOperator_unfold
    by (simp add: py_bind_run [where m = "operator_matvec s mv (next_addr h)" and h = ?h2]
        ret_def)
qed

lemma LinearOperator_raise:
  assumes "fst (mv (next_addr h) (snd (alloc (replicate (snd s) 0) h))) = Inl e"
  shows "fst (LinearOperator s mv rmv h) = Inl e"
proof -
  let ?h2 = "snd (alloc (replicate (snd s) 0) h)"
  have "length (cells ?h2 (next_addr h)) = snd s" by simp
  then have "fst (operator_matvec s mv (next_addr h) ?h2) = Inl e"
    using assms by (cases "mv (next_addr h) ?h2") (simp add: operator_matvec_def py_bind_def)
  then show ?thesis
    unfolding LinearOperator_unfold
    by (cases "operator_matvec s mv (next_addr h) ?h2") (simp add: py_bind_def)
qed

lemma LinearOperator_preserves:
  assumes "\<And>x h1. preserves ws h1 (snd (mv x h1))"
  shows "preserves ws h (snd (LinearOperator s mv rmv h))"
proof -
  let ?h2 = "snd (alloc (replicate (snd s) 0) h)"
  have "preserves ws ?h2 (snd (LinearOperator s mv rmv h))"
    unfolding LinearOperator_unfold
    by (rule py_bind_preserves, rule operator_matvec_preserves, rule assms)
      (simp add: ret_def preserves_refl)
  with preserves_alloc show ?thesis by (rule preserves_trans)
qed

section \<open>The constructors\<close>

lemma a_times_inv_r_unfold:
  "a_times_inv_r A R h =
     LinearOperator (shape A) (a_times_inv_r_mv A R (next_addr h))
       (a_times_inv_r_rmv A R (next_addr h)) (snd (alloc (replicate (ncols A) 0) h))"
  by (simp add: a_times_inv_r_def np_zeros_def
      py_bind_run [where m = "alloc (replicate (ncols A) 0)" and h = h, OF alloc_eq])

lemma lr_precond_gram_unfold:
  "lr_precond_gram A R h =
     LinearOperator (ncols A, ncols A)
       (lr_precond_gram_mv A R (next_addr h) (Suc (next_addr h)))
       (lr_precond_gram_mv A R (next_addr h) (Suc (next_addr h)))
       (snd (alloc (replicate (nrows A) 0) (snd (alloc (replicate (ncols A) 0) h))))"
proof -
  let ?h1 = "snd (alloc (replicate (ncols A) 0) h)"
  have second: "alloc (replicate (nrows A) 0) ?h1
                  = (Inr (Suc (next_addr h)), snd (alloc (replicate (nrows A) 0) ?h1))"
    using alloc_eq [of "replicate (nrows A) 0" ?h1] by simp
  show ?thesis
    by (simp add: lr_precond_gram_def np_zeros_def
        py_bind_run [where m = "alloc (replicate (ncols A) 0)" and h = h, OF alloc_eq]
        py_bind_run [where m = "alloc (replicate (nrows A) 0)" and h = ?h1, OF second])
qed

lemma a_times_inv_r_Inr:
  assumes "fst (a_times_inv_r A R h) = Inr op"
  shows "op = \<lparr>op_shape = shape A,
               matvec = operator_matvec (shape A) (a_times_inv_r_mv A R (next_addr h)),
               rmatvec = operator_rmatvec (shape A) (a_times_inv_r_rmv A R (next_addr h))\<rparr>"
proof -
  obtain h1 where "a_times_inv_r A R h = (Inr op, h1)"
    using assms by (cases "a_times_inv_r A R h") simp
  then show ?thesis unfolding a_times_inv_r_unfold by (rule LinearOperator_Inr)
qed

lemma lr_precond_gram_Inr:
  assumes "fst (lr_precond_gram A R h) = Inr op"
  shows "op = \<lparr>op_shape = (ncols A, ncols A),
               matvec = operator_matvec (ncols A, ncols A)
                          (lr_precond_gram_mv A R (next_addr h) (Suc (next_addr h))),
               rmatvec = operator_rmatvec (ncols A, ncols A)
                          (lr_precond_gram_mv A R (next_addr h) (Suc (next_addr h)))\<rparr>"
proof -
  obtain h1 where "lr_precond_gram A R h = (Inr op, h1)"
    using assms by (cases "lr_precond_gram A R h") simp
  then show ?thesis unfolding lr_precond_gram_unfold by (rule LinearOperator_Inr)
qed

text \<open>A constructor allocates its scratch buffers and writes nothing else that exists.\<close>

lemma a_times_inv_r_preserves:
  "preserves {next_addr h} (snd (alloc (replicate (ncols A) 0) h)) (snd (a_times_inv_r A R h))"
  unfolding a_times_inv_r_unfold
  by (rule LinearOperator_preserves) (rule a_times_inv_r_mv_preserves)

lemma lr_precond_gram_preserves:
  "preserves {next_addr h, Suc (next_addr h)}
     (snd (alloc (replicate (nrows A) 0) (snd (alloc (replicate (ncols A) 0) h))))
     (snd (lr_precond_gram A R h))"
  unfolding lr_precond_gram_unfold
  by (rule LinearOperator_preserves) (rule lr_precond_gram_mv_preserves)

lemma cells_a_times_inv_r:
  assumes "a < next_addr h"
  shows "cells (snd (a_times_inv_r A R h)) a = cells h a"
proof -
  let ?h1 = "snd (alloc (replicate (ncols A) 0) h)"
  have "cells (snd (a_times_inv_r A R h)) a = cells ?h1 a"
    by (rule preserves_cell [OF a_times_inv_r_preserves]) (use assms in simp_all)
  then show ?thesis using assms by simp
qed

lemma cells_lr_precond_gram:
  assumes "a < next_addr h"
  shows "cells (snd (lr_precond_gram A R h)) a = cells h a"
proof -
  let ?h2 = "snd (alloc (replicate (nrows A) 0) (snd (alloc (replicate (ncols A) 0) h)))"
  have "cells (snd (lr_precond_gram A R h)) a = cells ?h2 a"
    by (rule preserves_cell [OF lr_precond_gram_preserves]) (use assms in simp_all)
  then show ?thesis using assms by simp
qed

lemma next_addr_a_times_inv_r: "next_addr h < next_addr (snd (a_times_inv_r A R h))"
  using a_times_inv_r_preserves [of h A R] by (simp add: preserves_def)

lemma next_addr_lr_precond_gram: "Suc (next_addr h) < next_addr (snd (lr_precond_gram A R h))"
  using lr_precond_gram_preserves [of h A R] by (simp add: preserves_def)

text \<open>With shapes that fit and a nonsingular \<open>R\<close> the application to zeros succeeds, and
  the constructor returns the operator.\<close>

lemma a_times_inv_r_ok:
  assumes "shape A = (n, m)" and "shape R = (m, m)" and "\<not> zero_on_diagonal R"
  shows "fst (a_times_inv_r A R h) =
           Inr \<lparr>op_shape = (n, m),
                 matvec = operator_matvec (n, m) (a_times_inv_r_mv A R (next_addr h)),
                 rmatvec = operator_rmatvec (n, m) (a_times_inv_r_rmv A R (next_addr h))\<rparr>"
    and "length (cells (snd (a_times_inv_r A R h)) (next_addr h)) = m"
proof -
  let ?w = "next_addr h"
  let ?h1 = "snd (alloc (replicate (ncols A) 0) h)"
  let ?h2 = "snd (alloc (replicate (snd (shape A)) 0) ?h1)"
  let ?x = "back_subst (rowsOf R) (cells ?h2 (next_addr ?h1))"
  let ?h3 = "snd (alloc (mat_vec A ?x) (store ?w ?x ?h2))"
  have nA: "nrows A = n" and mA: "ncols A = m" using assms(1) by (simp_all add: shape_def)
  have lw: "length (cells ?h2 ?w) = m" using mA by (simp add: alloc_def)
  have lz: "length (cells ?h2 (next_addr ?h1)) = m" using assms(1) by (simp add: alloc_def)
  have "a_times_inv_r_mv A R ?w (next_addr ?h1) ?h2
          = alloc (mat_vec A ?x) (store ?w ?x ?h2)"
    by (rule a_times_inv_r_mv_run [OF assms(2,3) mA lw lz])
  then have run: "a_times_inv_r_mv A R ?w (next_addr ?h1) ?h2
                    = (Inr (next_addr (store ?w ?x ?h2)), ?h3)"
    using alloc_eq [of "mat_vec A ?x" "store ?w ?x ?h2"] by simp
  have lr: "length (cells ?h3 (next_addr (store ?w ?x ?h2))) = fst (shape A)"
    using nA assms(1) by (simp add: alloc_def)
  have eq: "a_times_inv_r A R h =
          (Inr \<lparr>op_shape = shape A,
                 matvec = operator_matvec (shape A) (a_times_inv_r_mv A R ?w),
                 rmatvec = operator_rmatvec (shape A) (a_times_inv_r_rmv A R ?w)\<rparr>, ?h3)"
    unfolding a_times_inv_r_unfold
    by (rule LinearOperator_run [where mv = "a_times_inv_r_mv A R ?w" and h = ?h1, OF run lr])
  show "fst (a_times_inv_r A R h) =
           Inr \<lparr>op_shape = (n, m),
                 matvec = operator_matvec (n, m) (a_times_inv_r_mv A R (next_addr h)),
                 rmatvec = operator_rmatvec (n, m) (a_times_inv_r_rmv A R (next_addr h))\<rparr>"
    using eq assms(1) by simp
  have "length ?x = m" by (rule length_back_subst_square [OF assms(2) lz])
  then show "length (cells (snd (a_times_inv_r A R h)) (next_addr h)) = m"
    using eq by (simp add: alloc_def store_def)
qed

lemma lr_precond_gram_ok:
  assumes "shape A = (n, m)" and "shape R = (m, m)" and "\<not> zero_on_diagonal R"
  shows "fst (lr_precond_gram A R h) =
           Inr \<lparr>op_shape = (m, m),
                 matvec = operator_matvec (m, m)
                            (lr_precond_gram_mv A R (next_addr h) (Suc (next_addr h))),
                 rmatvec = operator_rmatvec (m, m)
                            (lr_precond_gram_mv A R (next_addr h) (Suc (next_addr h)))\<rparr>"
    and "length (cells (snd (lr_precond_gram A R h)) (next_addr h)) = m"
    and "length (cells (snd (lr_precond_gram A R h)) (Suc (next_addr h))) = n"
proof -
  let ?w1 = "next_addr h" and ?w2 = "Suc (next_addr h)"
  let ?h2 = "snd (alloc (replicate (nrows A) 0) (snd (alloc (replicate (ncols A) 0) h)))"
  let ?h3 = "snd (alloc (replicate (snd (ncols A, ncols A)) 0) ?h2)"
  let ?x = "back_subst (rowsOf R) (cells ?h3 (next_addr ?h2))"
  let ?q = "mat_vec A ?x"
  let ?p = "mat_vec (T A) ?q"
  let ?z = "forward_subst (rowsOf (T R)) ?p"
  let ?h4 = "store ?w1 ?p (store ?w2 ?q (store ?w1 ?x ?h3))"
  let ?h5 = "snd (alloc ?z ?h4)"
  have nA: "nrows A = n" and mA: "ncols A = m" using assms(1) by (simp_all add: shape_def)
  have l1: "length (cells ?h3 ?w1) = m" using mA by (simp add: alloc_def)
  have l2: "length (cells ?h3 ?w2) = n" using nA by (simp add: alloc_def)
  have lz: "length (cells ?h3 (next_addr ?h2)) = m" using mA by (simp add: alloc_def)
  have ne: "?w1 \<noteq> ?w2" by simp
  have "lr_precond_gram_mv A R ?w1 ?w2 (next_addr ?h2) ?h3 = alloc ?z ?h4"
    by (rule lr_precond_gram_mv_run [OF assms(2,3,1) l1 l2 ne lz])
  then have run: "lr_precond_gram_mv A R ?w1 ?w2 (next_addr ?h2) ?h3
                    = (Inr (next_addr ?h4), ?h5)"
    using alloc_eq [of ?z ?h4] by simp
  have lp: "length ?p = m" using mA by simp
  have lzz: "length ?z = m" by (rule length_forward_subst_square [OF assms(2) lp])
  have lr: "length (cells ?h5 (next_addr ?h4)) = fst (ncols A, ncols A)"
    using lzz mA by (simp add: alloc_def)
  have eq: "lr_precond_gram A R h =
          (Inr \<lparr>op_shape = (ncols A, ncols A),
                 matvec = operator_matvec (ncols A, ncols A) (lr_precond_gram_mv A R ?w1 ?w2),
                 rmatvec = operator_rmatvec (ncols A, ncols A)
                             (lr_precond_gram_mv A R ?w1 ?w2)\<rparr>, ?h5)"
    unfolding lr_precond_gram_unfold
    by (rule LinearOperator_run [where mv = "lr_precond_gram_mv A R ?w1 ?w2" and h = ?h2,
          OF run lr])
  show "fst (lr_precond_gram A R h) =
           Inr \<lparr>op_shape = (m, m),
                 matvec = operator_matvec (m, m)
                            (lr_precond_gram_mv A R (next_addr h) (Suc (next_addr h))),
                 rmatvec = operator_rmatvec (m, m)
                            (lr_precond_gram_mv A R (next_addr h) (Suc (next_addr h)))\<rparr>"
    using eq mA by simp
  show "length (cells (snd (lr_precond_gram A R h)) (next_addr h)) = m"
    using eq lp by (simp add: alloc_def store_def)
  show "length (cells (snd (lr_precond_gram A R h)) (Suc (next_addr h))) = n"
    using eq nA by (simp add: alloc_def store_def)
qed

text \<open>With a preconditioner of the wrong shape, or with a zero on its diagonal, the
  application to zeros raises, and so does the constructor.\<close>

lemma a_times_inv_r_shape_error:
  assumes "shape R \<noteq> (ncols A, ncols A)"
  shows "fst (a_times_inv_r A R h) = Inl ValueError"
proof -
  let ?h1 = "snd (alloc (replicate (ncols A) 0) h)"
  let ?h2 = "snd (alloc (replicate (snd (shape A)) 0) ?h1)"
  have lw: "length (cells ?h2 (next_addr h)) = ncols A" by (simp add: alloc_def)
  have "fst (a_times_inv_r_mv A R (next_addr h) (next_addr ?h1) ?h2) = Inl ValueError"
    by (rule a_times_inv_r_mv_shape [OF assms lw])
  then show ?thesis
    unfolding a_times_inv_r_unfold
    by (rule LinearOperator_raise [where mv = "a_times_inv_r_mv A R (next_addr h)" and h = ?h1])
qed

lemma a_times_inv_r_singular_error:
  assumes "shape R = (ncols A, ncols A)" and "zero_on_diagonal R"
  shows "fst (a_times_inv_r A R h) = Inl LinAlgError"
proof -
  let ?h1 = "snd (alloc (replicate (ncols A) 0) h)"
  let ?h2 = "snd (alloc (replicate (snd (shape A)) 0) ?h1)"
  have lw: "length (cells ?h2 (next_addr h)) = ncols A" by (simp add: alloc_def)
  have lz: "length (cells ?h2 (next_addr ?h1)) = ncols A" by (simp add: alloc_def shape_def)
  have "fst (a_times_inv_r_mv A R (next_addr h) (next_addr ?h1) ?h2) = Inl LinAlgError"
    by (rule a_times_inv_r_mv_singular [OF assms lw lz])
  then show ?thesis
    unfolding a_times_inv_r_unfold
    by (rule LinearOperator_raise [where mv = "a_times_inv_r_mv A R (next_addr h)" and h = ?h1])
qed

lemma lr_precond_gram_shape_error:
  assumes "shape R \<noteq> (ncols A, ncols A)"
  shows "fst (lr_precond_gram A R h) = Inl ValueError"
proof -
  let ?h2 = "snd (alloc (replicate (nrows A) 0) (snd (alloc (replicate (ncols A) 0) h)))"
  let ?h3 = "snd (alloc (replicate (snd (ncols A, ncols A)) 0) ?h2)"
  have lw: "length (cells ?h3 (next_addr h)) = ncols A" by (simp add: alloc_def)
  have "fst (lr_precond_gram_mv A R (next_addr h) (Suc (next_addr h)) (next_addr ?h2) ?h3)
          = Inl ValueError"
    by (rule lr_precond_gram_mv_shape [OF assms lw])
  then show ?thesis
    unfolding lr_precond_gram_unfold
    by (rule LinearOperator_raise
        [where mv = "lr_precond_gram_mv A R (next_addr h) (Suc (next_addr h))" and h = ?h2])
qed


section \<open>The operator of \<open>a_times_inv_r\<close>\<close>

text \<open>
  Claim C1. For a matrix \<open>A\<close> of shape \<open>(n, m)\<close> and a nonsingular upper-triangular \<open>R\<close>
  of shape \<open>(m, m)\<close>, \<open>a_times_inv_r(A, R)\<close> returns an operator of shape \<open>(n, m)\<close>. In
  any heap in which its scratch buffer still has its \<open>m\<close> entries, the forward application
  to a vector \<open>v\<close> of length \<open>m\<close> returns \<open>A w\<close> in a new array, where \<open>w\<close> is the one
  solution of \<open>R w = v\<close>, and the adjoint application to a vector \<open>u\<close> of length \<open>n\<close>
  returns in a new array the one solution \<open>z\<close> of \<open>R\<^sup>T z = A\<^sup>T u\<close>.
\<close>
theorem a_times_inv_r_operator:
  assumes "rectangular R" and "shape A = (n, m)" and "shape R = (m, m)"
    and "upper_triangular R" and "\<not> zero_on_diagonal R"
    and "length (cells h (next_addr h0)) = m"
    and "length (cells h v) = m" and "length (cells h u) = n"
  shows "\<exists>op. fst (a_times_inv_r A R h0) = Inr op \<and> op_shape op = (n, m) \<and>
           (\<exists>w. the_solution R (cells h v) w \<and> returns_new (matvec op v) h (mat_vec A w)) \<and>
           (\<exists>z. the_solution (T R) (mat_vec (T A) (cells h u)) z \<and>
                returns_new (rmatvec op u) h z)"
proof -
  let ?k = "next_addr h0"
  let ?op = "\<lparr>op_shape = (n, m),
           matvec = operator_matvec (n, m) (a_times_inv_r_mv A R ?k),
           rmatvec = operator_rmatvec (n, m) (a_times_inv_r_rmv A R ?k)\<rparr>"
  let ?x = "back_subst (rowsOf R) (cells h v)"
  let ?p = "mat_vec (T A) (cells h u)"
  let ?z = "forward_subst (rowsOf (T R)) ?p"
  have nA: "nrows A = n" and ncA: "ncols A = m" and ncR: "ncols R = m"
    using assms(2,3) by (simp_all add: shape_def)
  have lp: "length ?p = m" using ncA by simp
  have w: "the_solution R (cells h v) ?x"
    unfolding the_solution_def ncR
    by (rule back_subst_solution_set [OF assms(1,3,4,5,7)])
  have z: "the_solution (T R) ?p ?z"
    using forward_subst_solution_set [OF assms(1,3,4,5) lp] assms(3)
    by (simp add: the_solution_def shape_def)
  have "returns_new (a_times_inv_r_mv A R ?k v) h (mat_vec A ?x)"
    using a_times_inv_r_mv_run [OF assms(3,5) ncA assms(6,7)] by (rule returns_new_alloc)
  then have fwd: "returns_new (operator_matvec (n, m) (a_times_inv_r_mv A R ?k) v) h
                    (mat_vec A ?x)"
    by (rule returns_new_operator_matvec) (simp_all add: assms(7) nA)
  have "returns_new (a_times_inv_r_rmv A R ?k u) h ?z"
    using a_times_inv_r_rmv_run [OF assms(3,5,2,6,8)] by (rule returns_new_alloc)
  then have adj: "returns_new (operator_rmatvec (n, m) (a_times_inv_r_rmv A R ?k) u) h ?z"
    by (rule returns_new_operator_rmatvec)
      (simp_all add: assms(8) length_forward_subst_square [OF assms(3) lp])
  have "fst (a_times_inv_r A R h0) = Inr ?op \<and> op_shape ?op = (n, m)"
    using a_times_inv_r_ok(1) [OF assms(2,3,5)] by simp
  moreover have "\<exists>w. the_solution R (cells h v) w \<and> returns_new (matvec ?op v) h (mat_vec A w)"
    using w fwd by auto
  moreover have "\<exists>z. the_solution (T R) ?p z \<and> returns_new (rmatvec ?op u) h z"
    using z adj by auto
  ultimately show ?thesis by blast
qed

theorem a_times_inv_r_operator_witness:
  "rectangular ex_R \<and> shape ex_A = (3, 2) \<and> shape ex_R = (2, 2) \<and> upper_triangular ex_R \<and>
   \<not> zero_on_diagonal ex_R \<and>
   length (cells (snd (a_times_inv_r ex_A ex_R ex_heap)) (next_addr ex_heap)) = 2 \<and>
   length (cells (snd (a_times_inv_r ex_A ex_R ex_heap)) 0) = 2 \<and>
   length (cells (snd (a_times_inv_r ex_A ex_R ex_heap)) 1) = 3 \<and>
   (\<exists>op. fst (a_times_inv_r ex_A ex_R ex_heap) = Inr op \<and> op_shape op = (3, 2) \<and>
      (\<exists>w. the_solution ex_R (cells (snd (a_times_inv_r ex_A ex_R ex_heap)) 0) w \<and>
           returns_new (matvec op 0) (snd (a_times_inv_r ex_A ex_R ex_heap)) (mat_vec ex_A w)) \<and>
      (\<exists>z. the_solution (T ex_R)
             (mat_vec (T ex_A) (cells (snd (a_times_inv_r ex_A ex_R ex_heap)) 1)) z \<and>
           returns_new (rmatvec op 1) (snd (a_times_inv_r ex_A ex_R ex_heap)) z))"
proof -
  let ?h = "snd (a_times_inv_r ex_A ex_R ex_heap)"
  have 1: "rectangular ex_R" by (simp add: ex_defs shape_defs)
  have 2: "shape ex_A = (3, 2)" by (simp add: ex_defs shape_defs)
  have 3: "shape ex_R = (2, 2)" by (simp add: ex_defs shape_defs)
  have 4: "upper_triangular ex_R" by (simp add: ex_defs shape_defs)
  have 5: "\<not> zero_on_diagonal ex_R" by (simp add: ex_defs shape_defs)
  have 6: "length (cells ?h (next_addr ex_heap)) = 2"
    by (rule a_times_inv_r_ok(2) [OF 2 3 5])
  have 7: "length (cells ?h 0) = 2"
    by (simp add: cells_a_times_inv_r ex_defs)
  have 8: "length (cells ?h 1) = 3"
    by (simp add: cells_a_times_inv_r ex_defs)
  show ?thesis
    using 1 2 3 4 5 6 7 8 a_times_inv_r_operator [OF 1 2 3 4 5 6 7 8] by blast
qed

section \<open>Undoing the preconditioner\<close>

text \<open>
  Claim C3. For \<open>A\<close> of shape \<open>(n, m)\<close>, a nonsingular upper-triangular \<open>R\<close> of shape
  \<open>(m, m)\<close> and a vector \<open>x\<close> of length \<open>m\<close>, the forward application of the operator of
  \<open>a_times_inv_r(A, R)\<close> to the vector \<open>R x\<close> returns \<open>A x\<close>. In exact arithmetic the two
  are equal, and the rank of \<open>A\<close> plays no role.
\<close>
theorem a_times_inv_r_of_R_x:
  assumes "rectangular R" and "shape A = (n, m)" and "shape R = (m, m)"
    and "upper_triangular R" and "\<not> zero_on_diagonal R"
    and "length (cells h (next_addr h0)) = m"
    and "length x = m" and "cells h v = mat_vec R x"
  shows "\<exists>op. fst (a_times_inv_r A R h0) = Inr op \<and>
           returns_new (matvec op v) h (mat_vec A x)"
proof -
  let ?k = "next_addr h0"
  have nA: "nrows A = n" and ncA: "ncols A = m" using assms(2) by (simp_all add: shape_def)
  have lv: "length (cells h v) = m" using assms(3,8) by (simp add: shape_def)
  have wx: "back_subst (rowsOf R) (cells h v) = x"
    unfolding assms(8) by (rule back_subst_mat_vec [OF assms(1,3,4,5,7)])
  have "returns_new (a_times_inv_r_mv A R ?k v) h (mat_vec A x)"
    using a_times_inv_r_mv_run [OF assms(3,5) ncA assms(6) lv] unfolding wx
    by (rule returns_new_alloc)
  then have "returns_new (operator_matvec (n, m) (a_times_inv_r_mv A R ?k) v) h (mat_vec A x)"
    by (rule returns_new_operator_matvec) (simp_all add: lv nA)
  then show ?thesis using a_times_inv_r_ok(1) [OF assms(2,3,5)] by simp
qed

theorem a_times_inv_r_of_R_x_witness:
  "rectangular ex_R \<and> shape ex_A = (3, 2) \<and> shape ex_R = (2, 2) \<and> upper_triangular ex_R \<and>
   \<not> zero_on_diagonal ex_R \<and>
   length (cells (heap_of [[0, 0], [5, 4]]) (next_addr (heap_of []))) = 2 \<and>
   length [2, 1 :: real] = 2 \<and>
   cells (heap_of [[0, 0], [5, 4]]) 1 = mat_vec ex_R [2, 1] \<and>
   (\<exists>op. fst (a_times_inv_r ex_A ex_R (heap_of [])) = Inr op \<and>
      returns_new (matvec op 1) (heap_of [[0, 0], [5, 4]]) (mat_vec ex_A [2, 1]))"
proof -
  have 1: "rectangular ex_R" by (simp add: ex_defs shape_defs)
  have 2: "shape ex_A = (3, 2)" by (simp add: ex_defs shape_defs)
  have 3: "shape ex_R = (2, 2)" by (simp add: ex_defs shape_defs)
  have 4: "upper_triangular ex_R" by (simp add: ex_defs shape_defs)
  have 5: "\<not> zero_on_diagonal ex_R" by (simp add: ex_defs shape_defs)
  have 6: "length (cells (heap_of [[0, 0], [5, 4]]) (next_addr (heap_of []))) = 2"
    by (simp add: heap_of_def)
  have 7: "length [2, 1 :: real] = 2" by simp
  have 8: "cells (heap_of [[0, 0], [5, 4]]) 1 = mat_vec ex_R [2, 1]"
    by (simp add: heap_of_def mat_vec_def ex_R_def)
  show ?thesis
    using 1 2 3 4 5 6 7 8 a_times_inv_r_of_R_x [OF 1 2 3 4 5 6 7 8] by blast
qed

section \<open>The operator of \<open>lr_precond_gram\<close>\<close>

text \<open>
  Claim C2. For \<open>A\<close> of shape \<open>(n, m)\<close> and a nonsingular upper-triangular \<open>R\<close> of shape
  \<open>(m, m)\<close>, \<open>lr_precond_gram(A, R)\<close> returns an operator of shape \<open>(m, m)\<close> whose adjoint
  application is the same function as its forward application. Applied to a vector \<open>u\<close> of
  length \<open>m\<close> it returns, in a new array, the one solution \<open>z\<close> of
  \<open>R\<^sup>T z = A\<^sup>T (A w)\<close>, where \<open>w\<close> is the one solution of \<open>R w = u\<close>. The operator is
  symmetric: the inner product of its value at \<open>u\<close> with \<open>v\<close> is the inner product of \<open>u\<close>
  with its value at \<open>v\<close>, in whatever heaps the two applications run as long as the two
  scratch buffers still have their sizes.
\<close>
theorem lr_precond_gram_operator:
  assumes "rectangular A" and "rectangular R" and "shape A = (n, m)" and "shape R = (m, m)"
    and "upper_triangular R" and "\<not> zero_on_diagonal R"
    and "length (cells h (next_addr h0)) = m" and "length (cells h (Suc (next_addr h0))) = n"
    and "length (cells h' (next_addr h0)) = m" and "length (cells h' (Suc (next_addr h0))) = n"
    and "length (cells h u) = m" and "length (cells h' v) = m"
  shows "\<exists>op. fst (lr_precond_gram A R h0) = Inr op \<and> op_shape op = (m, m) \<and>
           rmatvec op = matvec op \<and>
           (\<exists>w z. the_solution R (cells h u) w \<and>
                  the_solution (T R) (mat_vec (T A) (mat_vec A w)) z \<and>
                  returns_new (matvec op u) h z) \<and>
           (\<exists>p q. returns_new (matvec op u) h p \<and> returns_new (matvec op v) h' q \<and>
                  dot p (cells h' v) = dot (cells h u) q)"
proof -
  let ?mv = "lr_precond_gram_mv A R (next_addr h0) (Suc (next_addr h0))"
  let ?op = "\<lparr>op_shape = (m, m), matvec = operator_matvec (m, m) ?mv,
               rmatvec = operator_rmatvec (m, m) ?mv\<rparr>"
  let ?g = "\<lambda>x. forward_subst (rowsOf (T R))
                (mat_vec (T A) (mat_vec A (back_subst (rowsOf R) x)))"
  let ?x = "back_subst (rowsOf R) (cells h u)"
  have mA: "ncols A = m" and mR: "ncols R = m" using assms(3,4) by (simp_all add: shape_def)
  have distinct: "next_addr h0 \<noteq> Suc (next_addr h0)" by simp
  have lg: "length (mat_vec (T A) (mat_vec A y)) = m" for y using mA by simp
  have lgg: "length (?g y) = m" for y by (rule length_forward_subst_square [OF assms(4) lg])
  have w: "the_solution R (cells h u) ?x"
    unfolding the_solution_def mR
    by (rule back_subst_solution_set [OF assms(2,4,5,6,11)])
  have z: "the_solution (T R) (mat_vec (T A) (mat_vec A ?x)) (?g (cells h u))"
    using forward_subst_solution_set [OF assms(2,4,5,6) lg] assms(4)
    by (simp add: the_solution_def shape_def)
  have "returns_new (?mv u) h (?g (cells h u))"
    using lr_precond_gram_mv_run [OF assms(4,6,3,7,8) distinct assms(11)]
    by (rule returns_new_alloc3)
  then have run_u: "returns_new (operator_matvec (m, m) ?mv u) h (?g (cells h u))"
    by (rule returns_new_operator_matvec) (simp_all add: assms(11) lgg)
  have "returns_new (?mv v) h' (?g (cells h' v))"
    using lr_precond_gram_mv_run [OF assms(4,6,3,9,10) distinct assms(12)]
    by (rule returns_new_alloc3)
  then have run_v: "returns_new (operator_matvec (m, m) ?mv v) h' (?g (cells h' v))"
    by (rule returns_new_operator_matvec) (simp_all add: assms(12) lgg)
  have sym: "dot (?g (cells h u)) (cells h' v) = dot (cells h u) (?g (cells h' v))"
    by (rule gram_symmetric [OF assms(1,2,3,4,5,6,11,12)])
  have same: "operator_rmatvec (m, m) ?mv = operator_matvec (m, m) ?mv"
    by (intro ext) (simp add: operator_rmatvec_def operator_matvec_def)
  have "fst (lr_precond_gram A R h0) = Inr ?op \<and> op_shape ?op = (m, m) \<and>
          rmatvec ?op = matvec ?op"
    using lr_precond_gram_ok(1) [OF assms(3,4,6)] same by simp
  moreover have "\<exists>w z. the_solution R (cells h u) w \<and>
                  the_solution (T R) (mat_vec (T A) (mat_vec A w)) z \<and>
                  returns_new (matvec ?op u) h z"
    using w z run_u by auto
  moreover have "\<exists>p q. returns_new (matvec ?op u) h p \<and> returns_new (matvec ?op v) h' q \<and>
                  dot p (cells h' v) = dot (cells h u) q"
    using run_u run_v sym by auto
  ultimately show ?thesis by blast
qed

theorem lr_precond_gram_operator_witness:
  "rectangular ex_A \<and> rectangular ex_R \<and> shape ex_A = (3, 2) \<and> shape ex_R = (2, 2) \<and>
   upper_triangular ex_R \<and> \<not> zero_on_diagonal ex_R \<and>
   length (cells (snd (lr_precond_gram ex_A ex_R (heap_of [[2, 4], [1, 3]])))
             (next_addr (heap_of [[2, 4], [1, 3]]))) = 2 \<and>
   length (cells (snd (lr_precond_gram ex_A ex_R (heap_of [[2, 4], [1, 3]])))
             (Suc (next_addr (heap_of [[2, 4], [1, 3]])))) = 3 \<and>
   length (cells (snd (lr_precond_gram ex_A ex_R (heap_of [[2, 4], [1, 3]]))) 0) = 2 \<and>
   length (cells (snd (lr_precond_gram ex_A ex_R (heap_of [[2, 4], [1, 3]]))) 1) = 2 \<and>
   (\<exists>op. fst (lr_precond_gram ex_A ex_R (heap_of [[2, 4], [1, 3]])) = Inr op \<and>
      op_shape op = (2, 2) \<and> rmatvec op = matvec op \<and>
      (\<exists>w z. the_solution ex_R
               (cells (snd (lr_precond_gram ex_A ex_R (heap_of [[2, 4], [1, 3]]))) 0) w \<and>
             the_solution (T ex_R) (mat_vec (T ex_A) (mat_vec ex_A w)) z \<and>
             returns_new (matvec op 0)
               (snd (lr_precond_gram ex_A ex_R (heap_of [[2, 4], [1, 3]]))) z) \<and>
      (\<exists>p q. returns_new (matvec op 0)
               (snd (lr_precond_gram ex_A ex_R (heap_of [[2, 4], [1, 3]]))) p \<and>
             returns_new (matvec op 1)
               (snd (lr_precond_gram ex_A ex_R (heap_of [[2, 4], [1, 3]]))) q \<and>
             dot p (cells (snd (lr_precond_gram ex_A ex_R (heap_of [[2, 4], [1, 3]]))) 1)
               = dot (cells (snd (lr_precond_gram ex_A ex_R (heap_of [[2, 4], [1, 3]]))) 0) q))"
proof -
  let ?s = "heap_of [[2, 4], [1, 3]]"
  let ?h = "snd (lr_precond_gram ex_A ex_R ?s)"
  have 1: "rectangular ex_A" by (simp add: ex_defs shape_defs)
  have 2: "rectangular ex_R" by (simp add: ex_defs shape_defs)
  have 3: "shape ex_A = (3, 2)" by (simp add: ex_defs shape_defs)
  have 4: "shape ex_R = (2, 2)" by (simp add: ex_defs shape_defs)
  have 5: "upper_triangular ex_R" by (simp add: ex_defs shape_defs)
  have 6: "\<not> zero_on_diagonal ex_R" by (simp add: ex_defs shape_defs)
  have 7: "length (cells ?h (next_addr ?s)) = 2"
    by (rule lr_precond_gram_ok(2) [OF 3 4 6])
  have 8: "length (cells ?h (Suc (next_addr ?s))) = 3"
    by (rule lr_precond_gram_ok(3) [OF 3 4 6])
  have 9: "length (cells ?h 0) = 2"
    by (simp add: cells_lr_precond_gram heap_of_def)
  have 10: "length (cells ?h 1) = 2"
    by (simp add: cells_lr_precond_gram heap_of_def)
  show ?thesis
    using 1 2 3 4 5 6 7 8 9 10 lr_precond_gram_operator [OF 1 2 3 4 5 6 7 8 7 8 9 10]
    by blast
qed

section \<open>The result of \<open>upper_tri_precond_lsqr\<close>\<close>

lemmas run_defs = py_bind_def ret_def alloc_def store_def np_zeros_def np_copyto_def
  np_dot_out_def matmul_def solve_triangular_def solve_triangular_val_def LinearOperator_def
  reshape_def operator_matvec_def operator_rmatvec_def
  a_times_inv_r_def a_times_inv_r_mv_def a_times_inv_r_rmv_def
  lr_precond_gram_def lr_precond_gram_mv_def
  pinv_precond_lsqr_mv_def pinv_precond_lsqr_rmv_def
  mat_vec_def dot_def T_def Let_def numeral_2_eq_2 numeral_3_eq_3

text \<open>
  Claim C4. When \<open>upper_tri_precond_lsqr\<close> returns normally, its value is the very tuple
  that the external solver returned: the same solution array and the same other fields. The
  heap differs from the heap the solver left in one place only: the solution array, which
  held \<open>y\<close>, now holds the one solution \<open>x\<close> of \<open>R x = y\<close>.
\<close>
theorem upper_tri_precond_lsqr_result:
  assumes "fst (upper_tri_precond_lsqr lsqr A b R tol iter_lim x0 h) = Inr result"
    and "rectangular R" and "upper_triangular R"
  shows "\<exists>op y0 hs hs' x.
           fst (a_times_inv_r A R h) = Inr op \<and>
           lsqr op b tol tol iter_lim y0 hs = (Inr result, hs') \<and>
           the_solution R (cells hs' (fst result)) x \<and>
           snd (upper_tri_precond_lsqr lsqr A b R tol iter_lim x0 h) = store (fst result) x hs'"
proof -
  obtain h' where run: "upper_tri_precond_lsqr lsqr A b R tol iter_lim x0 h = (Inr result, h')"
    using assms(1) by (cases "upper_tri_precond_lsqr lsqr A b R tol iter_lim x0 h") simp
  from py_bind_Inr [OF run [unfolded upper_tri_precond_lsqr_def]]
  obtain op h1 where
    con: "a_times_inv_r A R h = (Inr op, h1)"
    and rest: "py_bind (case x0 of
                Some x \<Rightarrow> py_bind (matmul R x) (\<lambda>y0. lsqr op b tol tol iter_lim (Some y0))
              | None \<Rightarrow> lsqr op b tol tol iter_lim None)
             (\<lambda>res. py_bind (solve_triangular R (fst res) NoTrans True) (\<lambda>_. ret res)) h1
           = (Inr result, h')"
    by blast
  from py_bind_Inr [OF rest] obtain res hs' where
    call: "(case x0 of
                Some x \<Rightarrow> py_bind (matmul R x) (\<lambda>y0. lsqr op b tol tol iter_lim (Some y0))
              | None \<Rightarrow> lsqr op b tol tol iter_lim None) h1 = (Inr res, hs')"
    and fin: "py_bind (solve_triangular R (fst res) NoTrans True) (\<lambda>_. ret res) hs'
                = (Inr result, h')"
    by blast
  from back_transform_Inr [OF fin] obtain x where
    res: "result = res"
    and x: "solve_triangular_val R (cells hs' (fst res)) NoTrans = Inr x"
    and h': "h' = store (fst res) x hs'" by blast
  have sol: "the_solution R (cells hs' (fst result)) x"
    unfolding res by (rule the_solution_back_subst [OF assms(2,3) x])
  have "\<exists>y0 hs. lsqr op b tol tol iter_lim y0 hs = (Inr result, hs')"
  proof (cases x0)
    case None
    then show ?thesis using call res by auto
  next
    case (Some xa)
    then have "py_bind (matmul R xa) (\<lambda>y0. lsqr op b tol tol iter_lim (Some y0)) h1
                 = (Inr res, hs')" using call by simp
    from py_bind_Inr [OF this] show ?thesis using res by blast
  qed
  then obtain y0 hs where "lsqr op b tol tol iter_lim y0 hs = (Inr result, hs')" by blast
  moreover have "fst (a_times_inv_r A R h) = Inr op" using con by simp
  moreover have "snd (upper_tri_precond_lsqr lsqr A b R tol iter_lim x0 h)
                   = store (fst result) x hs'"
    using run h' res by simp
  ultimately show ?thesis using sol by blast
qed

theorem upper_tri_precond_lsqr_result_witness:
  "fst (upper_tri_precond_lsqr ex_lsqr ex_A 1 ex_R (1 / 100) 10 None ex_heap) = Inr (5, (1, 1)) \<and>
   rectangular ex_R \<and> upper_triangular ex_R \<and>
   (\<exists>op y0 hs hs' x.
      fst (a_times_inv_r ex_A ex_R ex_heap) = Inr op \<and>
      ex_lsqr op 1 (1 / 100) (1 / 100) 10 y0 hs = (Inr (5, (1, 1)), hs') \<and>
      the_solution ex_R (cells hs' (fst (5 :: nat, (1 :: nat, 1 :: nat)))) x \<and>
      snd (upper_tri_precond_lsqr ex_lsqr ex_A 1 ex_R (1 / 100) 10 None ex_heap)
        = store (fst (5 :: nat, (1 :: nat, 1 :: nat))) x hs')"
proof -
  have 1: "fst (upper_tri_precond_lsqr ex_lsqr ex_A 1 ex_R (1 / 100) 10 None ex_heap)
             = Inr (5, (1, 1))"
    by (simp add: upper_tri_precond_lsqr_def ex_lsqr_def run_defs ex_defs shape_defs)
  have 2: "rectangular ex_R" by (simp add: ex_defs shape_defs)
  have 3: "upper_triangular ex_R" by (simp add: ex_defs shape_defs)
  show ?thesis
    using 1 2 3 upper_tri_precond_lsqr_result [OF 1 2 3] by blast
qed

section \<open>The entry points as one call of the solver\<close>

text \<open>Once the constructor has returned, an entry point is one call of the solver followed
  by the back transformation.\<close>

lemma upper_tri_precond_lsqr_None:
  assumes "a_times_inv_r A R h = (Inr op, h1)"
  shows "upper_tri_precond_lsqr lsqr A b R tol iter_lim None h =
           py_bind (lsqr op b tol tol iter_lim None) (back_transform R) h1"
  by (simp add: upper_tri_precond_lsqr_def back_transform_def
      py_bind_run [where m = "a_times_inv_r A R" and h = h, OF assms])

lemma upper_tri_precond_lsqr_Some:
  assumes "a_times_inv_r A R h = (Inr op, h1)"
    and "cells h1 xa = cells h xa" and "ncols R = length (cells h xa)"
  shows "upper_tri_precond_lsqr lsqr A b R tol iter_lim (Some xa) h =
           py_bind (lsqr op b tol tol iter_lim (Some (next_addr h1))) (back_transform R)
             (snd (alloc (mat_vec R (cells h xa)) h1))"
proof -
  have mm: "matmul R xa h1 = (Inr (next_addr h1), snd (alloc (mat_vec R (cells h xa)) h1))"
    using matmul_run [of R h1 xa] assms(2,3) alloc_eq [of "mat_vec R (cells h xa)" h1]
    by simp
  show ?thesis
    by (simp add: upper_tri_precond_lsqr_def back_transform_def py_bind_assoc
        py_bind_run [where m = "a_times_inv_r A R" and h = h, OF assms(1)]
        py_bind_run [where m = "matmul R xa" and h = h1, OF mm])
qed

lemma upper_tri_precond_cg_None:
  assumes "lr_precond_gram A R h = (Inr op, h2)"
    and "cells h2 c = cells h c" and "solve_triangular_val R (cells h c) Trans = Inr bp"
  shows "upper_tri_precond_cg cg A c R tol iter_lim None h =
           py_bind (cg op (next_addr h2) tol tol iter_lim None) (back_transform R)
             (snd (alloc bp h2))"
proof -
  have st: "solve_triangular R c Trans False h2 = (Inr (next_addr h2), snd (alloc bp h2))"
    using solve_triangular_fresh_run [of R h2 c Trans bp] assms(2,3) by simp
  show ?thesis
    by (simp add: upper_tri_precond_cg_def back_transform_def
        py_bind_run [where m = "lr_precond_gram A R" and h = h, OF assms(1)]
        py_bind_run [where m = "solve_triangular R c Trans False" and h = h2, OF st])
qed

lemma upper_tri_precond_cg_Some:
  assumes "lr_precond_gram A R h = (Inr op, h2)"
    and "cells h2 c = cells h c" and "solve_triangular_val R (cells h c) Trans = Inr bp"
    and "xa < next_addr h2" and "cells h2 xa = cells h xa"
    and "ncols R = length (cells h xa)"
  shows "upper_tri_precond_cg cg A c R tol iter_lim (Some xa) h =
           py_bind (cg op (next_addr h2) tol tol iter_lim (Some (Suc (next_addr h2))))
             (back_transform R)
             (snd (alloc (mat_vec R (cells h xa)) (snd (alloc bp h2))))"
proof -
  let ?h3 = "snd (alloc bp h2)"
  have st: "solve_triangular R c Trans False h2 = (Inr (next_addr h2), ?h3)"
    using solve_triangular_fresh_run [of R h2 c Trans bp] assms(2,3) by simp
  have x: "cells ?h3 xa = cells h xa" using assms(4,5) by simp
  have mm: "matmul R xa ?h3 = (Inr (Suc (next_addr h2)),
                                 snd (alloc (mat_vec R (cells h xa)) ?h3))"
    using matmul_run [of R ?h3 xa] assms(6) x alloc_eq [of "mat_vec R (cells h xa)" ?h3]
    by simp
  show ?thesis
    by (simp add: upper_tri_precond_cg_def back_transform_def py_bind_assoc
        py_bind_run [where m = "lr_precond_gram A R" and h = h, OF assms(1)]
        py_bind_run [where m = "solve_triangular R c Trans False" and h = h2, OF st]
        py_bind_run [where m = "matmul R xa" and h = ?h3, OF mm])
qed

section \<open>The initial guess\<close>

text \<open>
  Claim C5. Let \<open>A\<close> have shape \<open>(n, m)\<close>, let \<open>R\<close> of shape \<open>(m, m)\<close> have no zero on its
  diagonal, and let \<open>x0\<close> be an existing array of length \<open>m\<close>. Then \<open>upper_tri_precond_lsqr\<close>
  called with \<open>x0\<close> is one call of the external solver on the operator of \<open>a_times_inv_r\<close>,
  with an initial guess \<open>y0\<close> that holds \<open>R x0\<close>, followed by the back transformation; called
  with \<open>None\<close>, it calls the solver with no initial guess. The same holds for
  \<open>upper_tri_precond_cg\<close> and the operator of \<open>lr_precond_gram\<close>, for a right-hand side \<open>c\<close> of
  length \<open>m\<close>. The operator, the heap and the initial guess do not depend on the solver.
\<close>

theorem initial_guess_passed:
  assumes "shape A = (n, m)" and "shape R = (m, m)" and "\<not> zero_on_diagonal R"
    and "xa < next_addr h" and "length (cells h xa) = m"
    and "c < next_addr h" and "length (cells h c) = m"
  shows "(\<exists>op hs y0. fst (a_times_inv_r A R h) = Inr op \<and>
            cells hs y0 = mat_vec R (cells h xa) \<and>
            (\<forall>(lsqr :: 'd solver) b tol iter_lim.
               upper_tri_precond_lsqr lsqr A b R tol iter_lim (Some xa) h =
               py_bind (lsqr op b tol tol iter_lim (Some y0)) (back_transform R) hs)) \<and>
         (\<exists>op hs. fst (a_times_inv_r A R h) = Inr op \<and>
            (\<forall>(lsqr :: 'd solver) b tol iter_lim.
               upper_tri_precond_lsqr lsqr A b R tol iter_lim None h =
               py_bind (lsqr op b tol tol iter_lim None) (back_transform R) hs)) \<and>
         (\<exists>op hs c' y0. fst (lr_precond_gram A R h) = Inr op \<and>
            cells hs y0 = mat_vec R (cells h xa) \<and>
            (\<forall>(cg :: 'd solver) tol iter_lim.
               upper_tri_precond_cg cg A c R tol iter_lim (Some xa) h =
               py_bind (cg op c' tol tol iter_lim (Some y0)) (back_transform R) hs)) \<and>
         (\<exists>op hs c'. fst (lr_precond_gram A R h) = Inr op \<and>
            (\<forall>(cg :: 'd solver) tol iter_lim.
               upper_tri_precond_cg cg A c R tol iter_lim None h =
               py_bind (cg op c' tol tol iter_lim None) (back_transform R) hs))"
proof (intro conjI)
  have ncR: "ncols R = length (cells h xa)" using assms(2,5) by (simp add: shape_def)
  let ?op = "\<lparr>op_shape = (n, m),
                 matvec = operator_matvec (n, m) (a_times_inv_r_mv A R (next_addr h)),
                 rmatvec = operator_rmatvec (n, m) (a_times_inv_r_rmv A R (next_addr h))\<rparr>"
  let ?h1 = "snd (a_times_inv_r A R h)"
  have op: "fst (a_times_inv_r A R h) = Inr ?op" by (rule a_times_inv_r_ok(1) [OF assms(1,2,3)])
  then have con: "a_times_inv_r A R h = (Inr ?op, ?h1)" by (simp add: prod_eq_iff)
  have x: "cells ?h1 xa = cells h xa" by (rule cells_a_times_inv_r [OF assms(4)])
  have y0: "cells (snd (alloc (mat_vec R (cells h xa)) ?h1)) (next_addr ?h1)
              = mat_vec R (cells h xa)" by simp
  show "\<exists>op hs y0. fst (a_times_inv_r A R h) = Inr op \<and>
            cells hs y0 = mat_vec R (cells h xa) \<and>
            (\<forall>(lsqr :: 'd solver) b tol iter_lim.
               upper_tri_precond_lsqr lsqr A b R tol iter_lim (Some xa) h =
               py_bind (lsqr op b tol tol iter_lim (Some y0)) (back_transform R) hs)"
    using op y0 upper_tri_precond_lsqr_Some [OF con x ncR] by blast
  show "\<exists>op hs. fst (a_times_inv_r A R h) = Inr op \<and>
            (\<forall>(lsqr :: 'd solver) b tol iter_lim.
               upper_tri_precond_lsqr lsqr A b R tol iter_lim None h =
               py_bind (lsqr op b tol tol iter_lim None) (back_transform R) hs)"
    using op upper_tri_precond_lsqr_None [OF con] by blast
next
  have ncR: "ncols R = length (cells h xa)" using assms(2,5) by (simp add: shape_def)
  let ?mv = "lr_precond_gram_mv A R (next_addr h) (Suc (next_addr h))"
  let ?op = "\<lparr>op_shape = (m, m), matvec = operator_matvec (m, m) ?mv,
                 rmatvec = operator_rmatvec (m, m) ?mv\<rparr>"
  let ?h2 = "snd (lr_precond_gram A R h)"
  let ?bp = "forward_subst (rowsOf (T R)) (cells h c)"
  let ?h3 = "snd (alloc ?bp ?h2)"
  have op: "fst (lr_precond_gram A R h) = Inr ?op"
    by (rule lr_precond_gram_ok(1) [OF assms(1,2,3)])
  then have con: "lr_precond_gram A R h = (Inr ?op, ?h2)" by (simp add: prod_eq_iff)
  have val: "solve_triangular_val R (cells h c) Trans = Inr ?bp"
    using solve_triangular_val_ok [OF assms(2,7,3), of Trans] by simp
  have cc: "cells ?h2 c = cells h c" by (rule cells_lr_precond_gram [OF assms(6)])
  have x: "cells ?h2 xa = cells h xa" by (rule cells_lr_precond_gram [OF assms(4)])
  have xlt: "xa < next_addr ?h2" using next_addr_lr_precond_gram [of h A R] assms(4) by simp
  have y0: "cells (snd (alloc (mat_vec R (cells h xa)) ?h3)) (Suc (next_addr ?h2))
              = mat_vec R (cells h xa)"
    using cells_alloc_new [of "mat_vec R (cells h xa)" ?h3] by simp
  show "\<exists>op hs c' y0. fst (lr_precond_gram A R h) = Inr op \<and>
            cells hs y0 = mat_vec R (cells h xa) \<and>
            (\<forall>(cg :: 'd solver) tol iter_lim.
               upper_tri_precond_cg cg A c R tol iter_lim (Some xa) h =
               py_bind (cg op c' tol tol iter_lim (Some y0)) (back_transform R) hs)"
    using op y0 upper_tri_precond_cg_Some [OF con cc val xlt x ncR] by blast
  show "\<exists>op hs c'. fst (lr_precond_gram A R h) = Inr op \<and>
            (\<forall>(cg :: 'd solver) tol iter_lim.
               upper_tri_precond_cg cg A c R tol iter_lim None h =
               py_bind (cg op c' tol tol iter_lim None) (back_transform R) hs)"
    using op upper_tri_precond_cg_None [OF con cc val] by blast
qed

theorem initial_guess_passed_witness:
  "shape ex_A = (3, 2) \<and> shape ex_R = (2, 2) \<and> \<not> zero_on_diagonal ex_R \<and>
   (0 :: nat) < next_addr ex_heap \<and> length (cells ex_heap 0) = 2 \<and>
   (\<exists>op hs y0. fst (a_times_inv_r ex_A ex_R ex_heap) = Inr op \<and>
      cells hs y0 = mat_vec ex_R (cells ex_heap 0) \<and>
      (\<forall>(lsqr :: (nat \<times> nat) solver) b tol iter_lim.
         upper_tri_precond_lsqr lsqr ex_A b ex_R tol iter_lim (Some 0) ex_heap =
         py_bind (lsqr op b tol tol iter_lim (Some y0)) (back_transform ex_R) hs)) \<and>
   (\<exists>op hs. fst (a_times_inv_r ex_A ex_R ex_heap) = Inr op \<and>
      (\<forall>(lsqr :: (nat \<times> nat) solver) b tol iter_lim.
         upper_tri_precond_lsqr lsqr ex_A b ex_R tol iter_lim None ex_heap =
         py_bind (lsqr op b tol tol iter_lim None) (back_transform ex_R) hs)) \<and>
   (\<exists>op hs c' y0. fst (lr_precond_gram ex_A ex_R ex_heap) = Inr op \<and>
      cells hs y0 = mat_vec ex_R (cells ex_heap 0) \<and>
      (\<forall>(cg :: (nat \<times> nat) solver) tol iter_lim.
         upper_tri_precond_cg cg ex_A 0 ex_R tol iter_lim (Some 0) ex_heap =
         py_bind (cg op c' tol tol iter_lim (Some y0)) (back_transform ex_R) hs)) \<and>
   (\<exists>op hs c'. fst (lr_precond_gram ex_A ex_R ex_heap) = Inr op \<and>
      (\<forall>(cg :: (nat \<times> nat) solver) tol iter_lim.
         upper_tri_precond_cg cg ex_A 0 ex_R tol iter_lim None ex_heap =
         py_bind (cg op c' tol tol iter_lim None) (back_transform ex_R) hs))"
proof -
  have 1: "shape ex_A = (3, 2)" by (simp add: ex_defs shape_defs)
  have 2: "shape ex_R = (2, 2)" by (simp add: ex_defs shape_defs)
  have 3: "\<not> zero_on_diagonal ex_R" by (simp add: ex_defs shape_defs)
  have 4: "(0 :: nat) < next_addr ex_heap" by (simp add: ex_defs)
  have 5: "length (cells ex_heap 0) = 2" by (simp add: ex_defs)
  note inst = initial_guess_passed [where ?'d = "nat \<times> nat", OF 1 2 3 4 5 4 5]
  show ?thesis
    by (intro conjI 1 2 3 4 5 inst [THEN conjunct1] inst [THEN conjunct2, THEN conjunct1]
        inst [THEN conjunct2, THEN conjunct2, THEN conjunct1]
        inst [THEN conjunct2, THEN conjunct2, THEN conjunct2])
qed

section \<open>The right-hand side of the normal equations\<close>

text \<open>
  Claim C6. Let \<open>A\<close> have shape \<open>(n, m)\<close>, let \<open>R\<close> be nonsingular upper triangular of shape
  \<open>(m, m)\<close>, and let \<open>c\<close> be an existing array of length \<open>m\<close>, the right-hand side given to
  \<open>upper_tri_precond_cg\<close>. Then the external solver is called with a right-hand side array
  that holds the one solution \<open>z\<close> of \<open>R\<^sup>T z = c\<close>: the transpose solve is applied to \<open>c\<close> as
  it is, with no multiplication by \<open>A\<^sup>T\<close>, and \<open>c\<close> itself keeps its contents. This holds
  with and without an initial guess.
\<close>

theorem cg_right_hand_side:
  assumes "shape A = (n, m)"
    and "rectangular R" and "shape R = (m, m)" and "upper_triangular R"
    and "\<not> zero_on_diagonal R" and "c < next_addr h" and "length (cells h c) = m"
    and "xa < next_addr h" and "length (cells h xa) = m"
  shows "\<exists>op hs c'. fst (lr_precond_gram A R h) = Inr op \<and>
           the_solution (T R) (cells h c) (cells hs c') \<and> cells hs c = cells h c \<and>
           (\<forall>(cg :: 'd solver) tol iter_lim.
              upper_tri_precond_cg cg A c R tol iter_lim None h =
              py_bind (cg op c' tol tol iter_lim None) (back_transform R) hs) \<and>
           (\<exists>hs' y0. cells hs' c' = cells hs c' \<and> cells hs' c = cells h c \<and>
              (\<forall>(cg :: 'd solver) tol iter_lim.
                 upper_tri_precond_cg cg A c R tol iter_lim (Some xa) h =
                 py_bind (cg op c' tol tol iter_lim (Some y0)) (back_transform R) hs'))"
proof -
  let ?mv = "lr_precond_gram_mv A R (next_addr h) (Suc (next_addr h))"
  let ?op = "\<lparr>op_shape = (m, m), matvec = operator_matvec (m, m) ?mv,
                 rmatvec = operator_rmatvec (m, m) ?mv\<rparr>"
  let ?g = "snd (lr_precond_gram A R h)"
  let ?bp = "forward_subst (rowsOf (T R)) (cells h c)"
  let ?hs = "snd (alloc ?bp ?g)"
  let ?ht = "snd (alloc (mat_vec R (cells h xa)) ?hs)"
  let ?c' = "next_addr ?g"
  have ncR: "ncols R = m" using assms(3) by (simp add: shape_def)
  have val: "solve_triangular_val R (cells h c) Trans = Inr ?bp"
    using solve_triangular_val_ok [OF assms(3,7,5), of Trans] by simp
  have sol: "the_solution (T R) (cells h c) ?bp"
    using forward_subst_solution_set [OF assms(2,3,4,5,7)] assms(3)
    by (simp add: the_solution_def shape_def)
  have op: "fst (lr_precond_gram A R h) = Inr ?op"
    by (rule lr_precond_gram_ok(1) [OF assms(1,3,5)])
  then have con: "lr_precond_gram A R h = (Inr ?op, ?g)" by (simp add: prod_eq_iff)
  have lt: "next_addr h < next_addr ?g" using next_addr_lr_precond_gram [of h A R] by simp
  have cg: "cells ?g c = cells h c" by (rule cells_lr_precond_gram [OF assms(6)])
  have xg: "cells ?g xa = cells h xa" by (rule cells_lr_precond_gram [OF assms(8)])
  have xlt: "xa < next_addr ?g" using lt assms(8) by simp
  have clt: "c < next_addr ?g" using lt assms(6) by simp
  have new: "cells ?hs ?c' = ?bp" by simp
  have old: "cells ?hs c = cells h c" using clt cg by simp
  have new': "cells ?ht ?c' = cells ?hs ?c'" by simp
  have old': "cells ?ht c = cells h c" using clt cg by simp
  have lx: "ncols R = length (cells h xa)" using ncR assms(9) by simp
  have none: "\<forall>(cg :: 'd solver) tol iter_lim.
              upper_tri_precond_cg cg A c R tol iter_lim None h =
              py_bind (cg ?op ?c' tol tol iter_lim None) (back_transform R) ?hs"
    using upper_tri_precond_cg_None [OF con cg val] by blast
  have some: "\<forall>(cg :: 'd solver) tol iter_lim.
                 upper_tri_precond_cg cg A c R tol iter_lim (Some xa) h =
                 py_bind (cg ?op ?c' tol tol iter_lim (Some (Suc ?c'))) (back_transform R) ?ht"
    using upper_tri_precond_cg_Some [OF con cg val xlt xg lx] by blast
  have "\<exists>hs' y0. cells hs' ?c' = cells ?hs ?c' \<and> cells hs' c = cells h c \<and>
              (\<forall>(cg :: 'd solver) tol iter_lim.
                 upper_tri_precond_cg cg A c R tol iter_lim (Some xa) h =
                 py_bind (cg ?op ?c' tol tol iter_lim (Some y0)) (back_transform R) hs')"
    using new' old' some by blast
  then show ?thesis using op sol new old none by metis
qed

theorem cg_right_hand_side_witness:
  "shape ex_A = (3, 2) \<and>
   rectangular ex_R \<and> shape ex_R = (2, 2) \<and> upper_triangular ex_R \<and> \<not> zero_on_diagonal ex_R \<and>
   (0 :: nat) < next_addr ex_heap \<and> length (cells ex_heap 0) = 2 \<and>
   (\<exists>op hs c'. fst (lr_precond_gram ex_A ex_R ex_heap) = Inr op \<and>
      the_solution (T ex_R) (cells ex_heap 0) (cells hs c') \<and> cells hs 0 = cells ex_heap 0 \<and>
      (\<forall>(cg :: (nat \<times> nat) solver) tol iter_lim.
         upper_tri_precond_cg cg ex_A 0 ex_R tol iter_lim None ex_heap =
         py_bind (cg op c' tol tol iter_lim None) (back_transform ex_R) hs) \<and>
      (\<exists>hs' y0. cells hs' c' = cells hs c' \<and> cells hs' 0 = cells ex_heap 0 \<and>
         (\<forall>(cg :: (nat \<times> nat) solver) tol iter_lim.
            upper_tri_precond_cg cg ex_A 0 ex_R tol iter_lim (Some 0) ex_heap =
            py_bind (cg op c' tol tol iter_lim (Some y0)) (back_transform ex_R) hs')))"
proof -
  have 0: "shape ex_A = (3, 2)" by (simp add: ex_defs shape_defs)
  have 1: "rectangular ex_R" by (simp add: ex_defs shape_defs)
  have 2: "shape ex_R = (2, 2)" by (simp add: ex_defs shape_defs)
  have 3: "upper_triangular ex_R" by (simp add: ex_defs shape_defs)
  have 4: "\<not> zero_on_diagonal ex_R" by (simp add: ex_defs shape_defs)
  have 5: "(0 :: nat) < next_addr ex_heap" by (simp add: ex_defs)
  have 6: "length (cells ex_heap 0) = 2" by (simp add: ex_defs)
  note inst = cg_right_hand_side [where ?'d = "nat \<times> nat", OF 0 1 2 3 4 5 6 5 6]
  show ?thesis by (intro conjI 0 1 2 3 4 5 6 inst)
qed

section \<open>The result of \<open>pinv_precond_lsqr\<close>\<close>

text \<open>
  Claim C7. When \<open>pinv_precond_lsqr\<close> returns normally, the external solver was called on
  the operator of shape \<open>(n, k)\<close> built from \<open>A\<close> and \<open>N\<close>, with no initial guess, and returned
  a tuple \<open>(y, d)\<close>. The value of \<open>pinv_precond_lsqr\<close> is the tuple \<open>(x, d)\<close> with the same
  other fields \<open>d\<close>, where \<open>x\<close> is a new array that holds \<open>N y\<close>. Every array that existed
  when the solver returned, its solution array among them, keeps its contents.
\<close>

theorem pinv_precond_lsqr_result:
  assumes "fst (pinv_precond_lsqr lsqr A b N tol iter_lim h) = Inr result"
  shows "\<exists>hs y hs'.
           lsqr \<lparr>op_shape = (nrows A, ncols N),
                  matvec = operator_matvec (nrows A, ncols N)
                             (pinv_precond_lsqr_mv A N (next_addr h)),
                  rmatvec = operator_rmatvec (nrows A, ncols N)
                              (pinv_precond_lsqr_rmv A N (next_addr h))\<rparr>
             b tol tol iter_lim None hs = (Inr (y, snd result), hs') \<and>
           fst result = next_addr hs' \<and>
           cells (snd (pinv_precond_lsqr lsqr A b N tol iter_lim h)) (fst result)
             = mat_vec N (cells hs' y) \<and>
           map (cells (snd (pinv_precond_lsqr lsqr A b N tol iter_lim h))) [0..<next_addr hs']
             = map (cells hs') [0..<next_addr hs']"
proof -
  let ?s = "(nrows A, ncols N)"
  let ?mv = "pinv_precond_lsqr_mv A N (next_addr h)"
  let ?rmv = "pinv_precond_lsqr_rmv A N (next_addr h)"
  let ?op = "\<lparr>op_shape = ?s, matvec = operator_matvec ?s ?mv,
               rmatvec = operator_rmatvec ?s ?rmv\<rparr>"
  let ?g = "snd (alloc (replicate (ncols A) 0) h)"
  obtain h' where run: "pinv_precond_lsqr lsqr A b N tol iter_lim h = (Inr result, h')"
    using assms by (cases "pinv_precond_lsqr lsqr A b N tol iter_lim h") simp
  have unfold: "pinv_precond_lsqr lsqr A b N tol iter_lim h =
      py_bind (LinearOperator ?s ?mv ?rmv)
        (\<lambda>A_precond. py_bind (lsqr A_precond b tol tol iter_lim None)
           (\<lambda>res. py_bind (matmul N (fst res)) (\<lambda>x. ret (x, snd res)))) ?g"
    by (simp add: pinv_precond_lsqr_def np_zeros_def
        py_bind_run [where m = "alloc (replicate (ncols A) 0)" and h = h, OF alloc_eq])
  from py_bind_Inr [OF run [unfolded unfold]] obtain op hs where
    con: "LinearOperator ?s ?mv ?rmv ?g = (Inr op, hs)"
    and rest: "py_bind (lsqr op b tol tol iter_lim None)
           (\<lambda>res. py_bind (matmul N (fst res)) (\<lambda>x. ret (x, snd res))) hs = (Inr result, h')"
    by blast
  have op: "op = ?op" by (rule LinearOperator_Inr [OF con])
  from py_bind_Inr [OF rest] obtain res hs' where
    call: "lsqr op b tol tol iter_lim None hs = (Inr res, hs')"
    and fin: "py_bind (matmul N (fst res)) (\<lambda>x. ret (x, snd res)) hs' = (Inr result, h')"
    by blast
  from py_bind_Inr [OF fin] obtain x h1 where
    mm: "matmul N (fst res) hs' = (Inr x, h1)"
    and r: "ret (x, snd res) h1 = (Inr result, h')" by blast
  from matmul_Inr [OF mm] have x: "x = next_addr hs'"
    and h1: "h1 = snd (alloc (mat_vec N (cells hs' (fst res))) hs')" by simp_all
  from r have result: "result = (x, snd res)" and h': "h' = h1" by (simp_all add: ret_def)
  have final: "snd (pinv_precond_lsqr lsqr A b N tol iter_lim h)
                 = snd (alloc (mat_vec N (cells hs' (fst res))) hs')"
    using run h' h1 by simp
  have 1: "lsqr ?op b tol tol iter_lim None hs = (Inr (fst res, snd result), hs')"
    using call result op by simp
  have 2: "fst result = next_addr hs'" using result x by simp
  have 3: "cells (snd (pinv_precond_lsqr lsqr A b N tol iter_lim h)) (fst result)
             = mat_vec N (cells hs' (fst res))"
    unfolding final 2 by (rule cells_alloc_new)
  have 4: "map (cells (snd (pinv_precond_lsqr lsqr A b N tol iter_lim h))) [0..<next_addr hs']
             = map (cells hs') [0..<next_addr hs']"
    unfolding final by (rule cells_alloc_frame)
  show ?thesis using 1 2 3 4 by blast
qed

theorem pinv_precond_lsqr_result_witness:
  "fst (pinv_precond_lsqr ex_lsqr ex_A 1 ex_R (1 / 100) 10 ex_heap) = Inr (6, (1, 1)) \<and>
   (\<exists>hs y hs'.
      ex_lsqr \<lparr>op_shape = (nrows ex_A, ncols ex_R),
                matvec = operator_matvec (nrows ex_A, ncols ex_R)
                           (pinv_precond_lsqr_mv ex_A ex_R (next_addr ex_heap)),
                rmatvec = operator_rmatvec (nrows ex_A, ncols ex_R)
                            (pinv_precond_lsqr_rmv ex_A ex_R (next_addr ex_heap))\<rparr>
        1 (1 / 100) (1 / 100) 10 None hs = (Inr (y, snd (6 :: nat, (1 :: nat, 1 :: nat))), hs') \<and>
      fst (6 :: nat, (1 :: nat, 1 :: nat)) = next_addr hs' \<and>
      cells (snd (pinv_precond_lsqr ex_lsqr ex_A 1 ex_R (1 / 100) 10 ex_heap))
        (fst (6 :: nat, (1 :: nat, 1 :: nat))) = mat_vec ex_R (cells hs' y) \<and>
      map (cells (snd (pinv_precond_lsqr ex_lsqr ex_A 1 ex_R (1 / 100) 10 ex_heap)))
        [0..<next_addr hs'] = map (cells hs') [0..<next_addr hs'])"
proof -
  have 1: "fst (pinv_precond_lsqr ex_lsqr ex_A 1 ex_R (1 / 100) 10 ex_heap) = Inr (6, (1, 1))"
    by (simp add: pinv_precond_lsqr_def ex_lsqr_def run_defs ex_defs shape_defs)
  show ?thesis using 1 pinv_precond_lsqr_result [OF 1] by blast
qed

section \<open>Exceptions of the constructors and of the entry points\<close>

lemma py_bind_fst_raise:
  assumes "fst (m h) = Inl e"
  shows "fst (py_bind m f h) = Inl e"
  using assms by (cases "m h") (simp add: py_bind_def)


lemma upper_tri_precond_lsqr_construction_error:
  assumes "fst (a_times_inv_r A R h) = Inl e"
  shows "fst (upper_tri_precond_lsqr lsqr A b R tol iter_lim x0 h) = Inl e"
  unfolding upper_tri_precond_lsqr_def using assms by (rule py_bind_fst_raise)

lemma upper_tri_precond_cg_construction_error:
  assumes "fst (lr_precond_gram A R h) = Inl e"
  shows "fst (upper_tri_precond_cg cg A b R tol iter_lim x0 h) = Inl e"
  unfolding upper_tri_precond_cg_def using assms by (rule py_bind_fst_raise)


section \<open>A singular preconditioner\<close>



section \<open>Applications leave their argument alone\<close>

lemma LinearOperator_fst_Inr:
  assumes "fst (LinearOperator s mv rmv h) = Inr op"
  shows "op = \<lparr>op_shape = s, matvec = operator_matvec s mv, rmatvec = operator_rmatvec s rmv\<rparr>"
proof -
  obtain h1 where "LinearOperator s mv rmv h = (Inr op, h1)"
    using assms by (cases "LinearOperator s mv rmv h") simp
  then show ?thesis by (rule LinearOperator_Inr)
qed

lemma application_frame:
  assumes "\<And>h1. preserves (set ws) h1 (snd (mv vec h1))"
    and "\<And>h1. preserves (set ws) h1 (snd (rmv vec h1))"
    and "op = \<lparr>op_shape = s, matvec = operator_matvec s mv, rmatvec = operator_rmatvec s rmv\<rparr>"
    and "vec < next_addr h" and "vec \<notin> set ws"
  shows "cells (snd (matvec op vec h)) vec = cells h vec \<and>
         cells (snd (rmatvec op vec h)) vec = cells h vec \<and>
         others_unchanged ws h (snd (matvec op vec h)) \<and>
         others_unchanged ws h (snd (rmatvec op vec h))"
proof -
  have m: "preserves (set ws) h (snd (matvec op vec h))"
    unfolding assms(3) using operator_matvec_preserves [of "set ws" mv vec h s, OF assms(1)]
    by simp
  have r: "preserves (set ws) h (snd (rmatvec op vec h))"
    unfolding assms(3) using operator_rmatvec_preserves [of "set ws" rmv vec h s, OF assms(2)]
    by simp
  show ?thesis
    by (intro conjI preserves_cell [OF m assms(4,5)] preserves_cell [OF r assms(4,5)]
        preserves_others [OF m] preserves_others [OF r])
qed

text \<open>
  Claim C10. Take any operator that \<open>a_times_inv_r\<close> returns, any operator that
  \<open>lr_precond_gram\<close> returns, and any operator that the constructor returns inside
  \<open>pinv_precond_lsqr\<close> (there the scratch buffer is the array that \<open>np.zeros\<close> has just
  allocated). Let \<open>vec\<close> be an existing array other than the scratch buffers of the operator,
  which no caller can reach. Then every forward and adjoint application of the operator
  leaves \<open>vec\<close> with its contents, whether the application returns or raises. More is true:
  of the arrays that exist before the application, only the scratch buffers are written.
\<close>

theorem application_keeps_argument:
  assumes "vec < next_addr h"
  shows "(fst (a_times_inv_r A R h0) = Inr op1 \<longrightarrow> vec \<noteq> next_addr h0 \<longrightarrow>
            cells (snd (matvec op1 vec h)) vec = cells h vec \<and>
            cells (snd (rmatvec op1 vec h)) vec = cells h vec \<and>
            others_unchanged [next_addr h0] h (snd (matvec op1 vec h)) \<and>
            others_unchanged [next_addr h0] h (snd (rmatvec op1 vec h))) \<and>
         (fst (lr_precond_gram A R g0) = Inr op2 \<longrightarrow>
            vec \<noteq> next_addr g0 \<longrightarrow> vec \<noteq> Suc (next_addr g0) \<longrightarrow>
            cells (snd (matvec op2 vec h)) vec = cells h vec \<and>
            cells (snd (rmatvec op2 vec h)) vec = cells h vec \<and>
            others_unchanged [next_addr g0, Suc (next_addr g0)] h (snd (matvec op2 vec h)) \<and>
            others_unchanged [next_addr g0, Suc (next_addr g0)] h (snd (rmatvec op2 vec h))) \<and>
         (fst (LinearOperator (nrows A, ncols N)
                 (pinv_precond_lsqr_mv A N (next_addr p0))
                 (pinv_precond_lsqr_rmv A N (next_addr p0))
                 (snd (np_zeros (ncols A) p0))) = Inr op3 \<longrightarrow> vec \<noteq> next_addr p0 \<longrightarrow>
            cells (snd (matvec op3 vec h)) vec = cells h vec \<and>
            cells (snd (rmatvec op3 vec h)) vec = cells h vec \<and>
            others_unchanged [next_addr p0] h (snd (matvec op3 vec h)) \<and>
            others_unchanged [next_addr p0] h (snd (rmatvec op3 vec h)))"
proof (intro conjI impI)
  assume op: "fst (a_times_inv_r A R h0) = Inr op1" and ne: "vec \<noteq> next_addr h0"
  have frame: "cells (snd (matvec op1 vec h)) vec = cells h vec \<and>
         cells (snd (rmatvec op1 vec h)) vec = cells h vec \<and>
         others_unchanged [next_addr h0] h (snd (matvec op1 vec h)) \<and>
         others_unchanged [next_addr h0] h (snd (rmatvec op1 vec h))"
    by (rule application_frame [OF _ _ a_times_inv_r_Inr [OF op] assms])
      (use ne in \<open>simp_all add: a_times_inv_r_mv_preserves a_times_inv_r_rmv_preserves\<close>)
  show "cells (snd (matvec op1 vec h)) vec = cells h vec"
    and "cells (snd (rmatvec op1 vec h)) vec = cells h vec"
    and "others_unchanged [next_addr h0] h (snd (matvec op1 vec h))"
    and "others_unchanged [next_addr h0] h (snd (rmatvec op1 vec h))"
    using frame by simp_all
next
  assume op: "fst (lr_precond_gram A R g0) = Inr op2"
    and ne: "vec \<noteq> next_addr g0" "vec \<noteq> Suc (next_addr g0)"
  have frame: "cells (snd (matvec op2 vec h)) vec = cells h vec \<and>
         cells (snd (rmatvec op2 vec h)) vec = cells h vec \<and>
         others_unchanged [next_addr g0, Suc (next_addr g0)] h (snd (matvec op2 vec h)) \<and>
         others_unchanged [next_addr g0, Suc (next_addr g0)] h (snd (rmatvec op2 vec h))"
    by (rule application_frame [OF _ _ lr_precond_gram_Inr [OF op] assms])
      (use ne in \<open>simp_all add: lr_precond_gram_mv_preserves\<close>)
  show "cells (snd (matvec op2 vec h)) vec = cells h vec"
    and "cells (snd (rmatvec op2 vec h)) vec = cells h vec"
    and "others_unchanged [next_addr g0, Suc (next_addr g0)] h (snd (matvec op2 vec h))"
    and "others_unchanged [next_addr g0, Suc (next_addr g0)] h (snd (rmatvec op2 vec h))"
    using frame by simp_all
next
  assume op: "fst (LinearOperator (nrows A, ncols N)
                 (pinv_precond_lsqr_mv A N (next_addr p0))
                 (pinv_precond_lsqr_rmv A N (next_addr p0))
                 (snd (np_zeros (ncols A) p0))) = Inr op3"
    and ne: "vec \<noteq> next_addr p0"
  have frame: "cells (snd (matvec op3 vec h)) vec = cells h vec \<and>
         cells (snd (rmatvec op3 vec h)) vec = cells h vec \<and>
         others_unchanged [next_addr p0] h (snd (matvec op3 vec h)) \<and>
         others_unchanged [next_addr p0] h (snd (rmatvec op3 vec h))"
    by (rule application_frame [OF _ _ LinearOperator_fst_Inr [OF op] assms])
      (use ne in \<open>simp_all add: pinv_precond_lsqr_mv_preserves pinv_precond_lsqr_rmv_preserves\<close>)
  show "cells (snd (matvec op3 vec h)) vec = cells h vec"
    and "cells (snd (rmatvec op3 vec h)) vec = cells h vec"
    and "others_unchanged [next_addr p0] h (snd (matvec op3 vec h))"
    and "others_unchanged [next_addr p0] h (snd (rmatvec op3 vec h))"
    using frame by simp_all
qed

theorem application_keeps_argument_witness:
  "(0 :: nat) < next_addr (heap_of [[2, 4], [1, 1, 2], [0, 0], [0, 0, 0]]) \<and>
   0 \<noteq> next_addr ex_heap \<and> 0 \<noteq> Suc (next_addr ex_heap) \<and>
   (\<exists>op. fst (a_times_inv_r ex_A ex_R ex_heap) = Inr op \<and>
      cells (snd (matvec op 0 (heap_of [[2, 4], [1, 1, 2], [0, 0], [0, 0, 0]]))) 0
        = cells (heap_of [[2, 4], [1, 1, 2], [0, 0], [0, 0, 0]]) 0 \<and>
      cells (snd (rmatvec op 0 (heap_of [[2, 4], [1, 1, 2], [0, 0], [0, 0, 0]]))) 0
        = cells (heap_of [[2, 4], [1, 1, 2], [0, 0], [0, 0, 0]]) 0 \<and>
      others_unchanged [next_addr ex_heap] (heap_of [[2, 4], [1, 1, 2], [0, 0], [0, 0, 0]])
        (snd (matvec op 0 (heap_of [[2, 4], [1, 1, 2], [0, 0], [0, 0, 0]]))) \<and>
      others_unchanged [next_addr ex_heap] (heap_of [[2, 4], [1, 1, 2], [0, 0], [0, 0, 0]])
        (snd (rmatvec op 0 (heap_of [[2, 4], [1, 1, 2], [0, 0], [0, 0, 0]])))) \<and>
   (\<exists>op. fst (lr_precond_gram ex_A ex_R ex_heap) = Inr op \<and>
      cells (snd (matvec op 0 (heap_of [[2, 4], [1, 1, 2], [0, 0], [0, 0, 0]]))) 0
        = cells (heap_of [[2, 4], [1, 1, 2], [0, 0], [0, 0, 0]]) 0 \<and>
      cells (snd (rmatvec op 0 (heap_of [[2, 4], [1, 1, 2], [0, 0], [0, 0, 0]]))) 0
        = cells (heap_of [[2, 4], [1, 1, 2], [0, 0], [0, 0, 0]]) 0 \<and>
      others_unchanged [next_addr ex_heap, Suc (next_addr ex_heap)] (heap_of [[2, 4], [1, 1, 2], [0, 0], [0, 0, 0]])
        (snd (matvec op 0 (heap_of [[2, 4], [1, 1, 2], [0, 0], [0, 0, 0]]))) \<and>
      others_unchanged [next_addr ex_heap, Suc (next_addr ex_heap)] (heap_of [[2, 4], [1, 1, 2], [0, 0], [0, 0, 0]])
        (snd (rmatvec op 0 (heap_of [[2, 4], [1, 1, 2], [0, 0], [0, 0, 0]])))) \<and>
   (\<exists>op. fst (LinearOperator (nrows ex_A, ncols ex_R)
                 (pinv_precond_lsqr_mv ex_A ex_R (next_addr ex_heap))
                 (pinv_precond_lsqr_rmv ex_A ex_R (next_addr ex_heap))
                 (snd (np_zeros (ncols ex_A) ex_heap))) = Inr op \<and>
      cells (snd (matvec op 0 (heap_of [[2, 4], [1, 1, 2], [0, 0], [0, 0, 0]]))) 0
        = cells (heap_of [[2, 4], [1, 1, 2], [0, 0], [0, 0, 0]]) 0 \<and>
      cells (snd (rmatvec op 0 (heap_of [[2, 4], [1, 1, 2], [0, 0], [0, 0, 0]]))) 0
        = cells (heap_of [[2, 4], [1, 1, 2], [0, 0], [0, 0, 0]]) 0 \<and>
      others_unchanged [next_addr ex_heap] (heap_of [[2, 4], [1, 1, 2], [0, 0], [0, 0, 0]])
        (snd (matvec op 0 (heap_of [[2, 4], [1, 1, 2], [0, 0], [0, 0, 0]]))) \<and>
      others_unchanged [next_addr ex_heap] (heap_of [[2, 4], [1, 1, 2], [0, 0], [0, 0, 0]])
        (snd (rmatvec op 0 (heap_of [[2, 4], [1, 1, 2], [0, 0], [0, 0, 0]]))))"
proof -
  let ?H = "heap_of [[2, 4], [1, 1, 2], [0, 0], [0, 0, 0]]"
  let ?op1 = "\<lparr>op_shape = (3, 2),
                matvec = operator_matvec (3, 2) (a_times_inv_r_mv ex_A ex_R (next_addr ex_heap)),
                rmatvec = operator_rmatvec (3, 2)
                            (a_times_inv_r_rmv ex_A ex_R (next_addr ex_heap))\<rparr>"
  let ?mv = "lr_precond_gram_mv ex_A ex_R (next_addr ex_heap) (Suc (next_addr ex_heap))"
  let ?op2 = "\<lparr>op_shape = (2, 2), matvec = operator_matvec (2, 2) ?mv,
                rmatvec = operator_rmatvec (2, 2) ?mv\<rparr>"
  let ?op3 = "\<lparr>op_shape = (nrows ex_A, ncols ex_R),
                matvec = operator_matvec (nrows ex_A, ncols ex_R)
                           (pinv_precond_lsqr_mv ex_A ex_R (next_addr ex_heap)),
                rmatvec = operator_rmatvec (nrows ex_A, ncols ex_R)
                            (pinv_precond_lsqr_rmv ex_A ex_R (next_addr ex_heap))\<rparr>"
  have 1: "(0 :: nat) < next_addr ?H" by (simp add: heap_of_def)
  have 2: "0 \<noteq> next_addr ex_heap" by (simp add: ex_defs)
  have 3: "0 \<noteq> Suc (next_addr ex_heap)" by simp
  have sA: "shape ex_A = (3, 2)" and sR: "shape ex_R = (2, 2)"
    and nz: "\<not> zero_on_diagonal ex_R"
    by (simp_all add: ex_defs shape_defs)
  have 4: "fst (a_times_inv_r ex_A ex_R ex_heap) = Inr ?op1"
    by (rule a_times_inv_r_ok(1) [OF sA sR nz])
  have 5: "fst (lr_precond_gram ex_A ex_R ex_heap) = Inr ?op2"
    by (rule lr_precond_gram_ok(1) [OF sA sR nz])
  have 6: "fst (LinearOperator (nrows ex_A, ncols ex_R)
                 (pinv_precond_lsqr_mv ex_A ex_R (next_addr ex_heap))
                 (pinv_precond_lsqr_rmv ex_A ex_R (next_addr ex_heap))
                 (snd (np_zeros (ncols ex_A) ex_heap))) = Inr ?op3"
    by (simp add: run_defs ex_defs shape_defs)
  note inst = application_keeps_argument [OF 1, where ?A = ex_A and ?R = ex_R and ?N = ex_R
      and ?h0.0 = ex_heap and ?g0.0 = ex_heap and ?p0.0 = ex_heap
      and ?op1.0 = ?op1 and ?op2.0 = ?op2 and ?op3.0 = ?op3]
  note a = inst [THEN conjunct1, THEN mp, THEN mp, OF 4 2]
  note b = inst [THEN conjunct2, THEN conjunct1, THEN mp, THEN mp, THEN mp, OF 5 2 3]
  note c = inst [THEN conjunct2, THEN conjunct2, THEN mp, THEN mp, OF 6 2]
  have first: "\<exists>op. fst (a_times_inv_r ex_A ex_R ex_heap) = Inr op \<and>
      cells (snd (matvec op 0 (heap_of [[2, 4], [1, 1, 2], [0, 0], [0, 0, 0]]))) 0
        = cells (heap_of [[2, 4], [1, 1, 2], [0, 0], [0, 0, 0]]) 0 \<and>
      cells (snd (rmatvec op 0 (heap_of [[2, 4], [1, 1, 2], [0, 0], [0, 0, 0]]))) 0
        = cells (heap_of [[2, 4], [1, 1, 2], [0, 0], [0, 0, 0]]) 0 \<and>
      others_unchanged [next_addr ex_heap] (heap_of [[2, 4], [1, 1, 2], [0, 0], [0, 0, 0]])
        (snd (matvec op 0 (heap_of [[2, 4], [1, 1, 2], [0, 0], [0, 0, 0]]))) \<and>
      others_unchanged [next_addr ex_heap] (heap_of [[2, 4], [1, 1, 2], [0, 0], [0, 0, 0]])
        (snd (rmatvec op 0 (heap_of [[2, 4], [1, 1, 2], [0, 0], [0, 0, 0]])))"
    using 4 a by (intro exI [of _ ?op1] conjI) simp_all
  have second: "\<exists>op. fst (lr_precond_gram ex_A ex_R ex_heap) = Inr op \<and>
      cells (snd (matvec op 0 (heap_of [[2, 4], [1, 1, 2], [0, 0], [0, 0, 0]]))) 0
        = cells (heap_of [[2, 4], [1, 1, 2], [0, 0], [0, 0, 0]]) 0 \<and>
      cells (snd (rmatvec op 0 (heap_of [[2, 4], [1, 1, 2], [0, 0], [0, 0, 0]]))) 0
        = cells (heap_of [[2, 4], [1, 1, 2], [0, 0], [0, 0, 0]]) 0 \<and>
      others_unchanged [next_addr ex_heap, Suc (next_addr ex_heap)] (heap_of [[2, 4], [1, 1, 2], [0, 0], [0, 0, 0]])
        (snd (matvec op 0 (heap_of [[2, 4], [1, 1, 2], [0, 0], [0, 0, 0]]))) \<and>
      others_unchanged [next_addr ex_heap, Suc (next_addr ex_heap)] (heap_of [[2, 4], [1, 1, 2], [0, 0], [0, 0, 0]])
        (snd (rmatvec op 0 (heap_of [[2, 4], [1, 1, 2], [0, 0], [0, 0, 0]])))"
    using 5 b by (intro exI [of _ ?op2] conjI) simp_all
  have third: "\<exists>op. fst (LinearOperator (nrows ex_A, ncols ex_R)
                 (pinv_precond_lsqr_mv ex_A ex_R (next_addr ex_heap))
                 (pinv_precond_lsqr_rmv ex_A ex_R (next_addr ex_heap))
                 (snd (np_zeros (ncols ex_A) ex_heap))) = Inr op \<and>
      cells (snd (matvec op 0 (heap_of [[2, 4], [1, 1, 2], [0, 0], [0, 0, 0]]))) 0
        = cells (heap_of [[2, 4], [1, 1, 2], [0, 0], [0, 0, 0]]) 0 \<and>
      cells (snd (rmatvec op 0 (heap_of [[2, 4], [1, 1, 2], [0, 0], [0, 0, 0]]))) 0
        = cells (heap_of [[2, 4], [1, 1, 2], [0, 0], [0, 0, 0]]) 0 \<and>
      others_unchanged [next_addr ex_heap] (heap_of [[2, 4], [1, 1, 2], [0, 0], [0, 0, 0]])
        (snd (matvec op 0 (heap_of [[2, 4], [1, 1, 2], [0, 0], [0, 0, 0]]))) \<and>
      others_unchanged [next_addr ex_heap] (heap_of [[2, 4], [1, 1, 2], [0, 0], [0, 0, 0]])
        (snd (rmatvec op 0 (heap_of [[2, 4], [1, 1, 2], [0, 0], [0, 0, 0]])))"
    using 6 c by (intro exI [of _ ?op3] conjI) simp_all
  show ?thesis by (intro conjI 1 2 3 first second third)
qed

section \<open>Exceptions for shapes that do not fit\<close>

lemma pinv_precond_lsqr_unfold:
  "pinv_precond_lsqr lsqr A b N tol iter_lim h =
     py_bind (LinearOperator (nrows A, ncols N)
                (pinv_precond_lsqr_mv A N (next_addr h)) (pinv_precond_lsqr_rmv A N (next_addr h)))
       (\<lambda>A_precond.
          py_bind (lsqr A_precond b tol tol iter_lim None) (\<lambda>result.
          py_bind (matmul N (fst result)) (\<lambda>x. ret (x, snd result))))
       (snd (np_zeros (ncols A) h))"
  by (simp add: pinv_precond_lsqr_def np_zeros_def
      py_bind_run [where m = "alloc (replicate (ncols A) 0)" and h = h, OF alloc_eq])

lemma pinv_precond_lsqr_shape_error:
  assumes "nrows N \<noteq> ncols A"
  shows "fst (pinv_precond_lsqr lsqr A b N tol iter_lim h) = Inl ValueError"
proof -
  let ?h1 = "snd (np_zeros (ncols A) h)"
  let ?h2 = "snd (alloc (replicate (snd (nrows A, ncols N)) 0) ?h1)"
  have lw: "length (cells ?h2 (next_addr h)) = ncols A" by (simp add: alloc_def np_zeros_def)
  have "fst (pinv_precond_lsqr_mv A N (next_addr h) (next_addr ?h1) ?h2) = Inl ValueError"
    by (rule pinv_precond_lsqr_mv_shape [OF assms lw])
  then have "fst (LinearOperator (nrows A, ncols N) (pinv_precond_lsqr_mv A N (next_addr h))
                    (pinv_precond_lsqr_rmv A N (next_addr h)) ?h1) = Inl ValueError"
    by (rule LinearOperator_raise [where mv = "pinv_precond_lsqr_mv A N (next_addr h)"
          and h = ?h1])
  then show ?thesis unfolding pinv_precond_lsqr_unfold by (rule py_bind_fst_raise)
qed

lemma pinv_operator_ok:
  assumes "nrows N = ncols A"
  shows "fst (LinearOperator (nrows A, ncols N) (pinv_precond_lsqr_mv A N (next_addr h))
                (pinv_precond_lsqr_rmv A N (next_addr h)) (snd (np_zeros (ncols A) h))) =
           Inr \<lparr>op_shape = (nrows A, ncols N),
                 matvec = operator_matvec (nrows A, ncols N)
                            (pinv_precond_lsqr_mv A N (next_addr h)),
                 rmatvec = operator_rmatvec (nrows A, ncols N)
                             (pinv_precond_lsqr_rmv A N (next_addr h))\<rparr>"
proof -
  let ?w = "next_addr h"
  let ?h1 = "snd (np_zeros (ncols A) h)"
  let ?h2 = "snd (alloc (replicate (snd (nrows A, ncols N)) 0) ?h1)"
  let ?p = "mat_vec N (cells ?h2 (next_addr ?h1))"
  let ?h3 = "store ?w ?p ?h2"
  let ?h4 = "snd (alloc (mat_vec A ?p) ?h3)"
  have lw: "length (cells ?h2 ?w) = ncols A" by (simp add: alloc_def np_zeros_def)
  have lz: "length (cells ?h2 (next_addr ?h1)) = ncols N" by (simp add: alloc_def)
  have d: "np_dot_out N (next_addr ?h1) ?w ?h2 = (Inr ?w, ?h3)"
    using lw lz assms by (simp add: np_dot_out_def)
  have lp: "ncols A = length (cells ?h3 ?w)" using assms by simp
  have mm: "matmul A ?w ?h3 = (Inr (next_addr ?h3), ?h4)"
    using matmul_run [OF lp] alloc_eq [of "mat_vec A ?p" ?h3] by simp
  have "pinv_precond_lsqr_mv A N ?w (next_addr ?h1) ?h2 = matmul A ?w ?h3"
    unfolding pinv_precond_lsqr_mv_def
    by (rule py_bind_run [where m = "np_dot_out N (next_addr ?h1) ?w" and h = ?h2, OF d])
  then have run: "pinv_precond_lsqr_mv A N ?w (next_addr ?h1) ?h2 = (Inr (next_addr ?h3), ?h4)"
    using mm by simp
  have lr: "length (cells ?h4 (next_addr ?h3)) = fst (nrows A, ncols N)"
    by (simp add: alloc_def)
  show ?thesis
    using LinearOperator_run [where mv = "pinv_precond_lsqr_mv A N ?w" and h = ?h1
        and s = "(nrows A, ncols N)", OF run lr]
    by simp
qed

lemma solve_triangular_nonsingular_result:
  assumes "\<not> zero_on_diagonal R" and "solve_triangular R a tr False h = (r, h3)"
  shows "(r = Inl ValueError \<and> h3 = h) \<or> (\<exists>x. r = Inr (next_addr h) \<and> h3 = snd (alloc x h))"
  using assms
  by (auto simp: solve_triangular_def solve_triangular_val_def alloc_def
      split: sum.splits if_splits)

lemma upper_tri_precond_lsqr_x0_shape:
  assumes "shape A = (n, m)" and "shape R = (m, m)" and "\<not> zero_on_diagonal R"
    and "xa < next_addr h" and "length (cells h xa) \<noteq> m"
  shows "fst (upper_tri_precond_lsqr lsqr A b R tol iter_lim (Some xa) h) = Inl ValueError"
proof -
  let ?h1 = "snd (a_times_inv_r A R h)"
  obtain op where op: "fst (a_times_inv_r A R h) = Inr op"
    using a_times_inv_r_ok(1) [OF assms(1,2,3)] by blast
  then have con: "a_times_inv_r A R h = (Inr op, ?h1)" by (simp add: prod_eq_iff)
  let ?call = "py_bind (matmul R xa) (\<lambda>y0. lsqr op b tol tol iter_lim (Some y0))"
  have "cells ?h1 xa = cells h xa" by (rule cells_a_times_inv_r [OF assms(4)])
  then have "length (cells ?h1 xa) \<noteq> ncols R" using assms(2,5) by (simp add: shape_def)
  from matmul_shape [OF this] have mm: "matmul R xa ?h1 = (Inl ValueError, ?h1)" .
  have call: "?call ?h1 = (Inl ValueError, ?h1)"
    by (rule py_bind_raise [where m = "matmul R xa" and h = ?h1, OF mm])
  have "upper_tri_precond_lsqr lsqr A b R tol iter_lim (Some xa) h
          = py_bind ?call (back_transform R) ?h1"
    by (simp add: upper_tri_precond_lsqr_def back_transform_def
        py_bind_run [where m = "a_times_inv_r A R" and h = h, OF con])
  also have "\<dots> = (Inl ValueError, ?h1)"
    by (rule py_bind_raise [where m = ?call and h = ?h1, OF call])
  finally show ?thesis by simp
qed

lemma upper_tri_precond_cg_b_shape:
  assumes "shape A = (n, m)" and "shape R = (m, m)" and "\<not> zero_on_diagonal R"
    and "c < next_addr h" and "length (cells h c) \<noteq> m"
  shows "fst (upper_tri_precond_cg cg A c R tol iter_lim x0 h) = Inl ValueError"
proof -
  let ?h2 = "snd (lr_precond_gram A R h)"
  obtain op where op: "fst (lr_precond_gram A R h) = Inr op"
    using lr_precond_gram_ok(1) [OF assms(1,2,3)] by blast
  then have con: "lr_precond_gram A R h = (Inr op, ?h2)" by (simp add: prod_eq_iff)
  have "cells ?h2 c = cells h c" by (rule cells_lr_precond_gram [OF assms(4)])
  then have "shape R \<noteq> (length (cells ?h2 c), length (cells ?h2 c))"
    using assms(2,5) by simp
  from solve_triangular_shape [OF this]
  have st: "solve_triangular R c Trans False ?h2 = (Inl ValueError, ?h2)" .
  show ?thesis
    by (simp add: upper_tri_precond_cg_def
        py_bind_run [where m = "lr_precond_gram A R" and h = h, OF con]
        py_bind_raise [where m = "solve_triangular R c Trans False" and h = ?h2, OF st])
qed

lemma upper_tri_precond_cg_x0_shape:
  assumes "shape A = (n, m)" and "shape R = (m, m)" and "\<not> zero_on_diagonal R"
    and "xa < next_addr h" and "length (cells h xa) \<noteq> m"
  shows "fst (upper_tri_precond_cg cg A c R tol iter_lim (Some xa) h) = Inl ValueError"
proof -
  let ?h2 = "snd (lr_precond_gram A R h)"
  obtain op where op: "fst (lr_precond_gram A R h) = Inr op"
    using lr_precond_gram_ok(1) [OF assms(1,2,3)] by blast
  then have con: "lr_precond_gram A R h = (Inr op, ?h2)" by (simp add: prod_eq_iff)
  let ?rest = "\<lambda>b_precond.
     py_bind (py_bind (matmul R xa) (\<lambda>y0. cg op b_precond tol tol iter_lim (Some y0)))
       (back_transform R)"
  have eq: "upper_tri_precond_cg cg A c R tol iter_lim (Some xa) h
              = py_bind (solve_triangular R c Trans False) ?rest ?h2"
    by (simp add: upper_tri_precond_cg_def back_transform_def
        py_bind_run [where m = "lr_precond_gram A R" and h = h, OF con])
  have x2: "cells ?h2 xa = cells h xa" by (rule cells_lr_precond_gram [OF assms(4)])
  have lt: "xa < next_addr ?h2" using next_addr_lr_precond_gram [of h A R] assms(4) by simp
  obtain r h3 where st: "solve_triangular R c Trans False ?h2 = (r, h3)"
    by (cases "solve_triangular R c Trans False ?h2") simp
  from solve_triangular_nonsingular_result [OF assms(3) st] show ?thesis
  proof
    assume "r = Inl ValueError \<and> h3 = ?h2"
    then show ?thesis unfolding eq using st by (simp add: py_bind_def)
  next
    assume "\<exists>x. r = Inr (next_addr ?h2) \<and> h3 = snd (alloc x ?h2)"
    then obtain x where r: "r = Inr (next_addr ?h2)" and h3: "h3 = snd (alloc x ?h2)"
      by blast
    have "cells h3 xa = cells h xa" unfolding h3 using lt x2 by simp
    then have "length (cells h3 xa) \<noteq> ncols R" using assms(2,5) by (simp add: shape_def)
    from matmul_shape [OF this] have mm: "matmul R xa h3 = (Inl ValueError, h3)" .
    let ?call = "py_bind (matmul R xa)
                   (\<lambda>y0. cg op (next_addr ?h2) tol tol iter_lim (Some y0))"
    have call: "?call h3 = (Inl ValueError, h3)"
      by (rule py_bind_raise [where m = "matmul R xa" and h = h3, OF mm])
    have "?rest (next_addr ?h2) h3 = (Inl ValueError, h3)"
      by (rule py_bind_raise [where m = ?call and h = h3, OF call])
    then show ?thesis
      unfolding eq using py_bind_run [where m = "solve_triangular R c Trans False" and h = ?h2,
          OF st [unfolded r], of ?rest]
      by simp
  qed
qed

section \<open>Dimensions that do not fit\<close>

text \<open>
  Claim C9 says that inconsistent dimensions always raise an error, no later than the
  construction of the operator or the call of the entry point. Not so for the right-hand
  side of the two LSQR entry points: the module never looks at the length of \<open>b\<close>, it hands
  \<open>b\<close> to the solver. Take \<open>A\<close> of shape \<open>(3, 2)\<close>, a nonsingular \<open>R\<close> of shape \<open>(2, 2)\<close> and
  a right-hand side of five zeros instead of three. SciPy's \<open>lsqr\<close> returns at once for a
  right-hand side of norm zero, so \<open>upper_tri_precond_lsqr\<close> returns normally, with the
  solution \<open>(0, 0)\<close>, and so does \<open>pinv_precond_lsqr\<close> with \<open>N = R\<close>. No exception is raised.
\<close>

theorem wrong_length_rhs_returns:
  "shape ex_A = (3, 2) \<and> shape ex_R = (2, 2) \<and>
   length (cells (heap_of [[0, 0, 0, 0, 0]]) 0) = 5 \<and>
   fst (upper_tri_precond_lsqr (lsqr_zero_rhs (0, 0) ex_lsqr) ex_A 0 ex_R (1 / 100) 10 None
             (heap_of [[0, 0, 0, 0, 0]])) = Inr (4, (0, 0)) \<and>
   cells (snd (upper_tri_precond_lsqr (lsqr_zero_rhs (0, 0) ex_lsqr) ex_A 0 ex_R (1 / 100) 10 None
             (heap_of [[0, 0, 0, 0, 0]]))) 4 = [0, 0] \<and>
   fst (pinv_precond_lsqr (lsqr_zero_rhs (0, 0) ex_lsqr) ex_A 0 ex_R (1 / 100) 10
             (heap_of [[0, 0, 0, 0, 0]])) = Inr (5, (0, 0)) \<and>
   cells (snd (pinv_precond_lsqr (lsqr_zero_rhs (0, 0) ex_lsqr) ex_A 0 ex_R (1 / 100) 10
             (heap_of [[0, 0, 0, 0, 0]]))) 5 = [0, 0]"
  by (simp add: upper_tri_precond_lsqr_def pinv_precond_lsqr_def lsqr_zero_rhs_def
      run_defs ex_defs shape_defs back_subst.simps)

text \<open>
  Claim C9 as amended. Let \<open>A\<close> have shape \<open>(n, m)\<close>. The module checks no dimension itself;
  the errors come from the calls into NumPy and SciPy, as \<open>ValueError\<close>.

  \<^item> A preconditioner \<open>R1\<close> that is not of shape \<open>(m, m)\<close> makes \<open>a_times_inv_r\<close> and
    \<open>lr_precond_gram\<close> raise when the operator is constructed (the constructor applies the
    operator once), and with them \<open>upper_tri_precond_lsqr\<close> and \<open>upper_tri_precond_cg\<close>; a
    matrix \<open>N1\<close> that does not have \<open>m\<close> rows makes \<open>pinv_precond_lsqr\<close> raise in the same
    way.
  \<^item> For a nonsingular \<open>R\<close> of shape \<open>(m, m)\<close>, an initial guess whose length is not \<open>m\<close> makes
    \<open>upper_tri_precond_lsqr\<close> and \<open>upper_tri_precond_cg\<close> raise, and a right-hand side whose
    length is not \<open>m\<close> makes \<open>upper_tri_precond_cg\<close> raise.
  \<^item> All of this holds whatever the solver is: the exception comes before the solver is
    called.
  \<^item> The right-hand side of \<open>upper_tri_precond_lsqr\<close> and of \<open>pinv_precond_lsqr\<close> is not
    checked: these calls are the call of the solver on the operator and on \<open>b\<close> as it was given,
    followed by the back transformation. What the operator contributes is that its adjoint
    application to an array whose length is not \<open>n\<close> raises and writes nothing; whether an
    error is raised at all for such a \<open>b\<close> is up to the solver.
\<close>

theorem shape_mismatch_surfaces:
  assumes "shape A = (n, m)"
    and "shape R1 \<noteq> (m, m)"
    and "nrows N1 \<noteq> m"
    and "shape R = (m, m)" and "\<not> zero_on_diagonal R"
    and "nrows N = m"
    and "xa < next_addr h" and "length (cells h xa) \<noteq> m"
    and "c < next_addr h" and "length (cells h c) \<noteq> m"
    and "length (cells h' d) \<noteq> n"
  shows "fst (a_times_inv_r A R1 h) = Inl ValueError \<and>
         fst (lr_precond_gram A R1 h) = Inl ValueError \<and>
         (\<forall>(solver :: 'd solver) b tol iter_lim x0.
            fst (upper_tri_precond_lsqr solver A b R1 tol iter_lim x0 h) = Inl ValueError \<and>
            fst (upper_tri_precond_cg solver A b R1 tol iter_lim x0 h) = Inl ValueError \<and>
            fst (pinv_precond_lsqr solver A b N1 tol iter_lim h) = Inl ValueError \<and>
            fst (upper_tri_precond_lsqr solver A b R tol iter_lim (Some xa) h)
              = Inl ValueError \<and>
            fst (upper_tri_precond_cg solver A b R tol iter_lim (Some xa) h)
              = Inl ValueError \<and>
            fst (upper_tri_precond_cg solver A c R tol iter_lim x0 h) = Inl ValueError) \<and>
         (\<exists>op hs. fst (a_times_inv_r A R h) = Inr op \<and>
            (\<forall>(lsqr :: 'd solver) b tol iter_lim.
               upper_tri_precond_lsqr lsqr A b R tol iter_lim None h =
               py_bind (lsqr op b tol tol iter_lim None) (back_transform R) hs) \<and>
            rmatvec op d h' = (Inl ValueError, h')) \<and>
         (\<exists>op hs.
            (\<forall>(lsqr :: 'd solver) b tol iter_lim.
               pinv_precond_lsqr lsqr A b N tol iter_lim h =
               py_bind (lsqr op b tol tol iter_lim None)
                 (\<lambda>result. py_bind (matmul N (fst result)) (\<lambda>x. ret (x, snd result))) hs) \<and>
            rmatvec op d h' = (Inl ValueError, h'))"
proof -
  have nA: "nrows A = n" and mA: "ncols A = m" using assms(1) by (simp_all add: shape_def)
  have bad: "shape R1 \<noteq> (ncols A, ncols A)" using assms(2) mA by simp
  have badN: "nrows N1 \<noteq> ncols A" using assms(3) mA by simp
  have okN: "nrows N = ncols A" using assms(6) mA by simp
  have c1: "fst (a_times_inv_r A R1 h) = Inl ValueError"
    by (rule a_times_inv_r_shape_error [OF bad])
  have c2: "fst (lr_precond_gram A R1 h) = Inl ValueError"
    by (rule lr_precond_gram_shape_error [OF bad])
  have c3: "\<forall>(solver :: 'd solver) b tol iter_lim x0.
      fst (upper_tri_precond_lsqr solver A b R1 tol iter_lim x0 h) = Inl ValueError \<and>
      fst (upper_tri_precond_cg solver A b R1 tol iter_lim x0 h) = Inl ValueError \<and>
      fst (pinv_precond_lsqr solver A b N1 tol iter_lim h) = Inl ValueError \<and>
      fst (upper_tri_precond_lsqr solver A b R tol iter_lim (Some xa) h)
        = Inl ValueError \<and>
      fst (upper_tri_precond_cg solver A b R tol iter_lim (Some xa) h)
        = Inl ValueError \<and>
      fst (upper_tri_precond_cg solver A c R tol iter_lim x0 h) = Inl ValueError"
    by (intro allI conjI
        upper_tri_precond_lsqr_construction_error [OF c1]
        upper_tri_precond_cg_construction_error [OF c2]
        pinv_precond_lsqr_shape_error [OF badN]
        upper_tri_precond_lsqr_x0_shape [OF assms(1,4,5,7,8)]
        upper_tri_precond_cg_x0_shape [OF assms(1,4,5,7,8)]
        upper_tri_precond_cg_b_shape [OF assms(1,4,5,9,10)])
  let ?op = "\<lparr>op_shape = (n, m),
               matvec = operator_matvec (n, m) (a_times_inv_r_mv A R (next_addr h)),
               rmatvec = operator_rmatvec (n, m) (a_times_inv_r_rmv A R (next_addr h))\<rparr>"
  let ?h1 = "snd (a_times_inv_r A R h)"
  have op: "fst (a_times_inv_r A R h) = Inr ?op"
    by (rule a_times_inv_r_ok(1) [OF assms(1,4,5)])
  then have con: "a_times_inv_r A R h = (Inr ?op, ?h1)" by (simp add: prod_eq_iff)
  have pass: "\<forall>(lsqr :: 'd solver) b tol iter_lim.
         upper_tri_precond_lsqr lsqr A b R tol iter_lim None h =
         py_bind (lsqr ?op b tol tol iter_lim None) (back_transform R) ?h1"
    by (intro allI upper_tri_precond_lsqr_None [OF con])
  have rej: "rmatvec ?op d h' = (Inl ValueError, h')"
    using operator_rmatvec_length [of h' d "(n, m)"] assms(11) by simp
  have c4: "\<exists>op hs. fst (a_times_inv_r A R h) = Inr op \<and>
      (\<forall>(lsqr :: 'd solver) b tol iter_lim.
         upper_tri_precond_lsqr lsqr A b R tol iter_lim None h =
         py_bind (lsqr op b tol tol iter_lim None) (back_transform R) hs) \<and>
      rmatvec op d h' = (Inl ValueError, h')"
    using op pass rej by blast
  let ?p = "\<lparr>op_shape = (nrows A, ncols N),
              matvec = operator_matvec (nrows A, ncols N)
                         (pinv_precond_lsqr_mv A N (next_addr h)),
              rmatvec = operator_rmatvec (nrows A, ncols N)
                          (pinv_precond_lsqr_rmv A N (next_addr h))\<rparr>"
  let ?lo = "LinearOperator (nrows A, ncols N) (pinv_precond_lsqr_mv A N (next_addr h))
               (pinv_precond_lsqr_rmv A N (next_addr h))"
  let ?g = "snd (np_zeros (ncols A) h)"
  have "fst (?lo ?g) = Inr ?p" by (rule pinv_operator_ok [OF okN])
  then have conp: "?lo ?g = (Inr ?p, snd (?lo ?g))" by (simp add: prod_eq_iff)
  have passp: "\<forall>(lsqr :: 'd solver) b tol iter_lim.
         pinv_precond_lsqr lsqr A b N tol iter_lim h =
         py_bind (lsqr ?p b tol tol iter_lim None)
           (\<lambda>result. py_bind (matmul N (fst result)) (\<lambda>x. ret (x, snd result)))
           (snd (?lo ?g))"
    unfolding pinv_precond_lsqr_unfold
    by (intro allI py_bind_run [where m = ?lo and h = ?g, OF conp])
  have rejp: "rmatvec ?p d h' = (Inl ValueError, h')"
    using operator_rmatvec_length [of h' d "(nrows A, ncols N)"] assms(11) nA by simp
  have c5: "\<exists>op hs.
      (\<forall>(lsqr :: 'd solver) b tol iter_lim.
         pinv_precond_lsqr lsqr A b N tol iter_lim h =
         py_bind (lsqr op b tol tol iter_lim None)
           (\<lambda>result. py_bind (matmul N (fst result)) (\<lambda>x. ret (x, snd result))) hs) \<and>
      rmatvec op d h' = (Inl ValueError, h')"
    using passp rejp by blast
  show ?thesis by (intro conjI c1 c2 c3 c4 c5)
qed

theorem shape_mismatch_surfaces_witness:
  "shape ex_A = (3, 2) \<and> shape ex_R_small \<noteq> (2, 2) \<and> nrows ex_R_small \<noteq> 2 \<and>
   shape ex_R = (2, 2) \<and> \<not> zero_on_diagonal ex_R \<and> nrows ex_R = 2 \<and>
   (1 :: nat) < next_addr ex_heap \<and> length (cells ex_heap 1) \<noteq> 2 \<and>
   length (cells ex_heap 0) \<noteq> 3 \<and>
   fst (a_times_inv_r ex_A ex_R_small ex_heap) = Inl ValueError \<and>
   fst (lr_precond_gram ex_A ex_R_small ex_heap) = Inl ValueError \<and>
   (\<forall>(solver :: (nat \<times> nat) solver) b tol iter_lim x0.
      fst (upper_tri_precond_lsqr solver ex_A b ex_R_small tol iter_lim x0 ex_heap) = Inl ValueError \<and>
      fst (upper_tri_precond_cg solver ex_A b ex_R_small tol iter_lim x0 ex_heap) = Inl ValueError \<and>
      fst (pinv_precond_lsqr solver ex_A b ex_R_small tol iter_lim ex_heap) = Inl ValueError \<and>
      fst (upper_tri_precond_lsqr solver ex_A b ex_R tol iter_lim (Some 1) ex_heap)
        = Inl ValueError \<and>
      fst (upper_tri_precond_cg solver ex_A b ex_R tol iter_lim (Some 1) ex_heap)
        = Inl ValueError \<and>
      fst (upper_tri_precond_cg solver ex_A 1 ex_R tol iter_lim x0 ex_heap) = Inl ValueError) \<and>
   (\<exists>op hs. fst (a_times_inv_r ex_A ex_R ex_heap) = Inr op \<and>
      (\<forall>(lsqr :: (nat \<times> nat) solver) b tol iter_lim.
         upper_tri_precond_lsqr lsqr ex_A b ex_R tol iter_lim None ex_heap =
         py_bind (lsqr op b tol tol iter_lim None) (back_transform ex_R) hs) \<and>
      rmatvec op 0 ex_heap = (Inl ValueError, ex_heap)) \<and>
   (\<exists>op hs.
      (\<forall>(lsqr :: (nat \<times> nat) solver) b tol iter_lim.
         pinv_precond_lsqr lsqr ex_A b ex_R tol iter_lim ex_heap =
         py_bind (lsqr op b tol tol iter_lim None)
           (\<lambda>result. py_bind (matmul ex_R (fst result)) (\<lambda>x. ret (x, snd result))) hs) \<and>
      rmatvec op 0 ex_heap = (Inl ValueError, ex_heap))"
proof -
  have 1: "shape ex_A = (3, 2)" by (simp add: ex_defs shape_defs)
  have 2: "shape ex_R_small \<noteq> (2, 2)" by (simp add: ex_R_small_def shape_defs)
  have 3: "nrows ex_R_small \<noteq> 2" by (simp add: ex_R_small_def shape_defs)
  have 4: "shape ex_R = (2, 2)" by (simp add: ex_defs shape_defs)
  have 5: "\<not> zero_on_diagonal ex_R" by (simp add: ex_defs shape_defs)
  have 6: "nrows ex_R = 2" by (simp add: ex_defs shape_defs)
  have 7: "(1 :: nat) < next_addr ex_heap" by (simp add: ex_defs)
  have 8: "length (cells ex_heap 1) \<noteq> 2" by (simp add: ex_defs)
  have 9: "length (cells ex_heap 0) \<noteq> 3" by (simp add: ex_defs)
  note inst = shape_mismatch_surfaces [where ?'d = "nat \<times> nat", OF 1 2 3 4 5 6 7 8 7 8 9]
  show ?thesis
    by (intro conjI 1 2 3 4 5 6 7 8 9 inst [THEN conjunct1]
        inst [THEN conjunct2, THEN conjunct1]
        inst [THEN conjunct2, THEN conjunct2, THEN conjunct1]
        inst [THEN conjunct2, THEN conjunct2, THEN conjunct2, THEN conjunct1]
        inst [THEN conjunct2, THEN conjunct2, THEN conjunct2, THEN conjunct2])
qed

end
